(* ===== verification/Prelude.thy ===== *)
theory Prelude
  imports Main "HOL-Library.Word" "HOL-Library.Multiset" "HOL-Library.Sublist"
begin

text \<open>
  Shared material of the development: runs and reachable states of an executable step function,
  the locale of machines with an invariant, counting the threads of a system that are at some
  program point, the contents of a ring buffer, and a few facts on lists.
\<close>

section \<open>Collections of simplification rules\<close>

named_theorems tok_simps "membership of program points in the classes the invariants count"

section \<open>Runs and reachable states\<close>

text \<open>
  A component with several threads is an executable step function: the state, an action (which
  thread moves, and the choices the scheduler or the operating system makes) and the next state,
  \<open>None\<close> where that action is not possible in that state (a blocked call, a finished thread).
\<close>

primrec run :: "('s \<Rightarrow> 'a \<Rightarrow> 's option) \<Rightarrow> 's \<Rightarrow> 'a list \<Rightarrow> 's option" where
  "run f s [] = Some s"
| "run f s (a # as) = (case f s a of None \<Rightarrow> None | Some t \<Rightarrow> run f t as)"

inductive reachable :: "('s \<Rightarrow> 'a \<Rightarrow> 's option) \<Rightarrow> 's \<Rightarrow> 's \<Rightarrow> bool" for f s0 where
  reach_start: "reachable f s0 s0"
| reach_step: "reachable f s0 s \<Longrightarrow> f s a = Some t \<Longrightarrow> reachable f s0 t"

lemma run_append:
  "run f s (as @ bs) = (case run f s as of None \<Rightarrow> None | Some t \<Rightarrow> run f t bs)"
  by (induction as arbitrary: s) (auto split: option.splits)

lemma reachable_run: "reachable f s0 s \<Longrightarrow> run f s as = Some t \<Longrightarrow> reachable f s0 t"
proof (induction as arbitrary: s)
  case Nil
  then show ?case by simp
next
  case (Cons a as)
  from Cons.prems obtain u where u: "f s a = Some u" and r: "run f u as = Some t"
    by (auto split: option.splits)
  from Cons.prems(1) u have "reachable f s0 u" by (rule reach_step)
  then show ?case using r by (rule Cons.IH)
qed

lemma run_reachable: "run f s0 as = Some t \<Longrightarrow> reachable f s0 t"
  by (rule reachable_run [OF reach_start])

lemma reachable_imp_run: "reachable f s0 s \<Longrightarrow> \<exists>as. run f s0 as = Some s"
proof (induction rule: reachable.induct)
  case reach_start
  have "run f s0 [] = Some s0" by simp
  then show ?case by blast
next
  case (reach_step s a t)
  then obtain as where "run f s0 as = Some s" by blast
  with reach_step.hyps(2) have "run f s0 (as @ [a]) = Some t"
    by (simp add: run_append)
  then show ?case by blast
qed

lemma reachable_trans: "reachable f s t \<Longrightarrow> reachable f s0 s \<Longrightarrow> reachable f s0 t"
  by (induction rule: reachable.induct) (auto intro: reach_step)

text \<open>The contract of a machine with an invariant: it holds at the start and steps keep it.\<close>

locale invariant_machine =
  fixes step :: "'s \<Rightarrow> 'a \<Rightarrow> 's option"
    and start :: 's
    and inv :: "'s \<Rightarrow> bool"
  assumes inv_start: "inv start"
    and inv_step: "inv s \<Longrightarrow> step s a = Some t \<Longrightarrow> inv t"
begin

lemma inv_run: "inv s \<Longrightarrow> run step s as = Some t \<Longrightarrow> inv t"
  by (induction as arbitrary: s) (auto split: option.splits intro: inv_step)

lemma inv_reachable: "reachable step start s \<Longrightarrow> inv s"
  by (induction rule: reachable.induct) (auto intro: inv_start inv_step)

end

section \<open>Counting the threads at a program point\<close>

definition cnt :: "('a \<Rightarrow> bool) \<Rightarrow> 'a list \<Rightarrow> nat" where
  "cnt P xs = length (filter P xs)"

lemma cnt_Nil [simp]: "cnt P [] = 0"
  and cnt_Cons [simp]: "cnt P (x # xs) = (if P x then Suc (cnt P xs) else cnt P xs)"
  and cnt_append [simp]: "cnt P (xs @ ys) = cnt P xs + cnt P ys"
  by (simp_all add: cnt_def)

lemma cnt_pos: "i < length xs \<Longrightarrow> P (xs ! i) \<Longrightarrow> 0 < cnt P xs"
  by (auto simp: cnt_def filter_empty_conv)

lemma cnt_zero: "cnt P xs = 0 \<Longrightarrow> i < length xs \<Longrightarrow> \<not> P (xs ! i)"
  using cnt_pos by fastforce

lemma cnt_none: "(\<And>i. i < length xs \<Longrightarrow> \<not> P (xs ! i)) \<Longrightarrow> cnt P xs = 0"
  by (auto simp: cnt_def filter_empty_conv in_set_conv_nth)

lemma cnt_update:
  "i < length xs \<Longrightarrow> cnt P (xs[i := x]) + of_bool (P (xs ! i)) = cnt P xs + of_bool (P x)"
proof (induction xs arbitrary: i)
  case Nil
  then show ?case by simp
next
  case (Cons y ys)
  then show ?case by (cases i) auto
qed

lemma cnt_update_same [simp]:
  "i < length xs \<Longrightarrow> P (xs ! i) = P x \<Longrightarrow> cnt P (xs[i := x]) = cnt P xs"
  using cnt_update [of i xs P x] by simp

lemma cnt_update_in [simp]:
  "i < length xs \<Longrightarrow> \<not> P (xs ! i) \<Longrightarrow> P x \<Longrightarrow> cnt P (xs[i := x]) = Suc (cnt P xs)"
  using cnt_update [of i xs P x] by simp

lemma cnt_update_out [simp]:
  "i < length xs \<Longrightarrow> P (xs ! i) \<Longrightarrow> \<not> P x \<Longrightarrow> cnt P (xs[i := x]) = cnt P xs - 1"
  using cnt_update [of i xs P x] by simp

lemma cnt_le_one_unique:
  assumes "cnt P xs \<le> 1" and "i < length xs" and "j < length xs" and "P (xs ! i)" and "P (xs ! j)"
  shows "i = j"
proof -
  have "card {k. k < length xs \<and> P (xs ! k)} \<le> Suc 0"
    using assms(1) by (simp add: cnt_def length_filter_conv_card)
  moreover have "finite {k. k < length xs \<and> P (xs ! k)}" by simp
  ultimately show ?thesis
    using assms(2-) by (auto simp: card_le_Suc0_iff_eq)
qed

section \<open>Ring buffers\<close>

text \<open>The \<open>n\<close> entries of a ring of \<open>c\<close> slots, oldest first, when the oldest is in slot \<open>h\<close>.\<close>

definition ring_contents :: "nat \<Rightarrow> 'a list \<Rightarrow> nat \<Rightarrow> nat \<Rightarrow> 'a list" where
  "ring_contents c buf h n = map (\<lambda>k. buf ! ((h + k) mod c)) [0..<n]"

lemma length_ring_contents [simp]: "length (ring_contents c buf h n) = n"
  by (simp add: ring_contents_def)

lemma ring_contents_0 [simp]: "ring_contents c buf h 0 = []"
  by (simp add: ring_contents_def)

lemma mod_add_inj:
  fixes h k n c :: nat
  assumes "k < n" and "n < c" and "(h + k) mod c = (h + n) mod c"
  shows False
proof -
  have "(h + n) mod c = (h + k) mod c" using assms(3) by simp
  then have "c dvd (h + n) - (h + k)" by (rule mod_eq_dvd_iff_nat [THEN iffD1, rotated]) (use assms(1) in simp)
  then have "c dvd n - k" by simp
  with assms(1,2) show False by (auto dest: dvd_imp_le)
qed

text \<open>
  The index arithmetic of a ring of a fixed number of slots: writing the free slot leaves the
  contents alone, moving the tail publishes it, and moving the head drops the oldest entry.
\<close>

locale ring_buffer =
  fixes c :: nat
  assumes slots_pos: "0 < c"
begin

lemma write_free_slot:
  "n < c \<Longrightarrow> ring_contents c (buf[(h + n) mod c := x]) h n = ring_contents c buf h n"
  unfolding ring_contents_def
  by (rule map_cong [OF refl], rule nth_list_update_neq) (auto dest: mod_add_inj [OF _ _ sym])

lemma publish_slot:
  "ring_contents c buf h (Suc n) = ring_contents c buf h n @ [buf ! ((h + n) mod c)]"
  by (simp add: ring_contents_def)

lemma drop_oldest:
  "ring_contents c buf h (Suc n) = buf ! (h mod c) # ring_contents c buf ((h + 1) mod c) n"
proof -
  have "[0..<Suc n] = 0 # map Suc [0..<n]"
    by (simp only: upt_rec [of 0 "Suc n"] map_Suc_upt) simp
  then show ?thesis
    by (simp add: ring_contents_def comp_def mod_simps del: upt_Suc)
qed

lemma next_slot: "(h + n) mod c = t \<Longrightarrow> (t + 1) mod c = (h + Suc n) mod c"
  by (auto simp: mod_simps)

lemma slot_in_range: "t mod c < c"
  using slots_pos by simp

end

section \<open>Counters and branches\<close>

text \<open>A counter lags behind the length of a history while a thread is at the increment.\<close>

lemma counter_move:
  fixes a :: "'a::comm_ring"
  assumes "a + x = l" and "a' + q + l = a + p + l'" and "x' + p = x + q"
  shows "a' + x' = l'"
proof -
  have "a' + x' = (a' + q + l) + (x' + p) - p - q - l" by simp
  also have "\<dots> = (a + p + l') + (x + q) - p - q - l" by (simp only: assms(2,3))
  also have "\<dots> = l'" by (simp add: assms(1) [symmetric])
  finally show ?thesis .
qed

lemma if_in: "x \<in> A \<Longrightarrow> y \<in> A \<Longrightarrow> (if b then x else y) \<in> A"
  by simp

end
