(* ===== verification/Message.thy ===== *)
theory Message
  imports Prelude
begin

text \<open>
  The message and its checksum, shared by the queues of Lab4 and Lab5: \<open>message_t\<close>,
  \<open>compute_hash\<close>, \<open>verify_hash\<close> and \<open>fill_random_message\<close> of Lab4/parent.c and of
  Lab5/parent1.c. An \<open>unsigned char\<close> is an 8-bit word, an \<open>unsigned short\<close> a 16-bit word,
  and \<open>result += x\<close> is addition of 16-bit words (the integer promotion is undone by the
  assignment). The array \<open>data[256]\<close> is a list, of 256 bytes in a well-formed message.
  The values of successive \<open>rand()\<close> calls are a stream \<open>rnd\<close>, read from position \<open>k\<close>.
\<close>

section \<open>The message and its operations in Lab4\<close>

record message =
  msg_type :: "8 word"
  msg_hash :: "16 word"
  msg_size :: "8 word"
  msg_data :: "8 word list"

definition wf_message :: "message \<Rightarrow> bool" where
  "wf_message m \<longleftrightarrow> length (msg_data m) = 256"

function hash_loop :: "8 word list \<Rightarrow> nat \<Rightarrow> nat \<Rightarrow> 16 word \<Rightarrow> 16 word" where
  "hash_loop d data_len i result =
     (if i < data_len then hash_loop d data_len (Suc i) (result + ucast (d ! i)) else result)"
  by pat_completeness auto
termination
  by (relation "measure (\<lambda>(d, n, i, r). n - i)") auto

declare hash_loop.simps [simp del]

definition compute_hash :: "message \<Rightarrow> 16 word" where
  "compute_hash msg =
     (let result = 0;
          temp = msg;
          data_len = unat (msg_size temp);
          result = result + ucast (msg_type temp);
          result = result + ucast (msg_size temp)
      in hash_loop (msg_data temp) data_len 0 result)"

definition verify_hash :: "message \<Rightarrow> int" where
  "verify_hash msg =
     (let real_hash = compute_hash msg in if real_hash = msg_hash msg then 1 else 0)"

definition rand_byte :: "int \<Rightarrow> 8 word" where
  "rand_byte r = word_of_int (r mod 256)"

function fill_data :: "(nat \<Rightarrow> int) \<Rightarrow> nat \<Rightarrow> nat \<Rightarrow> 8 word list \<Rightarrow> 8 word list" where
  "fill_data rnd k i d =
     (if i < 256 then fill_data rnd (Suc k) (Suc i) (d[i := rand_byte (rnd k)]) else d)"
  by pat_completeness auto
termination
  by (relation "measure (\<lambda>(rnd, k, i, d). 256 - i)") auto

declare fill_data.simps [simp del]

definition fill_random_message :: "(nat \<Rightarrow> int) \<Rightarrow> nat \<Rightarrow> message \<Rightarrow> message" where
  "fill_random_message rnd k msg =
     (let msg = msg\<lparr>msg_type := rand_byte (rnd k)\<rparr>;
          msg = msg\<lparr>msg_size := rand_byte (rnd (k + 1))\<rparr>;
          msg = msg\<lparr>msg_data := fill_data rnd (k + 2) 0 (msg_data msg)\<rparr>;
          msg = msg\<lparr>msg_hash := 0\<rparr>;
          h = compute_hash msg
      in msg\<lparr>msg_hash := h\<rparr>)"

section \<open>The same operations in Lab5\<close>

definition compute_hash5 :: "message \<Rightarrow> 16 word" where
  "compute_hash5 msg =
     (let result = 0;
          temp = msg\<lparr>msg_hash := 0\<rparr>;
          result = result + ucast (msg_type temp);
          result = result + ucast (msg_size temp)
      in hash_loop (msg_data temp) (unat (msg_size temp)) 0 result)"

definition verify_hash5 :: "message \<Rightarrow> bool" where
  "verify_hash5 msg \<longleftrightarrow> compute_hash5 msg = msg_hash msg"

definition fill_random_message5 :: "(nat \<Rightarrow> int) \<Rightarrow> nat \<Rightarrow> message \<Rightarrow> message" where
  "fill_random_message5 rnd k msg =
     (let msg = msg\<lparr>msg_type := rand_byte (rnd k)\<rparr>;
          msg = msg\<lparr>msg_size := rand_byte (rnd (k + 1))\<rparr>;
          msg = msg\<lparr>msg_data := fill_data rnd (k + 2) 0 (msg_data msg)\<rparr>
      in msg\<lparr>msg_hash := compute_hash5 msg\<rparr>)"

section \<open>The checksum as a sum of bytes\<close>

lemma hash_loop_sum:
  "i \<le> n \<Longrightarrow> hash_loop d n i r = r + (\<Sum>k = i..<n. ucast (d ! k))"
proof (induction d n i r rule: hash_loop.induct)
  case (1 d n i r)
  show ?case
  proof (cases "i < n")
    case True
    with "1.IH" have "hash_loop d n (Suc i) (r + ucast (d ! i)) =
        r + ucast (d ! i) + (\<Sum>k = Suc i..<n. ucast (d ! k))" by simp
    with True show ?thesis
      by (simp add: hash_loop.simps [of d n i r] sum.atLeast_Suc_lessThan add.assoc)
  next
    case False
    with "1.prems" show ?thesis by (simp add: hash_loop.simps)
  qed
qed

lemma compute_hash_sum:
  "compute_hash m = ucast (msg_type m) + ucast (msg_size m) +
     (\<Sum>k < unat (msg_size m). ucast (msg_data m ! k))"
  by (simp add: compute_hash_def hash_loop_sum atLeast0LessThan)

definition byte_sum :: "message \<Rightarrow> nat" where
  "byte_sum m = unat (msg_type m) + unat (msg_size m) +
     (\<Sum>k < unat (msg_size m). unat (msg_data m ! k))"

lemma unat_byte_le: "unat (b :: 8 word) \<le> 255"
proof -
  have "unat b < 2 ^ LENGTH(8)" by (rule unsigned_less)
  then show ?thesis by simp
qed

lemma byte_sum_bound: "byte_sum m \<le> 65535"
proof -
  have "(\<Sum>k < unat (msg_size m). unat (msg_data m ! k)) \<le> (\<Sum>k < unat (msg_size m). 255)"
    by (rule sum_mono) (rule unat_byte_le)
  also have "\<dots> \<le> 255 * 255" using unat_byte_le [of "msg_size m"] by simp
  finally show ?thesis
    using unat_byte_le [of "msg_type m"] unat_byte_le [of "msg_size m"]
    by (simp add: byte_sum_def)
qed

lemma compute_hash_of_nat: "compute_hash m = of_nat (byte_sum m)"
  by (simp add: compute_hash_sum byte_sum_def)

lemma compute_hash5_eq: "compute_hash5 m = compute_hash m"
  by (simp add: compute_hash5_def compute_hash_def Let_def)

lemma fill_random_message5_eq: "fill_random_message5 rnd k m = fill_random_message rnd k m"
  by (simp add: fill_random_message5_def fill_random_message_def compute_hash5_eq
      compute_hash_sum Let_def)

lemma verify_hash5_eq: "verify_hash5 m \<longleftrightarrow> verify_hash m = 1"
  by (simp add: verify_hash5_def verify_hash_def compute_hash5_eq)

lemma length_fill_data [simp]: "length (fill_data rnd k i d) = length d"
proof (induction rnd k i d rule: fill_data.induct)
  case (1 rnd k i d)
  then show ?case by (simp add: fill_data.simps [of rnd k i d])
qed

lemma wf_fill_random_message: "wf_message m \<Longrightarrow> wf_message (fill_random_message rnd k m)"
  by (simp add: wf_message_def fill_random_message_def Let_def)

section \<open>Properties\<close>

lemma unat_compute_hash: "unat (compute_hash m) = byte_sum m"
proof -
  have "byte_sum m < 2 ^ 16" using byte_sum_bound [of m] by simp
  then show ?thesis by (simp add: compute_hash_of_nat unat_of_nat take_bit_nat_eq_self)
qed

lemma fill_random_message_verifies: "verify_hash (fill_random_message rnd k m) = 1"
  by (simp add: verify_hash_def fill_random_message_def compute_hash_sum Let_def)

lemma verify_hash_iff: "verify_hash m = 1 \<longleftrightarrow> byte_sum m = unat (msg_hash m)"
  by (auto simp: verify_hash_def unat_compute_hash [symmetric] word_unat_eq_iff)

text \<open>
  The 16-bit accumulator of \<open>compute_hash\<close> never wraps. Whatever the message, the hash read as
  a natural number is exactly type + size + the sum of the first \<open>size\<close> data bytes; the largest
  possible sum, 255 + 255 + 255 * 255 = 65535, just fits the unsigned short.
\<close>

theorem compute_hash_exact:
  "unat (compute_hash m) = unat (msg_type m) + unat (msg_size m) +
     (\<Sum>k < unat (msg_size m). unat (msg_data m ! k)) \<and> unat (compute_hash m) \<le> 65535"
  using byte_sum_bound [of m] by (simp add: unat_compute_hash) (simp add: byte_sum_def)

text \<open>
  (Lab4 and Lab5 fill_random_message, verify_hash): a freshly filled message always verifies, in
  both programs, whatever \<open>rand\<close> returns and whatever the slot held before; the slot stays a
  well-formed message of 256 data bytes when it was one.
\<close>

theorem filled_message_verifies:
  "verify_hash (fill_random_message rnd k m) = 1 \<and>
   verify_hash5 (fill_random_message5 rnd k m) \<and>
   fill_random_message5 rnd k m = fill_random_message rnd k m \<and>
   wf_message (fill_random_message rnd k m) = wf_message m"
  using fill_random_message_verifies [of rnd k m]
  by (auto simp: fill_random_message5_eq verify_hash5_eq wf_message_def fill_random_message_def Let_def)

text \<open>
  C37 (verify_hash): what the checksum detects. When a message verifies and its data array is
  replaced, it still verifies exactly when the sum of the first \<open>size\<close> bytes is unchanged. So
  overwriting one byte inside \<open>size\<close> by a different one is always detected, while exchanging
  two bytes never is.
\<close>

theorem checksum_detection:
  assumes "verify_hash m = 1" and "wf_message m"
  shows "(verify_hash (m\<lparr>msg_data := d\<rparr>) = 1 \<longleftrightarrow>
            (\<Sum>k < unat (msg_size m). unat (d ! k)) =
            (\<Sum>k < unat (msg_size m). unat (msg_data m ! k)))
     \<and> (i < unat (msg_size m) \<and> b \<noteq> msg_data m ! i \<longrightarrow>
            verify_hash (m\<lparr>msg_data := (msg_data m)[i := b]\<rparr>) = 0)"
proof (intro conjI impI)
  show iff: "verify_hash (m\<lparr>msg_data := d\<rparr>) = 1 \<longleftrightarrow>
      (\<Sum>k < unat (msg_size m). unat (d ! k)) =
      (\<Sum>k < unat (msg_size m). unat (msg_data m ! k))" for d
    using assms(1) by (auto simp: verify_hash_iff byte_sum_def)
  assume "i < unat (msg_size m) \<and> b \<noteq> msg_data m ! i"
  then have i: "i < unat (msg_size m)" and b: "unat b \<noteq> unat (msg_data m ! i)"
    by (auto simp: word_unat_eq_iff)
  have len: "i < length (msg_data m)"
    using i unat_byte_le [of "msg_size m"] assms(2) by (simp add: wf_message_def)
  have split: "(\<Sum>k < unat (msg_size m). f k) = f i + (\<Sum>k \<in> {..<unat (msg_size m)} - {i}. f k)"
    for f :: "nat \<Rightarrow> nat" using i by (simp add: sum.remove)
  have "(\<Sum>k \<in> {..<unat (msg_size m)} - {i}. unat ((msg_data m)[i := b] ! k)) =
      (\<Sum>k \<in> {..<unat (msg_size m)} - {i}. unat (msg_data m ! k))"
    by (rule sum.cong) auto
  then have "verify_hash (m\<lparr>msg_data := (msg_data m)[i := b]\<rparr>) \<noteq> 1"
    using b len by (simp add: iff split)
  then show "verify_hash (m\<lparr>msg_data := (msg_data m)[i := b]\<rparr>) = 0"
    by (auto simp: verify_hash_def Let_def split: if_splits)
qed

definition sample_message :: message where
  "sample_message =
     \<lparr>msg_type = 7, msg_hash = 24, msg_size = 2, msg_data = 5 # 10 # replicate 254 0\<rparr>"

lemma sample_data: "msg_data sample_message ! 0 = 5" "msg_data sample_message ! 1 = 10"
  "msg_data sample_message ! Suc 0 = 10" "msg_size sample_message = 2"
  "msg_type sample_message = 7" "msg_hash sample_message = 24"
  by (simp_all add: sample_message_def)

theorem checksum_detection_witness:
  "verify_hash sample_message = 1 \<and> wf_message sample_message \<and>
   verify_hash (sample_message\<lparr>msg_data := (msg_data sample_message)[1 := 9]\<rparr>) = 0"
proof -
  have v: "verify_hash sample_message = 1"
    by (simp add: verify_hash_def compute_hash_def hash_loop.simps sample_data Let_def)
  have w: "wf_message sample_message" by (simp add: wf_message_def sample_message_def)
  have "verify_hash (sample_message\<lparr>msg_data := (msg_data sample_message)[1 := 9]\<rparr>) = 0"
    by (rule checksum_detection [OF v w, THEN conjunct2, rule_format]) (simp add: sample_data)
  with v w show ?thesis by blast
qed

end
