(* ===== verification/Fifo_Spec.thy ===== *)
theory Fifo_Spec
  imports Prelude
begin

text \<open>
  What a producer/consumer queue promises: an abstract bounded first-in first-out queue with a
  history, and the contract (a locale) under which a machine with threads, program points and a
  ring buffer refines it. The three queues of Lab4 and Lab5 interpret it.
\<close>

record 'm fifo =
  pending :: "'m list"
  accepted :: "'m list"
  delivered :: "'m list"

definition empty_fifo :: "'m fifo" where
  "empty_fifo = \<lparr>pending = [], accepted = [], delivered = []\<rparr>"

inductive fifo_step :: "nat \<Rightarrow> 'm fifo \<Rightarrow> 'm fifo \<Rightarrow> bool" for cap where
  fifo_put: "length (pending q) < cap \<Longrightarrow>
     fifo_step cap q (q\<lparr>pending := pending q @ [m], accepted := accepted q @ [m]\<rparr>)"
| fifo_get: "pending q = m # ms \<Longrightarrow>
     fifo_step cap q (q\<lparr>pending := ms, delivered := delivered q @ [m]\<rparr>)"

inductive_cases fifo_stepE: "fifo_step cap q r"

definition fifo_inv :: "nat \<Rightarrow> 'm fifo \<Rightarrow> bool" where
  "fifo_inv cap q \<longleftrightarrow> accepted q = delivered q @ pending q \<and> length (pending q) \<le> cap"

lemma fifo_inv_step: "fifo_inv cap q \<Longrightarrow> fifo_step cap q r \<Longrightarrow> fifo_inv cap r"
  by (auto simp: fifo_inv_def elim!: fifo_stepE)

lemma fifo_inv_steps: "(fifo_step cap)\<^sup>*\<^sup>* empty_fifo q \<Longrightarrow> fifo_inv cap q"
proof (induction rule: rtranclp_induct)
  case base
  show ?case by (simp add: fifo_inv_def empty_fifo_def)
next
  case (step q r)
  then show ?case by (blast intro: fifo_inv_step)
qed

text \<open>How one step of a machine may change the two histories.\<close>

definition hist_step :: "'m list \<Rightarrow> 'm list \<Rightarrow> 'm list \<Rightarrow> 'm list \<Rightarrow> bool" where
  "hist_step i out i' out' \<longleftrightarrow>
     (i' = i \<and> out' = out) \<or> (\<exists>m. i' = i @ [m] \<and> out' = out) \<or> (\<exists>m. i' = i \<and> out' = out @ [m])"

lemma hist_step_refl [simp, intro]: "hist_step i out i out"
  by (simp add: hist_step_def)

lemma hist_step_put [simp, intro]: "hist_step i out (i @ [m]) out"
  by (simp add: hist_step_def)

lemma hist_step_get [simp, intro]: "hist_step i out i (out @ [m])"
  by (simp add: hist_step_def)

locale fifo_machine = invariant_machine step start inv
  for step :: "'s \<Rightarrow> 'a \<Rightarrow> 's option" and start :: 's and inv :: "'s \<Rightarrow> bool" +
  fixes cap :: nat
    and abs :: "'s \<Rightarrow> 'm fifo"
  assumes abs_start: "abs start = empty_fifo"
    and abs_inv: "inv s \<Longrightarrow> fifo_inv cap (abs s)"
    and abs_hist: "step s a = Some t \<Longrightarrow>
          hist_step (accepted (abs s)) (delivered (abs s)) (accepted (abs t)) (delivered (abs t))"
begin

lemma simulation:
  assumes s: "inv s" and st: "step s a = Some t"
  shows "abs t = abs s \<or> fifo_step cap (abs s) (abs t)"
proof -
  have I: "fifo_inv cap (abs s)" and I': "fifo_inv cap (abs t)"
    using s abs_inv inv_step [OF s st] by auto
  from abs_hist [OF st] show ?thesis
  proof (unfold hist_step_def, elim disjE exE conjE)
    assume "accepted (abs t) = accepted (abs s)" "delivered (abs t) = delivered (abs s)"
    with I I' show ?thesis by (simp add: fifo_inv_def)
  next
    fix m
    assume a: "accepted (abs t) = accepted (abs s) @ [m]" "delivered (abs t) = delivered (abs s)"
    with I I' have p: "pending (abs t) = pending (abs s) @ [m]" by (simp add: fifo_inv_def)
    with I' have "length (pending (abs s)) < cap" by (simp add: fifo_inv_def)
    moreover have "abs t = (abs s)
        \<lparr>pending := pending (abs s) @ [m], accepted := accepted (abs s) @ [m]\<rparr>"
      by (rule fifo.equality) (simp_all add: a p)
    ultimately show ?thesis by (simp add: fifo_put)
  next
    fix m
    assume a: "accepted (abs t) = accepted (abs s)" "delivered (abs t) = delivered (abs s) @ [m]"
    with I I' have p: "pending (abs s) = m # pending (abs t)" by (simp add: fifo_inv_def)
    moreover have "abs t = (abs s)
        \<lparr>pending := pending (abs t), delivered := delivered (abs s) @ [m]\<rparr>"
      by (rule fifo.equality) (simp_all add: a)
    ultimately show ?thesis using fifo_get by metis
  qed
qed

lemma refines: "reachable step start s \<Longrightarrow> (fifo_step cap)\<^sup>*\<^sup>* empty_fifo (abs s)"
proof (induction rule: reachable.induct)
  case reach_start
  show ?case by (simp add: abs_start)
next
  case (reach_step s a t)
  from reach_step.hyps(1) have "inv s" by (rule inv_reachable)
  from simulation [OF this reach_step.hyps(2)] reach_step.IH show ?case
    by (auto intro: rtranclp.rtrancl_into_rtrancl)
qed

end

end
