(* ===== verification/Locked_Ring.thy ===== *)
theory Locked_Ring
  imports Fifo_Spec
begin

text \<open>
  A ring of slots that threads use under a mutex, as the three queues of Lab4 and Lab5 have it. The
  locale follows the number of messages in the ring as the difference of the two histories, so that
  it also describes a program that puts more messages in than the ring has slots: up to \<open>c - 1\<close> the
  memory holds the messages, and from \<open>c\<close> on the ring has wrapped around for good.
\<close>

record 'm ring_view =
  lock_free :: nat
  slots :: "'m list"
  oldest :: nat
  vacant :: nat
  put_in :: "'m list"
  taken_out :: "'m list"

definition in_ring :: "('m, 'z) ring_view_scheme \<Rightarrow> nat" where
  "in_ring v = length (put_in v) - length (taken_out v)"

locale locked_ring = ring_buffer c for c :: nat +
  fixes in_crit :: "'pc \<Rightarrow> bool"
    and valid :: "'m \<Rightarrow> bool"
    and local_ok :: "'m list \<Rightarrow> nat \<Rightarrow> nat \<Rightarrow> nat \<Rightarrow> 'pc \<Rightarrow> bool"
  assumes local_ok_frame: "\<not> in_crit p \<Longrightarrow> local_ok b h t n p \<Longrightarrow> local_ok b' h' t' n' p"
begin

definition holds_messages :: "'m ring_view \<Rightarrow> bool" where
  "holds_messages v \<longleftrightarrow>
     (\<forall>m \<in> set (put_in v). valid m) \<and> (\<forall>m \<in> set (taken_out v). valid m) \<and>
     (\<forall>k < min (in_ring v) c. valid (slots v ! ((oldest v + k) mod c))) \<and>
     (in_ring v < c \<longrightarrow>
        put_in v = taken_out v @ ring_contents c (slots v) (oldest v) (in_ring v))"

lemma holds_messagesD:
  assumes "holds_messages v"
  shows "m \<in> set (put_in v) \<Longrightarrow> valid m" "m \<in> set (taken_out v) \<Longrightarrow> valid m"
    "k < in_ring v \<Longrightarrow> k < c \<Longrightarrow> valid (slots v ! ((oldest v + k) mod c))"
    "in_ring v < c \<Longrightarrow> put_in v = taken_out v @ ring_contents c (slots v) (oldest v) (in_ring v)"
  using assms by (auto simp: holds_messages_def)

text \<open>\<open>x\<close> is 1 when somebody outside the list of threads holds the mutex.\<close>

definition linv :: "nat \<Rightarrow> 'm ring_view \<Rightarrow> 'pc list \<Rightarrow> bool" where
  "linv x v ps \<longleftrightarrow>
     length (slots v) = c \<and> oldest v < c \<and> lock_free v + x + cnt in_crit ps = 1 \<and>
     length (taken_out v) \<le> length (put_in v) \<and> vacant v = (oldest v + in_ring v) mod c \<and>
     holds_messages v \<and>
     (\<forall>i < length ps. local_ok (slots v) (oldest v) (vacant v) (in_ring v) (ps ! i))"

lemma linvD:
  assumes "linv x v ps"
  shows "length (slots v) = c" "oldest v < c" "lock_free v + x + cnt in_crit ps = 1"
    "length (taken_out v) \<le> length (put_in v)" "vacant v = (oldest v + in_ring v) mod c"
    "holds_messages v"
    "i < length ps \<Longrightarrow> local_ok (slots v) (oldest v) (vacant v) (in_ring v) (ps ! i)"
  using assms by (auto simp: linv_def)

lemma crit_exclusive:
  assumes "linv x v ps" and "i < length ps" and "j < length ps"
    and "in_crit (ps ! i)" and "in_crit (ps ! j)"
  shows "i = j"
proof -
  have "cnt in_crit ps \<le> 1" using linvD(3) [OF assms(1)] by simp
  from cnt_le_one_unique [OF this assms(2-5)] show ?thesis .
qed

lemma move:
  assumes inv: "linv x v ps" and i: "i < length ps" and p: "ps ! i = p"
    and len: "length (slots w) = c" "oldest w < c"
    and lock: "lock_free w + of_bool (in_crit q) = lock_free v + of_bool (in_crit p)"
    and ring: "length (taken_out w) \<le> length (put_in w)" "vacant w = (oldest w + in_ring w) mod c"
      "holds_messages w"
    and loc: "local_ok (slots w) (oldest w) (vacant w) (in_ring w) q"
    and frame: "in_crit p \<or>
      slots w = slots v \<and> oldest w = oldest v \<and> vacant w = vacant v \<and> in_ring w = in_ring v"
  shows "linv x w (ps[i := q])"
proof -
  have crit: "lock_free w + x + cnt in_crit (ps[i := q]) = 1"
    using linvD(3) [OF inv] lock cnt_update [OF i, of in_crit q, unfolded p] by simp
  have others: "local_ok (slots w) (oldest w) (vacant w) (in_ring w) (ps ! j)"
    if j: "j < length ps" "j \<noteq> i" for j
  proof (cases "in_crit p")
    case True
    then have "\<not> in_crit (ps ! j)" using crit_exclusive [OF inv i j(1)] p j(2) by blast
    then show ?thesis using linvD(7) [OF inv j(1)] by (rule local_ok_frame)
  next
    case False
    with frame linvD(7) [OF inv j(1)] show ?thesis by simp
  qed
  have "\<forall>j < length (ps[i := q]). local_ok (slots w) (oldest w) (vacant w) (in_ring w) (ps[i := q] ! j)"
    using others loc i by (auto simp: nth_list_update)
  then show ?thesis using len crit ring by (simp add: linv_def)
qed

lemma quiet:
  assumes inv: "linv x v ps" and i: "i < length ps" and p: "ps ! i = p"
    and same: "slots w = slots v" "oldest w = oldest v" "vacant w = vacant v"
      "put_in w = put_in v" "taken_out w = taken_out v"
    and lock: "lock_free w + of_bool (in_crit q) = lock_free v + of_bool (in_crit p)"
    and loc: "local_ok (slots v) (oldest v) (vacant v) (in_ring v) p \<Longrightarrow>
      local_ok (slots v) (oldest v) (vacant v) (in_ring v) q"
  shows "linv x w (ps[i := q])"
proof -
  have n: "in_ring w = in_ring v" by (simp add: in_ring_def same)
  have "holds_messages w" using linvD(6) [OF inv] by (simp add: holds_messages_def n same)
  moreover have "local_ok (slots v) (oldest v) (vacant v) (in_ring v) q"
    using linvD(7) [OF inv i] p by (intro loc) simp
  ultimately show ?thesis
    by (intro move [OF inv i p _ _ lock]) (use linvD [OF inv] in \<open>simp_all add: same n\<close>)
qed

lemma write_slot:
  assumes inv: "linv x v ps" and i: "i < length ps" and p: "ps ! i = p"
    and crit: "in_crit p" "in_crit q" and m: "valid m"
    and loc: "local_ok ((slots v)[vacant v := m]) (oldest v) (vacant v) (in_ring v) q"
  shows "linv x (v\<lparr>slots := (slots v)[vacant v := m]\<rparr>) (ps[i := q])"
proof -
  define w where "w = v\<lparr>slots := (slots v)[vacant v := m]\<rparr>"
  have f: "slots w = (slots v)[vacant v := m]" "oldest w = oldest v" "vacant w = vacant v"
    "put_in w = put_in v" "taken_out w = taken_out v" "lock_free w = lock_free v" "in_ring w = in_ring v"
    by (simp_all add: w_def in_ring_def)
  note h = holds_messagesD [OF linvD(6) [OF inv]]
  have "valid (slots w ! ((oldest w + k) mod c))" if "k < min (in_ring w) c" for k
    using h(3) [of k] that m linvD(1) [OF inv] slot_in_range [of "oldest v + k"]
    by (cases "(oldest v + k) mod c = vacant v") (simp_all add: f)
  then have "holds_messages w"
    using h write_free_slot [of "in_ring v" "slots v" "oldest v"] linvD(5) [OF inv]
    by (simp add: holds_messages_def f)
  then have "linv x w (ps[i := q])"
    by (intro move [OF inv i p]) (use linvD [OF inv] crit loc in \<open>simp_all add: f\<close>)
  then show ?thesis by (simp add: w_def)
qed

lemma publish:
  assumes inv: "linv x v ps" and i: "i < length ps" and p: "ps ! i = p"
    and crit: "in_crit p" "in_crit q" and valid: "valid (slots v ! vacant v)"
    and loc: "local_ok (slots v) (oldest v) ((vacant v + 1) mod c) (Suc (in_ring v)) q"
  shows "linv x (v\<lparr>vacant := (vacant v + 1) mod c, put_in := put_in v @ [slots v ! vacant v]\<rparr>)
           (ps[i := q])"
proof -
  define w where "w = v\<lparr>vacant := (vacant v + 1) mod c, put_in := put_in v @ [slots v ! vacant v]\<rparr>"
  have f: "slots w = slots v" "oldest w = oldest v" "vacant w = (vacant v + 1) mod c"
    "put_in w = put_in v @ [slots v ! vacant v]" "taken_out w = taken_out v" "lock_free w = lock_free v"
    by (simp_all add: w_def)
  have n: "in_ring w = Suc (in_ring v)" using linvD(4) [OF inv] by (simp add: in_ring_def f Suc_diff_le)
  have t: "(oldest v + in_ring v) mod c = vacant v" using linvD(5) [OF inv] by simp
  note h = holds_messagesD [OF linvD(6) [OF inv]]
  have "valid (slots w ! ((oldest w + k) mod c))" if "k < min (in_ring w) c" for k
    using h(3) [of k] that valid t by (cases "k = in_ring v") (simp_all add: n f)
  then have "holds_messages w"
    using h valid by (auto simp: holds_messages_def n f publish_slot t)
  then have "linv x w (ps[i := q])"
    by (intro move [OF inv i p])
      (use linvD(1-4) [OF inv] crit loc in \<open>simp_all add: n f next_slot [OF t, simplified]\<close>)
  then show ?thesis by (simp add: w_def)
qed

text \<open>Taking a message out is right as long as \<open>head\<close> and \<open>tail\<close> differ.\<close>

lemma take_oldest:
  assumes inv: "linv x v ps" and i: "i < length ps" and p: "ps ! i = p"
    and crit: "in_crit p" "in_crit q" and some: "in_ring v mod c \<noteq> 0"
    and loc: "valid (slots v ! oldest v) \<Longrightarrow>
      local_ok (slots v) ((oldest v + 1) mod c) (vacant v) (in_ring v - 1) q"
  shows "linv x (v\<lparr>oldest := (oldest v + 1) mod c, taken_out := taken_out v @ [slots v ! oldest v]\<rparr>)
           (ps[i := q])"
proof -
  define w where "w = v\<lparr>oldest := (oldest v + 1) mod c, taken_out := taken_out v @ [slots v ! oldest v]\<rparr>"
  have f: "slots w = slots v" "oldest w = (oldest v + 1) mod c" "vacant w = vacant v"
    "put_in w = put_in v" "taken_out w = taken_out v @ [slots v ! oldest v]" "lock_free w = lock_free v"
    by (simp_all add: w_def)
  have n: "in_ring w = in_ring v - 1" by (simp add: in_ring_def f)
  obtain k where k: "in_ring v = Suc k" using some by (cases "in_ring v") simp_all
  have lt: "in_ring v - 1 < c \<longleftrightarrow> in_ring v < c"
  proof -
    have "in_ring v \<noteq> c" using some by auto
    then show ?thesis using k by arith
  qed
  have h: "oldest v mod c = oldest v" using linvD(2) [OF inv] by simp
  have put: "in_ring v < c \<Longrightarrow> put_in v = (taken_out v @ [slots v ! oldest v]) @
      ring_contents c (slots v) ((oldest v + 1) mod c) (in_ring v - 1)"
    using linvD(6) [OF inv] by (simp add: holds_messages_def k drop_oldest h)
  note hm = holds_messagesD [OF linvD(6) [OF inv]]
  have v: "valid (slots v ! oldest v)" using hm(3) [of 0] k slots_pos h by simp
  then have loc': "local_ok (slots v) ((oldest v + 1) mod c) (vacant v) (in_ring v - 1) q" by (rule loc)
  have "valid (slots w ! ((oldest w + j) mod c))" if "j < min (in_ring w) c" for j
  proof (cases "Suc j = c")
    case True
    have "(oldest w + j) mod c = (oldest v + Suc j) mod c" by (simp add: f mod_simps)
    then have "(oldest w + j) mod c = oldest v" using h True by simp
    with v show ?thesis by (simp add: f)
  next
    case False
    have "(oldest w + j) mod c = (oldest v + Suc j) mod c" by (simp add: f mod_simps)
    then show ?thesis using hm(3) [of "Suc j"] that False by (simp add: f n k)
  qed
  then have "holds_messages w"
    using put lt hm(1,2) v unfolding holds_messages_def n f by auto
  moreover have "vacant v = ((oldest v + 1) mod c + (in_ring v - 1)) mod c"
    using linvD(5) [OF inv] k by (simp add: mod_simps)
  moreover have "length (taken_out w) \<le> length (put_in w)"
    using k by (simp add: in_ring_def f)
  ultimately have "linv x w (ps[i := q])"
    by (intro move [OF inv i p])
      (use linvD(1,3) [OF inv] crit loc' slot_in_range in \<open>simp_all add: n f\<close>)
  then show ?thesis by (simp add: w_def)
qed

lemma spawn:
  assumes "linv x v ps" and "\<not> in_crit q" and "local_ok (slots v) (oldest v) (vacant v) (in_ring v) q"
  shows "linv x v (ps @ [q])"
  using assms by (auto simp: linv_def nth_append)

lemma outside:
  assumes "linv x v ps"
    and "slots w = slots v" "oldest w = oldest v" "vacant w = vacant v"
      "put_in w = put_in v" "taken_out w = taken_out v"
    and "lock_free w + y = lock_free v + x"
  shows "linv y w ps"
proof -
  have "in_ring w = in_ring v" using assms by (simp add: in_ring_def)
  then show ?thesis using assms by (auto simp: linv_def holds_messages_def)
qed

end

end
