(* ===== verification/Token_Queue.thy ===== *)
theory Token_Queue
  imports Locked_Ring
begin

text \<open>
  The protocol that the shared-memory queue of Lab4 and the semaphore queue of Lab5 follow: a ring
  of slots, a mutex, and two counting semaphores for the messages and the free slots. A program
  that follows it is described by five classes of its program points (what a thread at that point
  holds) and by a condition on the local variables; the locale proves, once, the invariant of the
  protocol and the four kinds of moves a thread makes under it.
\<close>

record 'm queue_view = "'m ring_view" +
  fill_count :: nat
  empty_count :: nat

locale token_queue = ring_buffer c for c :: nat +
  fixes in_crit owns_slot unposted_fill owns_message unposted_empty :: "'pc \<Rightarrow> bool"
    and valid :: "'m \<Rightarrow> bool"
    and local_ok :: "'m list \<Rightarrow> nat \<Rightarrow> nat \<Rightarrow> 'pc \<Rightarrow> bool"
  assumes local_ok_frame: "\<not> in_crit p \<Longrightarrow> local_ok b h t p \<Longrightarrow> local_ok b' h' t' p"
begin

text \<open>The messages in the ring, and all permits of the two semaphores wherever they are.\<close>

definition stored :: "'m queue_view \<Rightarrow> 'pc list \<Rightarrow> nat" where
  "stored v ps = fill_count v + cnt unposted_fill ps + cnt owns_message ps"

definition permits :: "'m queue_view \<Rightarrow> 'pc list \<Rightarrow> nat" where
  "permits v ps = fill_count v + empty_count v + cnt owns_slot ps + cnt unposted_fill ps
     + cnt owns_message ps + cnt unposted_empty ps"

text \<open>
  \<open>x\<close> is 1 when somebody outside the list of threads holds the mutex, and \<open>n\<close> is the number of
  permits in circulation.
\<close>

definition qinv :: "nat \<Rightarrow> nat \<Rightarrow> 'm queue_view \<Rightarrow> 'pc list \<Rightarrow> bool" where
  "qinv x n v ps \<longleftrightarrow>
     length (slots v) = c \<and> oldest v < c \<and> n \<le> c \<and>
     lock_free v + x + cnt in_crit ps = 1 \<and> permits v ps = n \<and>
     vacant v = (oldest v + stored v ps) mod c \<and>
     put_in v = taken_out v @ ring_contents c (slots v) (oldest v) (stored v ps) \<and>
     (\<forall>m \<in> set (put_in v). valid m) \<and>
     (\<forall>i < length ps. local_ok (slots v) (oldest v) (vacant v) (ps ! i))"

definition held :: "'pc \<Rightarrow> nat" where
  "held p = of_bool (owns_slot p) + of_bool (unposted_fill p) + of_bool (owns_message p)
          + of_bool (unposted_empty p)"

definition stored_by :: "'pc \<Rightarrow> nat" where
  "stored_by p = of_bool (unposted_fill p) + of_bool (owns_message p)"

lemma stored_simps [simp]:
  "stored (v\<lparr>slots := b\<rparr>) ps = stored v ps" "stored (v\<lparr>oldest := k\<rparr>) ps = stored v ps"
  "stored (v\<lparr>vacant := k\<rparr>) ps = stored v ps" "stored (v\<lparr>put_in := ms\<rparr>) ps = stored v ps"
  "stored (v\<lparr>taken_out := ms\<rparr>) ps = stored v ps"
  by (simp_all add: stored_def)

lemma stored_bound: "qinv x n v ps \<Longrightarrow> stored v ps + cnt owns_slot ps \<le> n"
  by (simp add: qinv_def stored_def permits_def)

lemma stored_length: "qinv x n v ps \<Longrightarrow> length (put_in v) - length (taken_out v) = stored v ps"
  by (simp add: qinv_def)

lemma crit_exclusive:
  assumes "qinv x n v ps" and "i < length ps" and "j < length ps"
    and "in_crit (ps ! i)" and "in_crit (ps ! j)"
  shows "i = j"
proof -
  have "cnt in_crit ps \<le> 1" using assms(1) by (simp add: qinv_def)
  from cnt_le_one_unique [OF this assms(2-5)] show ?thesis .
qed

lemma stored_move:
  assumes "i < length ps" and "ps ! i = p"
  shows "stored w (ps[i := q]) + stored_by p + fill_count v = stored v ps + stored_by q + fill_count w"
  using assms cnt_update [of i ps unposted_fill q] cnt_update [of i ps owns_message q]
  by (simp add: stored_def stored_by_def)

text \<open>What has to be shown of a step in which one thread moves from \<open>p\<close> to \<open>q\<close>.\<close>

lemma move:
  assumes inv: "qinv x n v ps" and i: "i < length ps" and p: "ps ! i = p"
    and len: "length (slots w) = c" "oldest w < c"
    and lock: "lock_free w + of_bool (in_crit q) = lock_free v + of_bool (in_crit p)"
    and tokens: "fill_count w + empty_count w + held q = fill_count v + empty_count v + held p"
    and ring: "vacant w = (oldest w + stored w (ps[i := q])) mod c"
      "put_in w = taken_out w @ ring_contents c (slots w) (oldest w) (stored w (ps[i := q]))"
      "\<forall>m \<in> set (put_in w). valid m"
    and loc: "local_ok (slots w) (oldest w) (vacant w) q"
    and frame: "in_crit p \<or> slots w = slots v \<and> oldest w = oldest v \<and> vacant w = vacant v"
  shows "qinv x n w (ps[i := q])"
proof -
  note upd = cnt_update [OF i, of _ q, unfolded p]
  have crit: "lock_free w + x + cnt in_crit (ps[i := q]) = 1"
    using inv lock upd [of in_crit] by (simp add: qinv_def)
  have tok: "permits w (ps[i := q]) = n"
    using inv tokens upd [of owns_slot] upd [of unposted_fill] upd [of owns_message]
      upd [of unposted_empty]
    by (simp add: qinv_def permits_def held_def)
  have others: "local_ok (slots w) (oldest w) (vacant w) (ps ! j)" if j: "j < length ps" "j \<noteq> i" for j
  proof -
    have ok: "local_ok (slots v) (oldest v) (vacant v) (ps ! j)"
      using inv j unfolding qinv_def by blast
    show ?thesis
    proof (cases "in_crit p")
      case True
      then have "\<not> in_crit (ps ! j)" using crit_exclusive [OF inv i j(1)] p j(2) by blast
      then show ?thesis using ok by (rule local_ok_frame)
    next
      case False
      with frame ok show ?thesis by simp
    qed
  qed
  have "\<forall>j < length (ps[i := q]). local_ok (slots w) (oldest w) (vacant w) (ps[i := q] ! j)"
    using others loc i by (auto simp: nth_list_update)
  moreover have "n \<le> c" using inv by (simp add: qinv_def)
  ultimately show ?thesis using len crit tok ring by (simp add: qinv_def)
qed

text \<open>The ring and the histories stay as they are: semaphore operations, local computation.\<close>

lemma quiet:
  assumes inv: "qinv x n v ps" and i: "i < length ps" and p: "ps ! i = p"
    and same: "slots w = slots v" "oldest w = oldest v" "vacant w = vacant v"
      "put_in w = put_in v" "taken_out w = taken_out v"
    and lock: "lock_free w + of_bool (in_crit q) = lock_free v + of_bool (in_crit p)"
    and tokens: "fill_count w + empty_count w + held q = fill_count v + empty_count v + held p"
    and fill: "fill_count w + stored_by q = fill_count v + stored_by p"
    and loc: "local_ok (slots v) (oldest v) (vacant v) p \<Longrightarrow> local_ok (slots v) (oldest v) (vacant v) q"
  shows "qinv x n w (ps[i := q])"
proof -
  have st: "stored w (ps[i := q]) = stored v ps"
    using stored_move [OF i p, of w q v] fill by simp
  have "local_ok (slots v) (oldest v) (vacant v) p" using inv i p by (auto simp: qinv_def)
  then have "local_ok (slots v) (oldest v) (vacant v) q" by (rule loc)
  then show ?thesis
    by (intro move [OF inv i p _ _ lock tokens]) (use inv in \<open>simp_all add: qinv_def same st\<close>)
qed

text \<open>A producer writes the free slot it owns.\<close>

lemma write_slot:
  assumes inv: "qinv x n v ps" and i: "i < length ps" and p: "ps ! i = p"
    and at_p: "in_crit p" "owns_slot p" "held p = 1" and at_q: "in_crit q" "owns_slot q" "held q = 1"
    and loc: "local_ok ((slots v)[vacant v := m]) (oldest v) (vacant v) q"
  shows "qinv x n (v\<lparr>slots := (slots v)[vacant v := m]\<rparr>) (ps[i := q])"
proof -
  let ?w = "v\<lparr>slots := (slots v)[vacant v := m]\<rparr>"
  have nost: "stored_by p = 0" "stored_by q = 0" using at_p at_q by (simp_all add: held_def stored_by_def)
  have st: "stored v (ps[i := q]) = stored v ps"
    using stored_move [OF i p, of v q v] nost by simp
  have "0 < cnt owns_slot ps" by (rule cnt_pos [OF i]) (simp add: p at_p)
  then have lt: "stored v ps < c"
    using stored_bound [OF inv] inv by (simp add: qinv_def)
  have "vacant v = (oldest v + stored v ps) mod c" using inv by (simp add: qinv_def)
  then have "ring_contents c ((slots v)[vacant v := m]) (oldest v) (stored v ps) =
      ring_contents c (slots v) (oldest v) (stored v ps)"
    using write_free_slot [OF lt] by simp
  then show ?thesis
    by (intro move [OF inv i p]) (use inv at_p at_q loc in \<open>simp_all add: qinv_def st\<close>)
qed

text \<open>Advancing the tail makes the message just written the newest of the ring.\<close>

lemma publish:
  assumes inv: "qinv x n v ps" and i: "i < length ps" and p: "ps ! i = p"
    and at_p: "in_crit p" "owns_slot p" "held p = 1" and at_q: "in_crit q" "unposted_fill q" "held q = 1"
    and valid: "valid (slots v ! vacant v)"
    and loc: "local_ok (slots v) (oldest v) ((vacant v + 1) mod c) q"
  shows "qinv x n (v\<lparr>vacant := (vacant v + 1) mod c, put_in := put_in v @ [slots v ! vacant v]\<rparr>)
           (ps[i := q])"
proof -
  let ?w = "v\<lparr>vacant := (vacant v + 1) mod c, put_in := put_in v @ [slots v ! vacant v]\<rparr>"
  have sb: "stored_by p = 0" "stored_by q = 1" using at_p at_q by (simp_all add: held_def stored_by_def)
  have st: "stored v (ps[i := q]) = Suc (stored v ps)"
    using stored_move [OF i p, of v q v] sb by simp
  have t: "(oldest v + stored v ps) mod c = vacant v" using inv by (simp add: qinv_def)
  have "(vacant v + 1) mod c = (oldest v + Suc (stored v ps)) mod c"
    using t by (rule next_slot)
  moreover have "\<forall>m \<in> set (put_in ?w). valid m" using inv valid by (simp add: qinv_def)
  moreover have "put_in ?w = taken_out v @ ring_contents c (slots v) (oldest v) (Suc (stored v ps))"
    using inv by (simp add: qinv_def publish_slot t)
  ultimately show ?thesis
    by (intro move [OF inv i p])
      (use inv at_p(1,3) at_q(1,3) loc in \<open>simp_all add: qinv_def st del: set_append\<close>)
qed

text \<open>Advancing the head takes the oldest message out of the ring.\<close>

lemma take_oldest:
  assumes inv: "qinv x n v ps" and i: "i < length ps" and p: "ps ! i = p"
    and at_p: "in_crit p" "owns_message p" "held p = 1"
    and at_q: "in_crit q" "unposted_empty q" "held q = 1"
    and loc: "valid (slots v ! oldest v) \<Longrightarrow>
      local_ok (slots v) ((oldest v + 1) mod c) (vacant v) q"
  shows "qinv x n (v\<lparr>oldest := (oldest v + 1) mod c, taken_out := taken_out v @ [slots v ! oldest v]\<rparr>)
           (ps[i := q])"
proof -
  let ?w = "v\<lparr>oldest := (oldest v + 1) mod c, taken_out := taken_out v @ [slots v ! oldest v]\<rparr>"
  have sb: "stored_by p = 1" "stored_by q = 0" using at_p at_q by (simp_all add: held_def stored_by_def)
  have st: "stored v ps = Suc (stored v (ps[i := q]))"
    using stored_move [OF i p, of v q v] sb by simp
  have h: "oldest v < c" and t: "vacant v = (oldest v + stored v ps) mod c"
    and r: "put_in v = taken_out v @ ring_contents c (slots v) (oldest v) (stored v ps)"
    using inv by (simp_all add: qinv_def)
  have put: "put_in v = (taken_out v @ [slots v ! oldest v]) @
      ring_contents c (slots v) ((oldest v + 1) mod c) (stored v (ps[i := q]))"
    using h by (simp add: r st drop_oldest)
  then have "slots v ! oldest v \<in> set (put_in v)" by simp
  then have "local_ok (slots v) ((oldest v + 1) mod c) (vacant v) q"
    using inv by (intro loc) (simp add: qinv_def)
  moreover have "\<forall>m \<in> set (put_in v). valid m" using inv by (simp add: qinv_def)
  moreover have "vacant v = ((oldest v + 1) mod c + stored v (ps[i := q])) mod c"
    using t by (simp add: st mod_simps)
  ultimately show ?thesis
    by (intro move [OF inv i p])
      (use inv at_p(1,3) at_q(1,3) put h in \<open>simp_all add: qinv_def slot_in_range del: set_append\<close>)
qed

text \<open>A new thread starts at a point where it holds nothing.\<close>

lemma spawn:
  assumes inv: "qinv x n v ps" and q: "\<not> in_crit q" "held q = 0"
    and loc: "local_ok (slots v) (oldest v) (vacant v) q"
  shows "qinv x n v (ps @ [q])"
proof -
  have z: "\<not> owns_slot q" "\<not> unposted_fill q" "\<not> owns_message q" "\<not> unposted_empty q"
    using q by (simp_all add: held_def)
  then have "stored v (ps @ [q]) = stored v ps" "permits v (ps @ [q]) = permits v ps"
    by (simp_all add: stored_def permits_def)
  then show ?thesis using inv q loc by (auto simp: qinv_def nth_append)
qed

text \<open>The mutex passes between the threads and somebody else, and permits are added or removed.\<close>

lemma outside:
  assumes "qinv x n v ps"
    and "slots w = slots v" "oldest w = oldest v" "vacant w = vacant v"
      "put_in w = put_in v" "taken_out w = taken_out v" "fill_count w = fill_count v"
    and "lock_free w + y = lock_free v + x" and "empty_count w + n = empty_count v + k" and "k \<le> c"
  shows "qinv y k w ps"
  using assms by (auto simp: qinv_def stored_def permits_def)

lemma as_fifo:
  assumes inv: "qinv x n v ps"
  shows "fifo_inv n \<lparr>pending = ring_contents c (slots v) (oldest v) (stored v ps),
               accepted = put_in v, delivered = taken_out v\<rparr>"
  using inv stored_bound [OF inv] by (simp add: fifo_inv_def qinv_def)

end

end
