(* ===== verification/Shm_Queue.thy ===== *)
theory Shm_Queue
  imports Message Fifo_Spec
begin

text \<open>
  Lab4/parent.c: producers and consumers are forked processes that share a ring of ten messages
  in System V shared memory, guarded by three semaphores. The model is at the level of the
  statements between two system calls: every process has a program counter naming the line it
  is at (with the local variables live there), its own copy of \<open>needTerminate\<close> and its
  own \<open>rand()\<close> stream. A system call that would block is a step that is not possible.
\<close>

section \<open>Semaphores\<close>

definition QUEUE_SIZE :: nat where "QUEUE_SIZE = 10"

definition SEM_MUTEX :: nat where "SEM_MUTEX = 0"
definition SEM_FILL_COUNT :: nat where "SEM_FILL_COUNT = 1"
definition SEM_EMPTY_COUNT :: nat where "SEM_EMPTY_COUNT = 2"
definition SEM_COUNT :: nat where "SEM_COUNT = 3"

lemmas sem_consts = SEM_MUTEX_def SEM_FILL_COUNT_def SEM_EMPTY_COUNT_def SEM_COUNT_def

text \<open>
  \<open>semop\<close> with one operation: a negative operation blocks (\<open>None\<close>) while the value is
  too small, any other adds to the value.
\<close>

definition sem_op :: "nat list \<Rightarrow> nat \<Rightarrow> int \<Rightarrow> nat list option" where
  "sem_op sem_id sem_num op =
     (if int (sem_id ! sem_num) + op < 0 then None
      else Some (sem_id[sem_num := nat (int (sem_id ! sem_num) + op)]))"

definition sem_setval :: "nat list \<Rightarrow> nat \<Rightarrow> nat \<Rightarrow> nat list" where
  "sem_setval sem_id sem_num val = sem_id[sem_num := val]"

section \<open>State\<close>

record shm_data =
  buffer :: "message list"
  head :: nat
  tail :: nat
  producedCount :: "64 word"
  consumedCount :: "64 word"
  producers :: int
  consumers :: int

text \<open>
  Program points of \<open>producer_loop\<close> and \<open>consumer_loop\<close>, one per system call or group of
  statements between two of them. The flag of the exit points is not in the code: it is set when
  the process left through the \<open>break\<close> after a failed wait for the mutex, and so never
  gave back the slot (or the message) it had already been granted.
\<close>

datatype pc =
    P_start | P_loop | P_wait_empty | P_wait_mutex | P_fill | P_set_tail nat | P_count nat
  | P_post_mutex nat "64 word" | P_post_fill nat "64 word" | P_print nat "64 word" | P_sleep
  | P_exited bool
  | C_start | C_loop | C_wait_fill | C_wait_mutex | C_copy | C_set_head nat message
  | C_count message | C_post_mutex message "64 word" | C_post_empty message "64 word"
  | C_print message "64 word" | C_sleep | C_exited bool

record process =
  pc :: pc
  needTerminate :: bool
  sig_pending :: bool
  rand_pos :: nat

datatype main_pc = M_getchar | M_wait_producer nat | M_wait_consumer nat
  | M_join "nat list" | M_done | M_fault

datatype event =
    Produced nat "64 word" "8 word" "8 word"
  | Consumed nat "64 word" "8 word" "8 word" bool
  | Spawned_producer nat | Spawned_consumer nat | Fork_failed
  | Killed_producer nat | Killed_consumer nat | No_producers | No_consumers
  | Status int int "64 word" "64 word" int int
  | Unknown_command char | Main_exiting

text \<open>
  The whole system. \<open>procs\<close> holds the forked processes, their index is their PID;
  \<open>producers_pid\<close> and \<open>consumers_pid\<close> are the arrays of \<open>main\<close> up to \<open>pCount\<close> and \<open>cCount\<close>.
  \<open>ins\<close> and \<open>outs\<close> are history variables: the messages made visible in the ring by
  advancing \<open>tail\<close>, and those taken out of it by advancing \<open>head\<close>, in that order.
\<close>

record sys =
  shm :: shm_data
  sems :: "nat list"
  procs :: "process list"
  main_at :: main_pc
  producers_pid :: "nat list"
  consumers_pid :: "nat list"
  out :: "event list"
  ins :: "message list"
  outs :: "message list"

definition set_pc :: "nat \<Rightarrow> pc \<Rightarrow> sys \<Rightarrow> sys" where
  "set_pc i p s = s\<lparr>procs := (procs s)[i := (procs s ! i)\<lparr>pc := p\<rparr>]\<rparr>"

definition emit :: "event \<Rightarrow> sys \<Rightarrow> sys" where
  "emit e s = s\<lparr>out := out s @ [e]\<rparr>"

text \<open>A semaphore operation of process \<open>i\<close> that goes on at \<open>p\<close> when it succeeds.\<close>

definition do_sem :: "nat \<Rightarrow> int \<Rightarrow> nat \<Rightarrow> pc \<Rightarrow> sys \<Rightarrow> sys option" where
  "do_sem n op i p s =
     (case sem_op (sems s) n op of None \<Rightarrow> None | Some v \<Rightarrow> Some (set_pc i p (s\<lparr>sems := v\<rparr>)))"

section \<open>The two loops\<close>

definition sig_handler :: "process \<Rightarrow> process" where
  "sig_handler p = p\<lparr>needTerminate := True\<rparr>"

text \<open>
  Lines 110 to 152. \<open>fill_random_message\<close> makes 258 calls of \<open>rand()\<close>. The message
  printed at the end is read from the slot again, after the mutex has been released.
\<close>

definition producer_loop :: "(nat \<Rightarrow> nat \<Rightarrow> int) \<Rightarrow> nat \<Rightarrow> sys \<Rightarrow> sys option" where
  "producer_loop rnd i s =
     (case pc (procs s ! i) of
        P_start \<Rightarrow> Some (set_pc i P_loop s)
      | P_loop \<Rightarrow> Some (set_pc i (if needTerminate (procs s ! i) then P_exited False else P_wait_empty) s)
      | P_wait_empty \<Rightarrow> do_sem SEM_EMPTY_COUNT (-1) i P_wait_mutex s
      | P_wait_mutex \<Rightarrow> do_sem SEM_MUTEX (-1) i P_fill s
      | P_fill \<Rightarrow>
          (let t = tail (shm s);
               k = rand_pos (procs s ! i);
               m = fill_random_message (rnd i) k (buffer (shm s) ! t);
               s = s\<lparr>shm := (shm s)\<lparr>buffer := (buffer (shm s))[t := m]\<rparr>\<rparr>;
               s = s\<lparr>procs := (procs s)[i := (procs s ! i)\<lparr>rand_pos := k + 258\<rparr>]\<rparr>
           in Some (set_pc i (P_set_tail t) s))
      | P_set_tail t \<Rightarrow>
          Some (set_pc i (P_count t)
            (s\<lparr>shm := (shm s)\<lparr>tail := (t + 1) mod QUEUE_SIZE\<rparr>,
               ins := ins s @ [buffer (shm s) ! t]\<rparr>))
      | P_count t \<Rightarrow>
          (let n = producedCount (shm s) + 1
           in Some (set_pc i (P_post_mutex t n) (s\<lparr>shm := (shm s)\<lparr>producedCount := n\<rparr>\<rparr>)))
      | P_post_mutex t n \<Rightarrow> do_sem SEM_MUTEX 1 i (P_post_fill t n) s
      | P_post_fill t n \<Rightarrow> do_sem SEM_FILL_COUNT 1 i (P_print t n) s
      | P_print t n \<Rightarrow>
          Some (set_pc i P_sleep (emit (Produced i n (msg_type (buffer (shm s) ! t))
                                                     (msg_size (buffer (shm s) ! t))) s))
      | P_sleep \<Rightarrow> Some (set_pc i P_loop s)
      | _ \<Rightarrow> None)"

text \<open>Lines 154 to 192.\<close>

definition consumer_loop :: "nat \<Rightarrow> sys \<Rightarrow> sys option" where
  "consumer_loop i s =
     (case pc (procs s ! i) of
        C_start \<Rightarrow> Some (set_pc i C_loop s)
      | C_loop \<Rightarrow> Some (set_pc i (if needTerminate (procs s ! i) then C_exited False else C_wait_fill) s)
      | C_wait_fill \<Rightarrow> do_sem SEM_FILL_COUNT (-1) i C_wait_mutex s
      | C_wait_mutex \<Rightarrow> do_sem SEM_MUTEX (-1) i C_copy s
      | C_copy \<Rightarrow>
          (let h = head (shm s) in Some (set_pc i (C_set_head h (buffer (shm s) ! h)) s))
      | C_set_head h msg \<Rightarrow>
          Some (set_pc i (C_count msg)
            (s\<lparr>shm := (shm s)\<lparr>head := (h + 1) mod QUEUE_SIZE\<rparr>, outs := outs s @ [msg]\<rparr>))
      | C_count msg \<Rightarrow>
          (let n = consumedCount (shm s) + 1
           in Some (set_pc i (C_post_mutex msg n) (s\<lparr>shm := (shm s)\<lparr>consumedCount := n\<rparr>\<rparr>)))
      | C_post_mutex msg n \<Rightarrow> do_sem SEM_MUTEX 1 i (C_post_empty msg n) s
      | C_post_empty msg n \<Rightarrow> do_sem SEM_EMPTY_COUNT 1 i (C_print msg n) s
      | C_print msg n \<Rightarrow>
          (let ok = verify_hash msg
           in Some (set_pc i C_sleep
                (emit (Consumed i n (msg_type msg) (msg_size msg) (ok \<noteq> 0)) s)))
      | C_sleep \<Rightarrow> Some (set_pc i C_loop s)
      | _ \<Rightarrow> None)"

section \<open>Signals\<close>

fun exited :: "pc \<Rightarrow> bool" where
  "exited (P_exited b) = True"
| "exited (C_exited b) = True"
| "exited p = False"

text \<open>
  \<open>kill(pid, SIGTERM)\<close> leaves the signal pending for the process; one that has already left is a
  zombie and takes no signal.
\<close>

definition send_sigterm :: "nat \<Rightarrow> sys \<Rightarrow> sys" where
  "send_sigterm i s =
     (if exited (pc (procs s ! i)) then s
      else s\<lparr>procs := (procs s)[i := (procs s ! i)\<lparr>sig_pending := True\<rparr>]\<rparr>)"

text \<open>
  Delivery while the process is not blocked: the handler sets the flag, and the process goes on
  where it was. Before the two \<open>signal\<close> calls of the child the default action ends it.
\<close>

definition deliver :: "nat \<Rightarrow> sys \<Rightarrow> sys option" where
  "deliver i s =
     (let p = procs s ! i in
      if \<not> sig_pending p \<or> exited (pc p) then None
      else if pc p = P_start then
        Some (s\<lparr>procs := (procs s)[i := p\<lparr>pc := P_exited False, sig_pending := False\<rparr>]\<rparr>)
      else if pc p = C_start then
        Some (s\<lparr>procs := (procs s)[i := p\<lparr>pc := C_exited False, sig_pending := False\<rparr>]\<rparr>)
      else Some (s\<lparr>procs := (procs s)[i := (sig_handler p)\<lparr>sig_pending := False\<rparr>]\<rparr>))"

text \<open>
  Delivery while the process is blocked in \<open>semop\<close>: the call returns -1 with \<open>EINTR\<close>. At the first
  wait of either loop the code then continues with the loop (lines 116 and 158); at the wait for
  the mutex it leaves the loop and the process (lines 121 and 163).
\<close>

definition eintr :: "sys \<Rightarrow> pc \<Rightarrow> pc option" where
  "eintr s p =
     (case p of
        P_wait_empty \<Rightarrow> if sem_op (sems s) SEM_EMPTY_COUNT (-1) = None then Some P_loop else None
      | P_wait_mutex \<Rightarrow> if sem_op (sems s) SEM_MUTEX (-1) = None then Some (P_exited True) else None
      | C_wait_fill \<Rightarrow> if sem_op (sems s) SEM_FILL_COUNT (-1) = None then Some C_loop else None
      | C_wait_mutex \<Rightarrow> if sem_op (sems s) SEM_MUTEX (-1) = None then Some (C_exited True) else None
      | _ \<Rightarrow> None)"

definition interrupt :: "nat \<Rightarrow> sys \<Rightarrow> sys option" where
  "interrupt i s =
     (let p = procs s ! i in
      if \<not> sig_pending p then None
      else (case eintr s (pc p) of None \<Rightarrow> None
            | Some q \<Rightarrow>
                Some (s\<lparr>procs := (procs s)[i := (sig_handler p)\<lparr>sig_pending := False, pc := q\<rparr>]\<rparr>)))"

section \<open>main\<close>

definition new_process :: "pc \<Rightarrow> process" where
  "new_process p = \<lparr>pc = p, needTerminate = False, sig_pending = False, rand_pos = 0\<rparr>"

text \<open>
  Case 'p' and case 'c': the parent's side of \<open>fork\<close>. The arrays hold 100 entries and \<open>pCount\<close>
  is not checked, so the 101st store is out of bounds: the model stops at \<open>M_fault\<close> there.
\<close>

definition MAX_PIDS :: nat where "MAX_PIDS = 100"

definition spawn_producer :: "bool \<Rightarrow> sys \<Rightarrow> sys" where
  "spawn_producer fork_ok s =
     (if \<not> fork_ok then emit Fork_failed s
      else let pid = length (procs s); s = s\<lparr>procs := procs s @ [new_process P_start]\<rparr> in
        if MAX_PIDS \<le> length (producers_pid s) then s\<lparr>main_at := M_fault\<rparr>
        else emit (Spawned_producer pid)
          (s\<lparr>producers_pid := producers_pid s @ [pid],
             shm := (shm s)\<lparr>producers := producers (shm s) + 1\<rparr>\<rparr>))"

definition spawn_consumer :: "bool \<Rightarrow> sys \<Rightarrow> sys" where
  "spawn_consumer fork_ok s =
     (if \<not> fork_ok then emit Fork_failed s
      else let pid = length (procs s); s = s\<lparr>procs := procs s @ [new_process C_start]\<rparr> in
        if MAX_PIDS \<le> length (consumers_pid s) then s\<lparr>main_at := M_fault\<rparr>
        else emit (Spawned_consumer pid)
          (s\<lparr>consumers_pid := consumers_pid s @ [pid],
             shm := (shm s)\<lparr>consumers := consumers (shm s) + 1\<rparr>\<rparr>))"

definition queue_used :: "shm_data \<Rightarrow> int" where
  "queue_used d =
     (let head = int (head d); tail = int (tail d)
      in if tail \<ge> head then tail - head else int QUEUE_SIZE - head + tail)"

text \<open>
  The command \<open>s\<close> reads the shared fields one after the other. Here it reads them in one step: what it prints
  is used nowhere else, and no property speaks of it.
\<close>

definition show_status :: "sys \<Rightarrow> sys" where
  "show_status s =
     (let d = shm s; used = queue_used d; free_slots = int QUEUE_SIZE - used
      in emit (Status (producers d) (consumers d) (producedCount d) (consumedCount d)
                      used free_slots) s)"

text \<open>Lines 248 to 343: one character read from the terminal, \<open>None\<close> for \<open>EOF\<close>.\<close>

definition command :: "char option \<Rightarrow> bool \<Rightarrow> sys \<Rightarrow> sys" where
  "command ch fork_ok s =
     (let quit = (\<lambda>s. (fold send_sigterm (producers_pid s @ consumers_pid s) s)
                          \<lparr>main_at := M_join (producers_pid s @ consumers_pid s)\<rparr>) in
      case ch of
        None \<Rightarrow> quit s
      | Some c \<Rightarrow>
          if c = CHR 0x0A then s
          else if c = CHR ''p'' then spawn_producer fork_ok s
          else if c = CHR ''c'' then spawn_consumer fork_ok s
          else if c = CHR ''P'' then
            (if producers_pid s \<noteq> [] then
               let killPid = last (producers_pid s)
               in (send_sigterm killPid s)\<lparr>main_at := M_wait_producer killPid\<rparr>
             else emit No_producers s)
          else if c = CHR ''C'' then
            (if consumers_pid s \<noteq> [] then
               let killPid = last (consumers_pid s)
               in (send_sigterm killPid s)\<lparr>main_at := M_wait_consumer killPid\<rparr>
             else emit No_consumers s)
          else if c = CHR ''s'' then show_status s
          else if c = CHR ''q'' then quit s
          else emit (Unknown_command c) s)"

text \<open>
  The rest of \<open>main\<close>: what follows each \<open>waitpid\<close>, which returns once the process has left,
  and the removal of the shared objects (lines 360 to 371) when every child has been waited for.
\<close>

definition main_wait :: "sys \<Rightarrow> sys option" where
  "main_wait s =
     (case main_at s of
        M_wait_producer killPid \<Rightarrow>
          if exited (pc (procs s ! killPid)) then
            Some (emit (Killed_producer killPid)
              (s\<lparr>producers_pid := butlast (producers_pid s),
                 shm := (shm s)\<lparr>producers := producers (shm s) - 1\<rparr>, main_at := M_getchar\<rparr>))
          else None
      | M_wait_consumer killPid \<Rightarrow>
          if exited (pc (procs s ! killPid)) then
            Some (emit (Killed_consumer killPid)
              (s\<lparr>consumers_pid := butlast (consumers_pid s),
                 shm := (shm s)\<lparr>consumers := consumers (shm s) - 1\<rparr>, main_at := M_getchar\<rparr>))
          else None
      | M_join [] \<Rightarrow> Some (emit Main_exiting (s\<lparr>main_at := M_done\<rparr>))
      | M_join (p # ps) \<Rightarrow>
          if exited (pc (procs s ! p)) then Some (s\<lparr>main_at := M_join ps\<rparr>) else None
      | _ \<Rightarrow> None)"

text \<open>The setup at the start of \<open>main\<close> (lines 196 to 237), with the system calls' results.\<close>

datatype setup_error = Semget | Semctl_mutex | Semctl_fillcount | Semctl_emptycount | Shmget | Shmat

text \<open>The ring's memory is whatever the segment held before: one message per slot.\<close>

definition initial_sys :: "(nat \<Rightarrow> message) \<Rightarrow> sys" where
  "initial_sys mem =
     (let sem_id = replicate SEM_COUNT 0;
          sem_id = sem_setval sem_id SEM_MUTEX 1;
          sem_id = sem_setval sem_id SEM_FILL_COUNT 0;
          sem_id = sem_setval sem_id SEM_EMPTY_COUNT QUEUE_SIZE
      in \<lparr>shm = \<lparr>buffer = map mem [0..<QUEUE_SIZE], head = 0, tail = 0, producedCount = 0, consumedCount = 0,
                  producers = 0, consumers = 0\<rparr>,
          sems = sem_id, procs = [], main_at = M_getchar, producers_pid = [], consumers_pid = [],
          out = [], ins = [], outs = []\<rparr>)"

definition main_setup :: "int \<Rightarrow> int \<Rightarrow> int \<Rightarrow> int \<Rightarrow> int \<Rightarrow> (nat \<Rightarrow> message) option \<Rightarrow> setup_error + sys" where
  "main_setup semid r_mutex r_fill r_empty shmid shm_ptr =
     (if semid < 0 then Inl Semget
      else if r_mutex < 0 then Inl Semctl_mutex
      else if r_fill < 0 then Inl Semctl_fillcount
      else if r_empty < 0 then Inl Semctl_emptycount
      else if shmid < 0 then Inl Shmget
      else case shm_ptr of None \<Rightarrow> Inl Shmat | Some mem \<Rightarrow> Inr (initial_sys mem))"

section \<open>The system\<close>

datatype action = Run nat | Deliver nat | Interrupt nat | Getchar "char option" bool | Waitpid

fun is_producer :: "pc \<Rightarrow> bool" where
  "is_producer P_start = True" | "is_producer P_loop = True" | "is_producer P_wait_empty = True"
| "is_producer P_wait_mutex = True" | "is_producer P_fill = True" | "is_producer (P_set_tail t) = True"
| "is_producer (P_count t) = True" | "is_producer (P_post_mutex t n) = True"
| "is_producer (P_post_fill t n) = True" | "is_producer (P_print t n) = True"
| "is_producer P_sleep = True" | "is_producer (P_exited b) = True" | "is_producer p = False"

definition step :: "(nat \<Rightarrow> nat \<Rightarrow> int) \<Rightarrow> sys \<Rightarrow> action \<Rightarrow> sys option" where
  "step rnd s a =
     (case a of
        Run i \<Rightarrow> if i < length (procs s)
          then (if is_producer (pc (procs s ! i)) then producer_loop rnd i s else consumer_loop i s)
          else None
      | Deliver i \<Rightarrow> if i < length (procs s) then deliver i s else None
      | Interrupt i \<Rightarrow> if i < length (procs s) then interrupt i s else None
      | Getchar ch fork_ok \<Rightarrow> if main_at s = M_getchar then Some (command ch fork_ok s) else None
      | Waitpid \<Rightarrow> main_wait s)"

end
