(* ===== verification/Shm_Queue_Correct.thy ===== *)
theory Shm_Queue_Correct
  imports Shm_Queue Token_Queue
begin

text \<open>
  Correctness of the queue of Lab4/parent.c: the invariant of the whole system (mutual exclusion,
  conservation of the semaphores' tokens, the ring's contents, the data each process carries), its
  preservation by every step, the refinement of the bounded queue, and what the command loop and
  the signals do to the tokens.
\<close>

section \<open>What the program points hold\<close>

text \<open>Between the wait for the mutex and its release.\<close>

fun in_crit :: "pc \<Rightarrow> bool" where
  "in_crit P_fill = True" | "in_crit (P_set_tail t) = True" | "in_crit (P_count t) = True"
| "in_crit (P_post_mutex t n) = True"
| "in_crit C_copy = True" | "in_crit (C_set_head h m) = True" | "in_crit (C_count m) = True"
| "in_crit (C_post_mutex m n) = True" | "in_crit p = False"

text \<open>Producers that own an empty slot not yet made visible, and after that until it is posted.\<close>

fun owns_slot :: "pc \<Rightarrow> bool" where
  "owns_slot P_wait_mutex = True" | "owns_slot P_fill = True" | "owns_slot (P_set_tail t) = True"
| "owns_slot (P_exited b) = b" | "owns_slot p = False"

fun unposted_fill :: "pc \<Rightarrow> bool" where
  "unposted_fill (P_count t) = True" | "unposted_fill (P_post_mutex t n) = True"
| "unposted_fill (P_post_fill t n) = True" | "unposted_fill p = False"

text \<open>Consumers granted a message still in the ring, and after taking it until the slot is posted.\<close>

fun owns_message :: "pc \<Rightarrow> bool" where
  "owns_message C_wait_mutex = True" | "owns_message C_copy = True"
| "owns_message (C_set_head h m) = True" | "owns_message (C_exited b) = b"
| "owns_message p = False"

fun unposted_empty :: "pc \<Rightarrow> bool" where
  "unposted_empty (C_count m) = True" | "unposted_empty (C_post_mutex m n) = True"
| "unposted_empty (C_post_empty m n) = True" | "unposted_empty p = False"

text \<open>The local variables of a process agree with the shared memory and carry valid messages.\<close>

fun local_ok :: "message list \<Rightarrow> nat \<Rightarrow> nat \<Rightarrow> pc \<Rightarrow> bool" where
  "local_ok b h t (P_set_tail x) = (x = t \<and> verify_hash (b ! t) = 1)"
| "local_ok b h t (C_set_head x m) = (x = h \<and> m = b ! h)"
| "local_ok b h t (C_count m) = (verify_hash m = 1)"
| "local_ok b h t (C_post_mutex m n) = (verify_hash m = 1)"
| "local_ok b h t (C_post_empty m n) = (verify_hash m = 1)"
| "local_ok b h t (C_print m n) = (verify_hash m = 1)"
| "local_ok b h t p = True"

text \<open>The system follows the protocol: what it shares, seen as the protocol's state.\<close>

interpretation tq4: token_queue 10 in_crit owns_slot unposted_fill owns_message unposted_empty
  "\<lambda>m. verify_hash m = 1" local_ok
proof unfold_locales
  show "\<And>p b h t b' h' t'. \<not> in_crit p \<Longrightarrow> local_ok b h t p \<Longrightarrow> local_ok b' h' t' p"
    by (case_tac p) auto
qed simp

section \<open>Counting\<close>

definition pcs :: "sys \<Rightarrow> pc list" where
  "pcs s = map pc (procs s)"

definition view :: "sys \<Rightarrow> message queue_view" where
  "view s = \<lparr>lock_free = sems s ! 0, slots = buffer (shm s), oldest = head (shm s),
     vacant = tail (shm s), put_in = ins s, taken_out = outs s,
     fill_count = sems s ! 1, empty_count = sems s ! 2\<rparr>"

lemma set_pc_fields [simp]:
  "shm (set_pc i p s) = shm s" "sems (set_pc i p s) = sems s" "main_at (set_pc i p s) = main_at s"
  "producers_pid (set_pc i p s) = producers_pid s" "consumers_pid (set_pc i p s) = consumers_pid s"
  "out (set_pc i p s) = out s" "ins (set_pc i p s) = ins s" "outs (set_pc i p s) = outs s"
  "length (procs (set_pc i p s)) = length (procs s)"
  by (simp_all add: set_pc_def)

lemma emit_fields [simp]:
  "shm (emit e s) = shm s" "sems (emit e s) = sems s" "main_at (emit e s) = main_at s"
  "producers_pid (emit e s) = producers_pid s" "consumers_pid (emit e s) = consumers_pid s"
  "procs (emit e s) = procs s" "ins (emit e s) = ins s" "outs (emit e s) = outs s"
  "out (emit e s) = out s @ [e]"
  by (simp_all add: emit_def)

lemma pcs_set_pc [simp]: "pcs (set_pc i p s) = (pcs s)[i := p]"
  by (simp add: pcs_def set_pc_def map_update)

lemma pcs_procs_cong: "procs s = procs t \<Longrightarrow> pcs s = pcs t"
  by (simp add: pcs_def)

lemma pcs_emit [simp]: "pcs (emit e s) = pcs s"
  by (simp add: pcs_def)

lemma length_pcs [simp]: "length (pcs s) = length (procs s)"
  by (simp add: pcs_def)

lemma pcs_nth: "i < length (procs s) \<Longrightarrow> pcs s ! i = pc (procs s ! i)"
  by (simp add: pcs_def)

section \<open>The invariant\<close>

definition queue_inv :: "sys \<Rightarrow> bool" where
  "queue_inv s \<longleftrightarrow> length (sems s) = 3 \<and> tq4.qinv 0 10 (view s) (pcs s)"

definition stored :: "sys \<Rightarrow> nat" where
  "stored s = sems s ! 1 + cnt unposted_fill (pcs s) + cnt owns_message (pcs s)"

lemma stored_eq: "tq4.stored (view s) (pcs s) = stored s"
  by (simp add: tq4.stored_def stored_def view_def)

lemma queue_invD:
  assumes "queue_inv s"
  shows "length (sems s) = 3" "length (buffer (shm s)) = 10" "head (shm s) < 10"
    "sems s ! 0 + cnt in_crit (pcs s) = 1"
    "sems s ! 1 + sems s ! 2 + cnt owns_slot (pcs s) + cnt unposted_fill (pcs s)
       + cnt owns_message (pcs s) + cnt unposted_empty (pcs s) = 10"
    "tail (shm s) = (head (shm s) + stored s) mod 10"
    "ins s = outs s @ ring_contents 10 (buffer (shm s)) (head (shm s)) (stored s)"
    "\<forall>m \<in> set (ins s). verify_hash m = 1"
    "i < length (procs s) \<Longrightarrow> local_ok (buffer (shm s)) (head (shm s)) (tail (shm s)) (pc (procs s ! i))"
    "stored s + cnt owns_slot (pcs s) \<le> 10"
  using assms tq4.stored_bound [of 0 10 "view s" "pcs s"]
  unfolding queue_inv_def tq4.qinv_def stored_eq
  by (auto simp: tq4.permits_def view_def pcs_nth)

lemma queue_inv_cong:
  "view s = view t \<Longrightarrow> length (sems s) = length (sems t) \<Longrightarrow> pcs s = pcs t \<Longrightarrow> queue_inv s \<Longrightarrow> queue_inv t"
  by (simp add: queue_inv_def)

text \<open>One process moves and the ring and the histories stay as they are.\<close>

lemma queue_inv_quiet:
  assumes inv: "queue_inv s" and i: "i < length (procs s)" and p: "pc (procs s ! i) = p"
    and t: "pcs t = (pcs s)[i := q]"
    and same: "head (shm t) = head (shm s)" "tail (shm t) = tail (shm s)"
      "buffer (shm t) = buffer (shm s)" "ins t = ins s" "outs t = outs s"
    and len: "length (sems t) = length (sems s)"
    and lock: "sems t ! 0 + of_bool (in_crit q) = sems s ! 0 + of_bool (in_crit p)"
    and tokens: "sems t ! 1 + sems t ! 2 + tq4.held q = sems s ! 1 + sems s ! 2 + tq4.held p"
    and fill: "sems t ! 1 + tq4.stored_by q = sems s ! 1 + tq4.stored_by p"
    and loc: "local_ok (buffer (shm s)) (head (shm s)) (tail (shm s)) p \<Longrightarrow>
      local_ok (buffer (shm s)) (head (shm s)) (tail (shm s)) q"
  shows "queue_inv t"
proof -
  have "tq4.qinv 0 10 (view t) ((pcs s)[i := q])"
    by (rule tq4.quiet [of 0 10 "view s" "pcs s" i p])
      (use inv i p same lock tokens fill loc in \<open>simp_all add: queue_inv_def view_def pcs_nth\<close>)
  then show ?thesis using inv len t by (simp add: queue_inv_def)
qed

lemma queue_inv_set_pc:
  assumes inv: "queue_inv s" and i: "i < length (procs s)" and p: "pc (procs s ! i) = p"
    and u: "procs u = procs s"
    and same: "head (shm u) = head (shm s)" "tail (shm u) = tail (shm s)"
      "buffer (shm u) = buffer (shm s)" "ins u = ins s" "outs u = outs s"
    and len: "length (sems u) = length (sems s)"
    and lock: "sems u ! 0 + of_bool (in_crit q) = sems s ! 0 + of_bool (in_crit p)"
    and tokens: "sems u ! 1 + sems u ! 2 + tq4.held q = sems s ! 1 + sems s ! 2 + tq4.held p"
    and fill: "sems u ! 1 + tq4.stored_by q = sems s ! 1 + tq4.stored_by p"
    and loc: "local_ok (buffer (shm s)) (head (shm s)) (tail (shm s)) p \<Longrightarrow>
      local_ok (buffer (shm s)) (head (shm s)) (tail (shm s)) q"
  shows "queue_inv (set_pc i q u)"
  by (rule queue_inv_quiet [OF inv i p, where q = q])
    (use same len lock tokens fill loc pcs_procs_cong [OF u] in simp_all)

lemmas moves = tq4.held_def tq4.stored_by_def sem_consts

lemma sem_op_eq [simp]:
  "sem_op v n (-1) = (if v ! n = 0 then None else Some (v[n := v ! n - 1]))"
  "sem_op v n 1 = Some (v[n := v ! n + 1])"
  by (auto simp: sem_op_def nat_add_distrib nat_diff_distrib')

text \<open>The three steps that touch the ring.\<close>

lemma producer_fill_inv:
  assumes inv: "queue_inv s" and i: "i < length (procs s)" and p: "pc (procs s ! i) = P_fill"
    and st: "producer_loop rnd i s = Some t"
  shows "queue_inv t"
proof -
  let ?m = "fill_random_message (rnd i) (rand_pos (procs s ! i)) (buffer (shm s) ! tail (shm s))"
  have t: "pcs t = (pcs s)[i := P_set_tail (tail (shm s))]"
    "view t = (view s)\<lparr>slots := (slots (view s))[vacant (view s) := ?m]\<rparr>" "sems t = sems s"
    using st p by (auto simp: producer_loop_def Let_def pcs_def set_pc_def map_update view_def)
  have lt: "tail (shm s) < length (buffer (shm s))" using queue_invD(2,6) [OF inv] by simp
  have "tq4.qinv 0 10 (view t) (pcs t)"
    unfolding t by (rule tq4.write_slot [where p = P_fill])
      (use inv i p lt in \<open>simp_all add: queue_inv_def pcs_nth moves view_def fill_random_message_verifies\<close>)
  with inv t show ?thesis by (simp add: queue_inv_def)
qed

lemma producer_publish_inv:
  assumes inv: "queue_inv s" and i: "i < length (procs s)" and p: "pc (procs s ! i) = P_set_tail x"
    and st: "producer_loop rnd i s = Some t"
  shows "queue_inv t"
proof -
  have x: "x = tail (shm s)" and v: "verify_hash (buffer (shm s) ! tail (shm s)) = 1"
    using queue_invD(9) [OF inv i] by (auto simp: p)
  have t: "pcs t = (pcs s)[i := P_count x]"
    "view t = (view s)\<lparr>vacant := (vacant (view s) + 1) mod 10,
       put_in := put_in (view s) @ [slots (view s) ! vacant (view s)]\<rparr>" "sems t = sems s"
    using st p by (auto simp: producer_loop_def Let_def pcs_def set_pc_def map_update QUEUE_SIZE_def
        view_def x)
  have "tq4.qinv 0 10 (view t) (pcs t)"
    unfolding t by (rule tq4.publish [where p = "P_set_tail x"])
      (use inv i p v in \<open>simp_all add: queue_inv_def pcs_nth moves view_def\<close>)
  with inv t show ?thesis by (simp add: queue_inv_def)
qed

lemma producer_loop_inv:
  assumes inv: "queue_inv s" and i: "i < length (procs s)"
    and st: "producer_loop rnd i s = Some t"
  shows "queue_inv t"
proof -
  note len = queue_invD(1) [OF inv]
  show ?thesis
  proof (cases "pc (procs s ! i)")
    case P_fill
    then show ?thesis by (rule producer_fill_inv [OF inv i _ st])
  next
    case (P_set_tail x)
    then show ?thesis by (rule producer_publish_inv [OF inv i _ st])
  qed (use st len in \<open>auto simp: producer_loop_def do_sem_def moves Let_def split: if_splits
        intro!: queue_inv_set_pc [OF inv i]\<close>)
qed

lemma consumer_take_inv:
  assumes inv: "queue_inv s" and i: "i < length (procs s)" and p: "pc (procs s ! i) = C_set_head h m"
    and st: "consumer_loop i s = Some t"
  shows "queue_inv t"
proof -
  have h: "h = head (shm s)" and m: "m = buffer (shm s) ! head (shm s)"
    using queue_invD(9) [OF inv i] by (auto simp: p)
  have t: "pcs t = (pcs s)[i := C_count m]"
    "view t = (view s)\<lparr>oldest := (oldest (view s) + 1) mod 10,
       taken_out := taken_out (view s) @ [slots (view s) ! oldest (view s)]\<rparr>" "sems t = sems s"
    using st p by (auto simp: consumer_loop_def Let_def pcs_def set_pc_def map_update QUEUE_SIZE_def
        view_def h m)
  have "tq4.qinv 0 10 (view t) (pcs t)"
    unfolding t by (rule tq4.take_oldest [where p = "C_set_head h m"])
      (use inv i p in \<open>simp_all add: queue_inv_def pcs_nth moves view_def m\<close>)
  with inv t show ?thesis by (simp add: queue_inv_def)
qed

lemma consumer_loop_inv:
  assumes inv: "queue_inv s" and i: "i < length (procs s)"
    and st: "consumer_loop i s = Some t"
  shows "queue_inv t"
proof -
  note len = queue_invD(1) [OF inv]
  show ?thesis
  proof (cases "pc (procs s ! i)")
    case (C_set_head h m)
    then show ?thesis by (rule consumer_take_inv [OF inv i _ st])
  qed (use st len in \<open>auto simp: consumer_loop_def do_sem_def moves Let_def split: if_splits
        intro!: queue_inv_set_pc [OF inv i]\<close>)
qed

lemma deliver_inv:
  assumes inv: "queue_inv s" and i: "i < length (procs s)" and st: "deliver i s = Some t"
  shows "queue_inv t"
proof -
  have same: "shm t = shm s" "sems t = sems s" "ins t = ins s" "outs t = outs s"
    using st by (auto simp: deliver_def Let_def split: if_splits)
  from st consider
      "pc (procs s ! i) = P_start" "pcs t = (pcs s)[i := P_exited False]"
    | "pc (procs s ! i) = C_start" "pcs t = (pcs s)[i := C_exited False]"
    | "pcs t = pcs s"
    using i by (auto simp: deliver_def Let_def pcs_def map_update sig_handler_def list_update_same_conv
        split: if_splits)
  then show ?thesis
  proof cases
    case 1
    show ?thesis
      by (rule queue_inv_quiet [OF inv i refl 1(2)])
        (use i same in \<open>simp_all add: moves 1(1)\<close>)
  next
    case 2
    show ?thesis
      by (rule queue_inv_quiet [OF inv i refl 2(2)])
        (use i same in \<open>simp_all add: moves 2(1)\<close>)
  next
    case 3
    then show ?thesis using queue_inv_cong [of s t] inv same by (simp add: view_def)
  qed
qed

lemma interrupt_inv:
  assumes inv: "queue_inv s" and i: "i < length (procs s)" and st: "interrupt i s = Some t"
  shows "queue_inv t"
proof -
  obtain q where q: "eintr s (pc (procs s ! i)) = Some q" and t: "pcs t = (pcs s)[i := q]"
    "shm t = shm s" "sems t = sems s" "ins t = ins s" "outs t = outs s"
    using st by (auto simp: interrupt_def Let_def pcs_def map_update split: if_splits option.splits)
  show ?thesis
    by (rule queue_inv_quiet [OF inv i refl t(1)])
      (use i t(2-) q in \<open>auto simp: moves eintr_def split: pc.splits if_splits\<close>)
qed

section \<open>The commands of main\<close>

lemma send_sigterm_fields [simp]:
  "shm (send_sigterm i s) = shm s" "sems (send_sigterm i s) = sems s"
  "main_at (send_sigterm i s) = main_at s" "producers_pid (send_sigterm i s) = producers_pid s"
  "consumers_pid (send_sigterm i s) = consumers_pid s" "out (send_sigterm i s) = out s"
  "ins (send_sigterm i s) = ins s" "outs (send_sigterm i s) = outs s"
  "length (procs (send_sigterm i s)) = length (procs s)"
  "pcs (send_sigterm i s) = pcs s"
proof -
  show "pcs (send_sigterm i s) = pcs s"
    by (cases "i < length (procs s)") 
      (simp_all add: send_sigterm_def pcs_def map_update list_update_same_conv list_update_beyond not_less)
qed (simp_all add: send_sigterm_def)

lemma fold_sigterm_fields [simp]:
  "shm (fold send_sigterm is s) = shm s" "sems (fold send_sigterm is s) = sems s"
  "main_at (fold send_sigterm is s) = main_at s"
  "producers_pid (fold send_sigterm is s) = producers_pid s"
  "consumers_pid (fold send_sigterm is s) = consumers_pid s" "out (fold send_sigterm is s) = out s"
  "ins (fold send_sigterm is s) = ins s" "outs (fold send_sigterm is s) = outs s"
  "length (procs (fold send_sigterm is s)) = length (procs s)"
  "pcs (fold send_sigterm is s) = pcs s"
  by (induction "is" arbitrary: s) simp_all

lemma queue_inv_same_queue:
  assumes inv: "queue_inv s" and "view t = view s" "sems t = sems s"
    and pcs: "pcs t = pcs s \<or> pcs t = pcs s @ [P_start] \<or> pcs t = pcs s @ [C_start]"
  shows "queue_inv t"
proof -
  have "tq4.qinv 0 10 (view s) (pcs t)"
    using pcs inv tq4.spawn [of 0 10 "view s" "pcs s" P_start] tq4.spawn [of 0 10 "view s" "pcs s" C_start]
    by (auto simp: queue_inv_def tq4.held_def)
  with assms show ?thesis by (simp add: queue_inv_def)
qed

lemma pcs_simps [simp]:
  "pcs (s\<lparr>main_at := x\<rparr>) = pcs s" "pcs (s\<lparr>producers_pid := y\<rparr>) = pcs s"
  "pcs (s\<lparr>consumers_pid := y\<rparr>) = pcs s" "pcs (s\<lparr>shm := d\<rparr>) = pcs s"
  "pcs (s\<lparr>procs := procs s @ [new_process q]\<rparr>) = pcs s @ [q]"
  by (simp_all add: pcs_def new_process_def)

lemma view_simps [simp]:
  "view (emit e s) = view s" "view (s\<lparr>main_at := x\<rparr>) = view s"
  "view (s\<lparr>producers_pid := y\<rparr>) = view s" "view (s\<lparr>consumers_pid := y\<rparr>) = view s"
  "view (s\<lparr>procs := ps\<rparr>) = view s" "view (send_sigterm i s) = view s"
  "view (fold send_sigterm is s) = view s"
  "view (s\<lparr>shm := (shm s)\<lparr>producers := k\<rparr>\<rparr>) = view s"
  "view (s\<lparr>shm := (shm s)\<lparr>consumers := k\<rparr>\<rparr>) = view s"
  by (simp_all add: view_def)

lemma spawn_inv:
  assumes "queue_inv s"
  shows "queue_inv (spawn_producer fork_ok s)" and "queue_inv (spawn_consumer fork_ok s)"
  by (rule queue_inv_same_queue [OF assms],
      simp_all add: spawn_producer_def Let_def view_def pcs_def new_process_def)
    (rule queue_inv_same_queue [OF assms],
      simp_all add: spawn_consumer_def Let_def view_def pcs_def new_process_def)

lemma queue_inv_main [simp]:
  "queue_inv (emit e s) = queue_inv s"
  "queue_inv (s\<lparr>main_at := x\<rparr>) = queue_inv s"
  "queue_inv (s\<lparr>producers_pid := y\<rparr>) = queue_inv s"
  "queue_inv (s\<lparr>consumers_pid := y\<rparr>) = queue_inv s"
  "queue_inv (send_sigterm i s) = queue_inv s"
  "queue_inv (fold send_sigterm is s) = queue_inv s"
  "queue_inv (s\<lparr>shm := (shm s)\<lparr>producers := k\<rparr>\<rparr>) = queue_inv s"
  "queue_inv (s\<lparr>shm := (shm s)\<lparr>consumers := k\<rparr>\<rparr>) = queue_inv s"
  by (simp_all add: queue_inv_def)

lemma queue_inv_counters [simp]:
  "queue_inv (s\<lparr>producers_pid := y, shm := (shm s)\<lparr>producers := k\<rparr>\<rparr>) = queue_inv s"
  "queue_inv (s\<lparr>consumers_pid := y, shm := (shm s)\<lparr>consumers := k\<rparr>\<rparr>) = queue_inv s"
  by (simp_all add: queue_inv_def view_def pcs_def)

lemma command_inv: "queue_inv s \<Longrightarrow> queue_inv (command ch fork_ok s)"
  by (simp add: command_def Let_def show_status_def spawn_inv split: option.split)

lemma main_wait_inv: "queue_inv s \<Longrightarrow> main_wait s = Some t \<Longrightarrow> queue_inv t"
  by (auto simp: main_wait_def split: main_pc.splits list.splits if_splits)

lemma initial_queue_inv: "queue_inv (initial_sys mem)"
  by (simp add: queue_inv_def tq4.qinv_def tq4.stored_def tq4.permits_def view_def initial_sys_def
      pcs_def sem_setval_def sem_consts QUEUE_SIZE_def numeral_3_eq_3 Let_def)

lemma step_queue_inv: "queue_inv s \<Longrightarrow> step rnd s a = Some t \<Longrightarrow> queue_inv t"
  by (auto simp: step_def split: action.splits if_splits
      intro: producer_loop_inv consumer_loop_inv deliver_inv interrupt_inv command_inv main_wait_inv)

section \<open>Counters, events and the children of main\<close>

fun at_P_count :: "pc \<Rightarrow> bool" where
  "at_P_count (P_count t) = True" | "at_P_count p = False"

fun at_C_count :: "pc \<Rightarrow> bool" where
  "at_C_count (C_count m) = True" | "at_C_count p = False"

definition count_inv :: "sys \<Rightarrow> bool" where
  "count_inv s \<longleftrightarrow>
     producedCount (shm s) + of_nat (cnt at_P_count (pcs s)) = of_nat (length (ins s)) \<and>
     consumedCount (shm s) + of_nat (cnt at_C_count (pcs s)) = of_nat (length (outs s))"

lemma count_inv_move:
  assumes "count_inv s" and i: "i < length (pcs s)" and p: "pcs s ! i = p"
    and t: "pcs t = (pcs s)[i := q]"
    and "producedCount (shm t) + of_bool (at_P_count q) + of_nat (length (ins s)) =
         producedCount (shm s) + of_bool (at_P_count p) + of_nat (length (ins t))"
    and "consumedCount (shm t) + of_bool (at_C_count q) + of_nat (length (outs s)) =
         consumedCount (shm s) + of_bool (at_C_count p) + of_nat (length (outs t))"
  shows "count_inv t"
proof -
  have upd: "of_nat (cnt P ((pcs s)[i := q])) + of_bool (P p) =
      (of_nat (cnt P (pcs s)) + of_bool (P q) :: 64 word)" for P
    using arg_cong [OF cnt_update [OF i, of P q, unfolded p], of "of_nat :: nat \<Rightarrow> 64 word"]
    by simp
  show ?thesis
    using counter_move [OF _ assms(5) upd] counter_move [OF _ assms(6) upd] assms(1)
    by (simp add: count_inv_def t)
qed

lemma count_inv_set_pc:
  assumes "count_inv s" and i: "i < length (procs s)" and p: "pc (procs s ! i) = p"
    and u: "procs u = (procs s)[i := r]" "pc r = p"
    and "producedCount (shm u) + of_bool (at_P_count q) + of_nat (length (ins s)) =
         producedCount (shm s) + of_bool (at_P_count p) + of_nat (length (ins u))"
    and "consumedCount (shm u) + of_bool (at_C_count q) + of_nat (length (outs s)) =
         consumedCount (shm s) + of_bool (at_C_count p) + of_nat (length (outs u))"
  shows "count_inv (set_pc i q u)"
proof (rule count_inv_move [OF assms(1), of i p _ q])
  show "pcs (set_pc i q u) = (pcs s)[i := q]"
    using i by (simp add: pcs_def set_pc_def u map_update)
qed (use assms pcs_nth [OF i] in simp_all)

lemma procs_self: "procs s = (procs s)[i := procs s ! i]"
  by simp

lemma producer_loop_count: "count_inv s \<Longrightarrow> i < length (procs s) \<Longrightarrow> producer_loop rnd i s = Some t \<Longrightarrow> count_inv t"
  by (cases "pc (procs s ! i)")
    (auto simp: producer_loop_def do_sem_def Let_def split: if_splits
      intro!: count_inv_set_pc [of s i])

lemma consumer_loop_count: "count_inv s \<Longrightarrow> i < length (procs s) \<Longrightarrow> consumer_loop i s = Some t \<Longrightarrow> count_inv t"
  by (cases "pc (procs s ! i)")
    (auto simp: consumer_loop_def do_sem_def Let_def split: if_splits
      intro!: count_inv_set_pc [of s i])

lemma count_inv_same:
  assumes "count_inv s" and "producedCount (shm t) = producedCount (shm s)"
    "consumedCount (shm t) = consumedCount (shm s)" "ins t = ins s" "outs t = outs s"
    and "cnt at_P_count (pcs t) = cnt at_P_count (pcs s)" "cnt at_C_count (pcs t) = cnt at_C_count (pcs s)"
  shows "count_inv t"
  using assms by (simp add: count_inv_def)

lemma deliver_pcs:
  assumes "deliver i s = Some t" and "i < length (procs s)"
  shows "pcs t = pcs s \<or> (\<exists>q. pcs t = (pcs s)[i := q] \<and> exited q \<and> pcs s ! i \<in> {P_start, C_start})"
  using assms by (auto simp: deliver_def Let_def pcs_def map_update sig_handler_def
      list_update_same_conv split: if_splits)

lemma interrupt_pcs:
  assumes "interrupt i s = Some t"
  shows "\<exists>q. pcs t = (pcs s)[i := q] \<and> eintr s (pc (procs s ! i)) = Some q"
  using assms by (auto simp: interrupt_def Let_def pcs_def map_update split: if_splits option.splits)

lemma signal_fields:
  assumes "deliver i s = Some t \<or> interrupt i s = Some t"
  shows "shm t = shm s" "sems t = sems s" "ins t = ins s" "outs t = outs s" "out t = out s"
    "main_at t = main_at s" "producers_pid t = producers_pid s" "consumers_pid t = consumers_pid s"
    "length (procs t) = length (procs s)"
  using assms by (auto simp: deliver_def interrupt_def Let_def split: if_splits option.splits)

lemma signal_count:
  assumes "count_inv s" and "i < length (procs s)" and "deliver i s = Some t \<or> interrupt i s = Some t"
  shows "count_inv t"
proof (rule count_inv_same [OF assms(1)])
  have "cnt P (pcs t) = cnt P (pcs s)" if P: "P = at_P_count \<or> P = at_C_count" for P
  proof -
    from assms(3) consider "pcs t = pcs s"
      | q where "pcs t = (pcs s)[i := q]" "\<not> P q" "\<not> P (pcs s ! i)"
      using deliver_pcs [of i s t] interrupt_pcs [of i s t] assms(2) P pcs_nth [OF assms(2)]
      by (fastforce simp: eintr_def elim!: exited.elims split: pc.splits if_splits)
    then show ?thesis using assms(2) by cases auto
  qed
  then show "cnt at_P_count (pcs t) = cnt at_P_count (pcs s)"
    "cnt at_C_count (pcs t) = cnt at_C_count (pcs s)" by blast+
qed (use signal_fields [OF assms(3)] in simp_all)

lemma command_count: "count_inv s \<Longrightarrow> count_inv (command ch fork_ok s)"
  by (erule count_inv_same)
    (simp_all add: command_def Let_def show_status_def spawn_producer_def spawn_consumer_def
      split: option.split)

lemma main_wait_count: "count_inv s \<Longrightarrow> main_wait s = Some t \<Longrightarrow> count_inv t"
  by (erule count_inv_same) (auto simp: main_wait_def split: main_pc.splits list.splits if_splits)

lemma step_count_inv: "count_inv s \<Longrightarrow> step rnd s a = Some t \<Longrightarrow> count_inv t"
  by (auto simp: step_def split: action.splits if_splits
      intro: producer_loop_count consumer_loop_count signal_count command_count main_wait_count)

text \<open>What the loops and the signals leave alone: the bookkeeping of \<open>main\<close>.\<close>

definition main_frame :: "sys \<Rightarrow> sys \<Rightarrow> bool" where
  "main_frame s t \<longleftrightarrow>
     producers (shm t) = producers (shm s) \<and> consumers (shm t) = consumers (shm s) \<and>
     producers_pid t = producers_pid s \<and> consumers_pid t = consumers_pid s \<and>
     main_at t = main_at s \<and> length (pcs t) = length (pcs s) \<and>
     (\<forall>i < length (pcs s). exited (pcs s ! i) \<longrightarrow> pcs t ! i = pcs s ! i)"

lemma main_frame_set_pc:
  assumes "i < length (procs s)" and "\<not> exited (pc (procs s ! i))"
    and "producers (shm u) = producers (shm s)" "consumers (shm u) = consumers (shm s)"
    "producers_pid u = producers_pid s" "consumers_pid u = consumers_pid s"
    "main_at u = main_at s" "map pc (procs u) = map pc (procs s)"
  shows "main_frame s (set_pc i q u)"
  using assms pcs_nth [OF assms(1)] map_eq_imp_length_eq [OF assms(8)]
  by (auto simp: main_frame_def pcs_def [of u] pcs_def [of s, symmetric] nth_list_update)

lemma producer_loop_frame: "i < length (procs s) \<Longrightarrow> producer_loop rnd i s = Some t \<Longrightarrow> main_frame s t"
  by (cases "pc (procs s ! i)")
    (auto simp: producer_loop_def do_sem_def Let_def map_update list_update_same_conv split: if_splits
      intro!: main_frame_set_pc)

lemma consumer_loop_frame: "i < length (procs s) \<Longrightarrow> consumer_loop i s = Some t \<Longrightarrow> main_frame s t"
  by (cases "pc (procs s ! i)")
    (auto simp: consumer_loop_def do_sem_def Let_def map_update list_update_same_conv split: if_splits
      intro!: main_frame_set_pc)

lemma signal_frame:
  assumes "i < length (procs s)" and "deliver i s = Some t \<or> interrupt i s = Some t"
  shows "main_frame s t"
proof -
  have "pcs t ! j = pcs s ! j" if "j < length (pcs s)" "exited (pcs s ! j)" for j
    using assms that deliver_pcs [of i s t] interrupt_pcs [of i s t] pcs_nth [OF assms(1)]
    by (cases "i = j") (fastforce simp: eintr_def split: pc.splits if_splits)+
  then show ?thesis
    using signal_fields [OF assms(2)] by (simp add: main_frame_def)
qed

definition waits_for :: "sys \<Rightarrow> nat \<Rightarrow> bool" where
  "waits_for s i \<longleftrightarrow>
     (case main_at s of M_fault \<Rightarrow> True | M_join ps \<Rightarrow> i \<in> set ps | M_done \<Rightarrow> False
      | _ \<Rightarrow> i \<in> set (producers_pid s) \<or> i \<in> set (consumers_pid s))"

definition main_inv :: "sys \<Rightarrow> bool" where
  "main_inv s \<longleftrightarrow>
     producers (shm s) = int (length (producers_pid s)) \<and>
     consumers (shm s) = int (length (consumers_pid s)) \<and>
     length (producers_pid s) \<le> 100 \<and> length (consumers_pid s) \<le> 100 \<and>
     (\<forall>p. main_at s = M_wait_producer p \<longrightarrow> producers_pid s \<noteq> [] \<and> p = last (producers_pid s)) \<and>
     (\<forall>p. main_at s = M_wait_consumer p \<longrightarrow> consumers_pid s \<noteq> [] \<and> p = last (consumers_pid s)) \<and>
     (\<forall>i < length (pcs s). exited (pcs s ! i) \<or> waits_for s i)"

lemma waits_for_cong:
  "main_at t = main_at s \<Longrightarrow> producers_pid t = producers_pid s \<Longrightarrow>
   consumers_pid t = consumers_pid s \<Longrightarrow> waits_for t i = waits_for s i"
  by (simp add: waits_for_def split: main_pc.splits)

lemma main_inv_frame:
  assumes "main_inv s" and f: "main_frame s t"
  shows "main_inv t"
proof -
  have "waits_for t i = waits_for s i" for i
    using f by (intro waits_for_cong) (simp_all add: main_frame_def)
  then show ?thesis using assms by (auto simp: main_inv_def main_frame_def)
qed

lemma in_butlast: "xs \<noteq> [] \<Longrightarrow> x \<in> set xs \<Longrightarrow> x \<noteq> last xs \<Longrightarrow> x \<in> set (butlast xs)"
  by (metis append_butlast_last_id rotate1.simps(2) set_ConsD set_rotate1)

lemma int_butlast: "xs \<noteq> [] \<Longrightarrow> int (length xs - Suc 0) = int (length xs) - 1"
  by (cases xs) simp_all

lemma main_wait_main:
  assumes "main_inv s" and "main_wait s = Some t"
  shows "main_inv t"
proof (cases "main_at s")
  case (M_wait_producer p)
  with assms show ?thesis
    by (auto simp: main_wait_def main_inv_def waits_for_def pcs_nth int_butlast dest: in_butlast
        split: if_splits) (metis in_butlast)+
next
  case (M_wait_consumer p)
  with assms show ?thesis
    by (auto simp: main_wait_def main_inv_def waits_for_def pcs_nth int_butlast dest: in_butlast
        split: if_splits) (metis in_butlast)+
next
  case (M_join ps)
  with assms show ?thesis
    by (cases ps) (fastforce simp: main_wait_def main_inv_def waits_for_def pcs_nth split: if_splits)+
qed (use assms in \<open>simp_all add: main_wait_def\<close>)

lemma spawn_main:
  assumes "main_inv s" and "main_at s = M_getchar"
  shows "main_inv (spawn_producer fork_ok s)" and "main_inv (spawn_consumer fork_ok s)"
  using assms
  by (auto simp: main_inv_def spawn_producer_def spawn_consumer_def Let_def waits_for_def pcs_def
      emit_def new_process_def MAX_PIDS_def nth_append less_Suc_eq)

lemma main_inv_emit [simp]: "main_inv (emit e s) = main_inv s"
  by (simp add: main_inv_def waits_for_cong [of "emit e s" s])

lemma command_main: "main_inv s \<Longrightarrow> main_at s = M_getchar \<Longrightarrow> main_inv (command ch fork_ok s)"
  by (auto simp: command_def Let_def show_status_def spawn_main split: option.split)
    (auto simp: main_inv_def waits_for_def)

lemma step_main_inv: "main_inv s \<Longrightarrow> step rnd s a = Some t \<Longrightarrow> main_inv t"
  by (auto simp: step_def split: action.splits if_splits
      intro: main_inv_frame producer_loop_frame consumer_loop_frame signal_frame command_main main_wait_main)

fun event_ok :: "event \<Rightarrow> bool" where
  "event_ok (Consumed i n ty sz ok) = ok"
| "event_ok e = True"

definition out_inv :: "sys \<Rightarrow> bool" where
  "out_inv s \<longleftrightarrow> (\<forall>e \<in> set (out s). event_ok e)"

lemma out_inv_same: "out t = out s \<Longrightarrow> out_inv s \<Longrightarrow> out_inv t"
  by (simp add: out_inv_def)

lemma out_inv_emit [simp]: "out_inv (emit e s) \<longleftrightarrow> out_inv s \<and> event_ok e"
  by (auto simp: out_inv_def)

lemma out_inv_set_pc [simp]: "out_inv (set_pc i q s) \<longleftrightarrow> out_inv s"
  by (simp add: out_inv_def)

lemma producer_loop_out: "out_inv s \<Longrightarrow> producer_loop rnd i s = Some t \<Longrightarrow> out_inv t"
  by (auto simp: producer_loop_def do_sem_def Let_def split: pc.splits if_splits)
    (simp_all add: out_inv_def)

lemma consumer_loop_out:
  assumes "queue_inv s" and "i < length (procs s)" and "out_inv s" and "consumer_loop i s = Some t"
  shows "out_inv t"
proof -
  show ?thesis
    using queue_invD(9) [OF assms(1,2)] assms(3,4)
    by (auto simp: consumer_loop_def do_sem_def Let_def split: pc.splits if_splits)
      (simp_all add: out_inv_def)
qed

lemma command_out:
  "ins (command ch fork_ok s) = ins s" "outs (command ch fork_ok s) = outs s"
  "out_inv s \<Longrightarrow> out_inv (command ch fork_ok s)"
  by (simp_all add: command_def Let_def show_status_def spawn_producer_def spawn_consumer_def
      out_inv_def split: option.split)

lemma main_wait_out:
  assumes "main_wait s = Some t"
  shows "ins t = ins s" "outs t = outs s" "out_inv s \<Longrightarrow> out_inv t"
  using assms by (auto simp: main_wait_def out_inv_def split: main_pc.splits list.splits if_splits)

lemma step_out_inv: "queue_inv s \<Longrightarrow> out_inv s \<Longrightarrow> step rnd s a = Some t \<Longrightarrow> out_inv t"
  by (auto simp: step_def command_out main_wait_out split: action.splits if_splits
      intro: producer_loop_out consumer_loop_out out_inv_same [OF signal_fields(5)])

text \<open>The history: every step leaves it, appends one message put in, or one taken out.\<close>

lemma loop_hist:
  "producer_loop rnd i s = Some t \<Longrightarrow> hist_step (ins s) (outs s) (ins t) (outs t)"
  "consumer_loop i s = Some t \<Longrightarrow> hist_step (ins s) (outs s) (ins t) (outs t)"
  by (auto simp: producer_loop_def consumer_loop_def do_sem_def Let_def split: pc.splits if_splits)

lemma step_hist: "step rnd s a = Some t \<Longrightarrow> hist_step (ins s) (outs s) (ins t) (outs t)"
  by (auto simp: step_def command_out main_wait_out loop_hist signal_fields [OF disjI1]
      signal_fields [OF disjI2]
      split: action.splits if_splits)

section \<open>Refinement of the bounded queue\<close>

definition sys_inv :: "sys \<Rightarrow> bool" where
  "sys_inv s \<longleftrightarrow> queue_inv s \<and> count_inv s \<and> main_inv s \<and> out_inv s"

definition queue_abs :: "sys \<Rightarrow> message fifo" where
  "queue_abs s =
     \<lparr>pending = ring_contents QUEUE_SIZE (buffer (shm s)) (head (shm s)) (stored s),
      accepted = ins s, delivered = outs s\<rparr>"

lemma queue_abs_inv: "queue_inv s \<Longrightarrow> fifo_inv QUEUE_SIZE (queue_abs s)"
  using queue_invD(7,10) [of s] by (simp add: fifo_inv_def queue_abs_def QUEUE_SIZE_def)

lemma sys_inv_initial: "sys_inv (initial_sys mem)"
  by (simp add: sys_inv_def initial_queue_inv)
    (simp add: count_inv_def main_inv_def out_inv_def initial_sys_def pcs_def)

lemma sys_inv_step: "sys_inv s \<Longrightarrow> step rnd s a = Some t \<Longrightarrow> sys_inv t"
  by (auto simp: sys_inv_def intro: step_queue_inv step_count_inv step_main_inv step_out_inv)

interpretation shm_queue: fifo_machine "step rnd" "initial_sys mem" sys_inv QUEUE_SIZE queue_abs
proof unfold_locales
  show "sys_inv (initial_sys mem)" by (rule sys_inv_initial)
next
  show "\<And>s a t. sys_inv s \<Longrightarrow> step rnd s a = Some t \<Longrightarrow> sys_inv t" by (rule sys_inv_step)
next
  show "queue_abs (initial_sys mem) = empty_fifo"
    by (simp add: queue_abs_def initial_sys_def empty_fifo_def stored_def pcs_def sem_setval_def
        sem_consts numeral_3_eq_3)
next
  show "\<And>s. sys_inv s \<Longrightarrow> fifo_inv QUEUE_SIZE (queue_abs s)"
    by (simp add: sys_inv_def queue_abs_inv)
next
  show "\<And>s a t. step rnd s a = Some t \<Longrightarrow>
      hist_step (accepted (queue_abs s)) (delivered (queue_abs s))
        (accepted (queue_abs t)) (delivered (queue_abs t))"
    by (simp add: queue_abs_def step_hist)
qed

lemmas shm_reachable_inv = shm_queue.inv_reachable [unfolded sys_inv_def]

end
