(* ===== verification/Shm_Queue_Props.thy ===== *)
theory Shm_Queue_Props
  imports Shm_Queue_Correct
begin

text \<open>
  The properties of Lab4/parent.c, with the concrete runs that show their hypotheses can hold and
  that exhibit the behaviours the code does not intend.
\<close>

section \<open>Concrete runs\<close>

text \<open>
  The runs below are evaluated for every \<open>rand\<close> stream and every initial memory: the messages
  stay symbolic.
\<close>

lemmas shm_eval = step_def command_def spawn_producer_def spawn_consumer_def producer_loop_def
  consumer_loop_def do_sem_def set_pc_def emit_def new_process_def initial_sys_def sem_setval_def
  sem_consts QUEUE_SIZE_def MAX_PIDS_def send_sigterm_def deliver_def interrupt_def eintr_def
  sig_handler_def main_wait_def Let_def numeral_3_eq_3

text \<open>Two producers: the first gets the mutex, the second has a slot and waits for the mutex.\<close>

definition contention_run :: "action list" where
  "contention_run = [Getchar (Some CHR ''p'') True, Getchar (Some CHR ''p'') True,
     Run 0, Run 0, Run 0, Run 0, Run 1, Run 1, Run 1]"

text \<open>The second is killed while it waits, and \<open>main\<close> goes on.\<close>

definition lost_slot_run :: "action list" where
  "lost_slot_run = contention_run @ [Getchar (Some CHR ''P'') True, Interrupt 1, Waitpid]"

text \<open>A message goes through: one producer, one consumer.\<close>

definition transfer_run :: "action list" where
  "transfer_run = [Getchar (Some CHR ''p'') True, Getchar (Some CHR ''c'') True]
     @ [Run 0, Run 0, Run 0, Run 0, Run 0, Run 0, Run 0, Run 0, Run 0, Run 0]
     @ [Run 1, Run 1, Run 1, Run 1, Run 1, Run 1, Run 1, Run 1, Run 1, Run 1]"

text \<open>The signal arrives after the check of \<open>needTerminate\<close> and before the call of \<open>semop\<close>.\<close>

definition late_signal_run :: "action list" where
  "late_signal_run = [Getchar (Some CHR ''c'') True, Run 0, Run 0, Getchar (Some CHR ''C'') True, Deliver 0]"

definition quit_run :: "action list" where
  "quit_run = [Getchar (Some CHR ''p'') True, Run 0, Getchar (Some CHR ''q'') True, Deliver 0, Run 0,
     Waitpid, Waitpid]"

lemma contention_result:
  "\<exists>s. run (step rnd) (initial_sys mem) contention_run = Some s \<and> length (procs s) = 2 \<and>
       pc (procs s ! 0) = P_fill \<and> pc (procs s ! 1) = P_wait_mutex"
  by (simp add: contention_run_def shm_eval)

lemma lost_slot_result:
  "\<exists>s. run (step rnd) (initial_sys mem) lost_slot_run = Some s \<and> length (procs s) = 2 \<and>
       pc (procs s ! 1) = P_exited True \<and> main_at s = M_getchar \<and> producers_pid s = [0] \<and>
       out s = [Spawned_producer 0, Spawned_producer 1, Killed_producer 1]"
  by (simp add: lost_slot_run_def contention_run_def shm_eval)

lemma transfer_result:
  "\<exists>s m. run (step rnd) (initial_sys mem) transfer_run = Some s \<and> ins s = [m] \<and> outs s = [m] \<and>
       out s = [Spawned_producer 0, Spawned_consumer 1, Produced 0 1 (msg_type m) (msg_size m),
            Consumed 1 1 (msg_type m) (msg_size m) (verify_hash m \<noteq> 0)]"
  by (simp add: transfer_run_def shm_eval)

lemma late_signal_result:
  "\<exists>s. run (step rnd) (initial_sys mem) late_signal_run = Some s \<and> main_at s = M_wait_consumer 0 \<and>
       sems s = [1, 0, 10] \<and>
       procs s = [\<lparr>pc = C_wait_fill, needTerminate = True, sig_pending = False, rand_pos = 0\<rparr>]"
  by (simp add: late_signal_run_def shm_eval)

lemma quit_result:
  "\<exists>s. run (step rnd) (initial_sys mem) quit_run = Some s \<and> main_at s = M_done \<and> length (procs s) = 1"
  by (simp add: quit_run_def shm_eval)

text \<open>A lone producer fills the ring, one round of its loop after the other.\<close>

definition one_round :: "action list" where
  "one_round = [Run 0, Run 0, Run 0, Run 0, Run 0, Run 0, Run 0, Run 0, Run 0, Run 0]"

definition lone_producer :: "nat \<Rightarrow> sys \<Rightarrow> bool" where
  "lone_producer k s \<longleftrightarrow>
     sems s = [1, k, 10 - k] \<and> head (shm s) = 0 \<and> tail (shm s) = k mod 10 \<and>
     main_at s = M_getchar \<and> (\<exists>p. procs s = [p] \<and> pc p = P_loop \<and> \<not> needTerminate p)"

lemma produce_one:
  assumes "lone_producer k s" and "k < 10"
  shows "\<exists>t. run (step rnd) s one_round = Some t \<and> lone_producer (Suc k) t"
  using assms unfolding lone_producer_def
  by (elim conjE exE) (simp add: one_round_def shm_eval mod_simps)

lemma fill_ring: "k \<le> 10 \<Longrightarrow> \<exists>s. reachable (step rnd) (initial_sys mem) s \<and> lone_producer k s"
proof (induction k)
  case 0
  have "\<exists>s. run (step rnd) (initial_sys mem) [Getchar (Some CHR ''p'') True, Run 0] = Some s \<and>
      lone_producer 0 s"
    by (simp add: shm_eval lone_producer_def)
  then show ?case by (blast intro: run_reachable)
next
  case (Suc k)
  then obtain s where s: "reachable (step rnd) (initial_sys mem) s" "lone_producer k s" by auto
  from produce_one [OF s(2)] Suc.prems obtain t
    where "run (step rnd) s one_round = Some t" "lone_producer (Suc k) t" by fastforce
  with s(1) show ?case by (blast intro: reachable_run)
qed

section \<open>What a process that has left leaves behind\<close>

lemma command_pcs: "pcs (command ch fork_ok s) = pcs s \<or> (\<exists>q. pcs (command ch fork_ok s) = pcs s @ [q])"
  by (auto simp: command_def Let_def show_status_def spawn_producer_def spawn_consumer_def
      split: option.split)

lemma main_wait_pcs: "main_wait s = Some t \<Longrightarrow> pcs t = pcs s"
  by (auto simp: main_wait_def split: main_pc.splits list.splits if_splits)

lemma exited_stays:
  assumes "step rnd s a = Some t" and i: "i < length (procs s)" and "exited (pcs s ! i)"
  shows "i < length (procs t) \<and> pcs t ! i = pcs s ! i"
proof -
  have frame: "main_frame s t \<Longrightarrow> ?thesis" using assms by (simp add: main_frame_def)
  show ?thesis
  proof (cases a)
    case (Getchar ch fork_ok)
    with assms(1) have t: "t = command ch fork_ok s" by (simp add: step_def split: if_splits)
    have "i < length (pcs t) \<and> pcs t ! i = pcs s ! i"
      using command_pcs [of ch fork_ok s] i [folded length_pcs]
      by (auto simp: t nth_append simp del: length_pcs)
    then show ?thesis by simp
  next
    case Waitpid
    with assms(1) have "pcs t = pcs s" by (simp add: step_def main_wait_pcs)
    with i show ?thesis by (metis length_pcs)
  qed (use assms(1) in \<open>auto simp: step_def split: if_splits
      intro!: frame intro: producer_loop_frame consumer_loop_frame signal_frame\<close>)
qed

lemma exited_for_good:
  "reachable (step rnd) s t \<Longrightarrow> i < length (procs s) \<Longrightarrow> exited (pcs s ! i) \<Longrightarrow>
   i < length (procs t) \<and> pcs t ! i = pcs s ! i"
  by (induction rule: reachable.induct) (auto dest: exited_stays)

section \<open>Properties\<close>

text \<open>
  C15 (Lab4, mutual exclusion): in every reachable state of the system, whatever the commands, the
  interleaving and the signals, at most one process is between its wait for \<open>SEM_MUTEX\<close>
  and the release of it.
\<close>

theorem shm_mutual_exclusion:
  assumes "reachable (step rnd) (initial_sys mem) s"
    and "i < length (procs s)" and "j < length (procs s)"
    and "in_crit (pc (procs s ! i))" and "in_crit (pc (procs s ! j))"
  shows "i = j"
proof -
  have "queue_inv s" using shm_reachable_inv [OF assms(1)] by simp
  then have "tq4.qinv 0 10 (view s) (pcs s)" by (simp add: queue_inv_def)
  from tq4.crit_exclusive [OF this, of i j] show ?thesis
    using assms(2-) by (simp add: pcs_nth)
qed

theorem shm_mutual_exclusion_witness:
  "\<exists>s. reachable (step (\<lambda>_ _. 5)) (initial_sys (\<lambda>_. sample_message)) s \<and> length (procs s) = 2 \<and>
       in_crit (pc (procs s ! 0)) \<and> {j. j < 2 \<and> in_crit (pc (procs s ! j))} = {0}"
proof -
  obtain s where r: "reachable (step (\<lambda>_ _. 5)) (initial_sys (\<lambda>_. sample_message)) s"
    and n: "length (procs s) = 2" and p: "pc (procs s ! 0) = P_fill"
    using contention_result [of "\<lambda>_ _. 5" "\<lambda>_. sample_message"] by (blast intro: run_reachable)
  have "0 < length (procs s)" and c: "in_crit (pc (procs s ! 0))" using n p by simp_all
  then have "{j. j < 2 \<and> in_crit (pc (procs s ! j))} = {0}"
    using shm_mutual_exclusion [OF r, of _ 0] n by auto
  with r n c show ?thesis by blast
qed

text \<open>
  C1 (Lab4, refinement): the ring in shared memory with its three semaphores refines the bounded
  first-in first-out queue of capacity \<open>QUEUE_SIZE\<close>. Every reachable state, in which processes may
  be anywhere in their loops or killed anywhere, is the image of a run of the abstract queue whose
  pending messages are what the ring's memory holds between \<open>head\<close> and \<open>tail\<close>; so the consumed
  messages are, in order, the first of the produced ones, and none is overwritten.
\<close>

theorem shm_queue_refines_fifo:
  assumes "reachable (step rnd) (initial_sys mem) s"
  shows "(fifo_step QUEUE_SIZE)\<^sup>*\<^sup>* empty_fifo (queue_abs s)
    \<and> ins s = outs s @ ring_contents QUEUE_SIZE (buffer (shm s)) (head (shm s)) (length (ins s) - length (outs s))
    \<and> length (ins s) - length (outs s) \<le> QUEUE_SIZE"
proof -
  from assms have r: "(fifo_step QUEUE_SIZE)\<^sup>*\<^sup>* empty_fifo (queue_abs s)"
    by (rule shm_queue.refines)
  then have "fifo_inv QUEUE_SIZE (queue_abs s)" by (rule fifo_inv_steps)
  with r show ?thesis by (simp add: fifo_inv_def queue_abs_def)
qed

theorem shm_queue_refines_fifo_witness:
  "\<exists>s. reachable (step (\<lambda>_ _. 5)) (initial_sys (\<lambda>_. sample_message)) s \<and> length (outs s) = 1 \<and>
       (fifo_step QUEUE_SIZE)\<^sup>*\<^sup>* empty_fifo (queue_abs s)"
proof -
  obtain s m where r: "reachable (step (\<lambda>_ _. 5)) (initial_sys (\<lambda>_. sample_message)) s"
    and n: "outs s = [m]"
    using transfer_result [of "\<lambda>_ _. 5" "\<lambda>_. sample_message"] by (blast intro: run_reachable)
  with shm_queue_refines_fifo [OF r] show ?thesis by (intro exI [of _ s]) simp
qed

text \<open>
  C36 (Lab4, integrity): a consumer never sees a torn, stale or overwritten message. Every line a
  consumer prints says \<open>hash_ok=YES\<close>, and when no process is counting, \<open>producedCount\<close> and
  \<open>consumedCount\<close> are the numbers of messages put in and taken out, modulo 2 to the 64.
\<close>

theorem shm_consumed_messages_verify:
  assumes "reachable (step rnd) (initial_sys mem) s"
  shows "(Consumed i n ty sz ok \<in> set (out s) \<longrightarrow> ok)
    \<and> (\<forall>m \<in> set (outs s). verify_hash m = 1)
    \<and> producedCount (shm s) + of_nat (cnt at_P_count (pcs s)) = of_nat (length (ins s))
    \<and> consumedCount (shm s) + of_nat (cnt at_C_count (pcs s)) = of_nat (length (outs s))"
proof -
  have inv: "queue_inv s" "count_inv s" "out_inv s" using shm_reachable_inv [OF assms] by simp_all
  have "\<forall>m \<in> set (ins s). verify_hash m = 1" and "set (outs s) \<subseteq> set (ins s)"
    using queue_invD(7,8) [OF inv(1)] by simp_all
  with inv(2,3) show ?thesis by (auto simp: out_inv_def count_inv_def)
qed

theorem shm_consumed_messages_verify_witness:
  "\<exists>s m. reachable (step (\<lambda>_ _. 5)) (initial_sys (\<lambda>_. sample_message)) s \<and> outs s = [m] \<and>
       Consumed 1 1 (msg_type m) (msg_size m) (verify_hash m \<noteq> 0) \<in> set (out s) \<and> verify_hash m \<noteq> 0"
proof -
  obtain s m where r: "reachable (step (\<lambda>_ _. 5)) (initial_sys (\<lambda>_. sample_message)) s"
    and n: "outs s = [m]"
    and e: "Consumed 1 1 (msg_type m) (msg_size m) (verify_hash m \<noteq> 0) \<in> set (out s)"
    using transfer_result [of "\<lambda>_ _. 5" "\<lambda>_. sample_message"]
    by (fastforce intro: run_reachable)
  from shm_consumed_messages_verify [OF r] e have "verify_hash m \<noteq> 0" by blast
  with r n e show ?thesis by blast
qed

text \<open>
  (Lab4, case 's'): the status line. \<open>used\<close> is the number of messages in the ring except
  when the ring is full, where \<open>head = tail\<close> and it is reported as empty, with ten free slots. The
  full ring is reachable, with any \<open>rand\<close> stream and initial memory.
\<close>

theorem shm_status_used:
  assumes "reachable (step rnd) (initial_sys mem) s"
  shows "queue_used (shm s) =
      (if length (ins s) - length (outs s) = QUEUE_SIZE then 0
       else int (length (ins s) - length (outs s)))
    \<and> (\<exists>t. reachable (step rnd) (initial_sys mem) t \<and>
      length (ins t) - length (outs t) = QUEUE_SIZE \<and> queue_used (shm t) = 0)"
proof -
  have used: "queue_used (shm s) =
      (if length (ins s) - length (outs s) = QUEUE_SIZE then 0
       else int (length (ins s) - length (outs s)))"
    if r: "reachable (step rnd) (initial_sys mem) s" for s
  proof -
    have inv: "queue_inv s" using shm_reachable_inv [OF r] by simp
    note t = queue_invD(6) [OF inv] and h = queue_invD(3) [OF inv]
    have st: "length (ins s) - length (outs s) = stored s"
      using queue_invD(7) [OF inv] by simp
    have "stored s \<le> 10" using queue_invD(10) [OF inv] by simp
    then show ?thesis
      unfolding st queue_used_def QUEUE_SIZE_def Let_def t using h by (auto simp: mod_if)
  qed
  obtain t where r: "reachable (step rnd) (initial_sys mem) t" and f: "lone_producer 10 t"
    using fill_ring [of 10] by blast
  have "queue_inv t" using shm_reachable_inv [OF r] by simp
  moreover have "stored t = 10"
    using f by (auto simp: lone_producer_def stored_def pcs_def)
  ultimately have "length (ins t) - length (outs t) = QUEUE_SIZE"
    using queue_invD(7) [of t] by (simp add: QUEUE_SIZE_def)
  with r used [OF r] used [OF assms] show ?thesis by auto
qed

theorem shm_status_used_witness:
  "\<exists>t. reachable (step (\<lambda>_ _. 5)) (initial_sys (\<lambda>_. sample_message)) t \<and>
     length (ins t) - length (outs t) = QUEUE_SIZE \<and> queue_used (shm t) = 0"
  by (rule shm_status_used [OF reach_start, THEN conjunct2])

text \<open>
  C31 (Lab4, case 'P' while the producer waits for the mutex): the killed producer leaves through
  the \<open>break\<close> after the failed wait and keeps the empty slot it was granted. The run below loses a
  slot although \<open>main\<close> reports an orderly end, and nothing ever gives it back: from then on the
  two counting semaphores never add up to the queue's size again.
\<close>

theorem shm_killed_producer_loses_slot:
  "\<exists>s. reachable (step rnd) (initial_sys mem) s \<and>
     out s = [Spawned_producer 0, Spawned_producer 1, Killed_producer 1] \<and> main_at s = M_getchar \<and>
     (\<forall>t. reachable (step rnd) s t \<longrightarrow>
        sems t ! SEM_FILL_COUNT + sems t ! SEM_EMPTY_COUNT < QUEUE_SIZE)"
proof -
  obtain s where r: "reachable (step rnd) (initial_sys mem) s" and n: "length (procs s) = 2"
    and p: "pc (procs s ! 1) = P_exited True"
    and o: "out s = [Spawned_producer 0, Spawned_producer 1, Killed_producer 1]"
    and m: "main_at s = M_getchar"
    using lost_slot_result [of rnd mem] by (blast intro: run_reachable)
  have p': "pcs s ! 1 = P_exited True" using p n by (simp add: pcs_nth)
  have "sems t ! SEM_FILL_COUNT + sems t ! SEM_EMPTY_COUNT < QUEUE_SIZE"
    if "reachable (step rnd) s t" for t
  proof -
    have t: "1 < length (procs t)" "pcs t ! 1 = P_exited True"
      using exited_for_good [OF that, of 1] n p' by simp_all
    have "0 < cnt owns_slot (pcs t)" by (rule cnt_pos [of 1]) (use t in simp_all)
    moreover have "queue_inv t" using shm_reachable_inv [OF reachable_trans [OF that r]] by simp
    ultimately show ?thesis using queue_invD(5) [of t] by (simp add: sem_consts QUEUE_SIZE_def)
  qed
  with r o m show ?thesis by blast
qed

theorem shm_killed_producer_loses_slot_witness:
  "\<exists>s. reachable (step (\<lambda>_ _. 5)) (initial_sys (\<lambda>_. sample_message)) s \<and> main_at s = M_getchar \<and>
     sems s ! SEM_FILL_COUNT + sems s ! SEM_EMPTY_COUNT < QUEUE_SIZE"
  using shm_killed_producer_loses_slot [of "\<lambda>_ _. 5" "\<lambda>_. sample_message"]
  by (blast intro: reach_start)

text \<open>
  C32 (Lab4, case 'C', a lost signal): when the signal is delivered after a consumer has tested
  \<open>needTerminate\<close> and before it blocks in \<open>semop\<close> on an empty queue, the flag is set too late. The
  reachable state has \<open>main\<close> in \<open>waitpid\<close> and the consumer blocked, and no step is possible any
  more, for any scheduling, input or signal.
\<close>

theorem shm_late_signal_deadlock:
  "\<exists>s. reachable (step rnd) (initial_sys mem) s \<and> main_at s = M_wait_consumer 0 \<and>
     needTerminate (procs s ! 0) \<and> \<not> exited (pc (procs s ! 0)) \<and> (\<forall>a. step rnd s a = None)"
proof -
  obtain s where r: "reachable (step rnd) (initial_sys mem) s" and m: "main_at s = M_wait_consumer 0"
    and v: "sems s = [1, 0, 10]"
    and p: "procs s = [\<lparr>pc = C_wait_fill, needTerminate = True, sig_pending = False, rand_pos = 0\<rparr>]"
    using late_signal_result [of rnd mem] by (blast intro: run_reachable)
  have "step rnd s a = None" for a
    by (cases a) (auto simp: step_def m v p consumer_loop_def do_sem_def deliver_def interrupt_def
        main_wait_def sem_consts)
  with r m p show ?thesis by (intro exI [of _ s]) simp
qed

text \<open>
  (Lab4, main): the bookkeeping of \<open>main\<close>. The counters in shared memory are the lengths of the
  two PID arrays, which never exceed their 100 entries as long as \<open>main\<close> has not run past them, and
  when \<open>main\<close> has finished, every process it forked has left.
\<close>

theorem shm_main_reaps_children:
  assumes "reachable (step rnd) (initial_sys mem) s"
  shows "producers (shm s) = int (length (producers_pid s))
    \<and> consumers (shm s) = int (length (consumers_pid s))
    \<and> length (producers_pid s) \<le> MAX_PIDS \<and> length (consumers_pid s) \<le> MAX_PIDS
    \<and> (main_at s = M_done \<longrightarrow> (\<forall>p \<in> set (procs s). exited (pc p)))"
proof -
  have inv: "main_inv s" using shm_reachable_inv [OF assms] by simp
  have "exited (pc p)" if "main_at s = M_done" "p \<in> set (procs s)" for p
    using inv that by (auto simp: main_inv_def waits_for_def in_set_conv_nth pcs_nth)
  with inv show ?thesis by (simp add: main_inv_def MAX_PIDS_def)
qed

theorem shm_main_reaps_children_witness:
  "\<exists>s. reachable (step (\<lambda>_ _. 5)) (initial_sys (\<lambda>_. sample_message)) s \<and> main_at s = M_done \<and>
     length (procs s) = 1 \<and> (\<forall>p \<in> set (procs s). exited (pc p))"
proof -
  obtain s where r: "reachable (step (\<lambda>_ _. 5)) (initial_sys (\<lambda>_. sample_message)) s"
    and "main_at s = M_done" "length (procs s) = 1"
    using quit_result [of "\<lambda>_ _. 5" "\<lambda>_. sample_message"] by (blast intro: run_reachable)
  with shm_main_reaps_children [OF r] show ?thesis by blast
qed

text \<open>
  (Lab4, case 'p'): \<open>producers_pid\<close> has 100 entries and \<open>pCount\<close> is not checked against it. After
  100 successful spawns the 101st stores past the end of the array.
\<close>

theorem shm_pid_array_overflow:
  "\<exists>s t. reachable (step rnd) (initial_sys mem) s \<and> length (producers_pid s) = MAX_PIDS \<and>
     main_at s = M_getchar \<and> step rnd s (Getchar (Some CHR ''p'') True) = Some t \<and> main_at t = M_fault"
proof -
  have "\<exists>s. reachable (step rnd) (initial_sys mem) s \<and> length (producers_pid s) = k \<and> main_at s = M_getchar"
    if "k \<le> MAX_PIDS" for k
    using that
  proof (induction k)
    case 0
    have "producers_pid (initial_sys mem) = []" "main_at (initial_sys mem) = M_getchar"
      by (simp_all add: initial_sys_def Let_def)
    then show ?case using reach_start by fastforce
  next
    case (Suc k)
    then obtain s where s: "reachable (step rnd) (initial_sys mem) s" "length (producers_pid s) = k"
      "main_at s = M_getchar" by auto
    have "step rnd s (Getchar (Some CHR ''p'') True) = Some (command (Some CHR ''p'') True s)"
      by (simp add: step_def s)
    from reach_step [OF s(1) this] show ?case
      using s Suc.prems
      by (intro exI [of _ "command (Some CHR ''p'') True s"]) (simp add: command_def spawn_producer_def Let_def)
  qed
  from this [of MAX_PIDS] obtain s where "reachable (step rnd) (initial_sys mem) s"
    "length (producers_pid s) = MAX_PIDS" "main_at s = M_getchar" by auto
  then show ?thesis
    by (intro exI [of _ s] exI [of _ "command (Some CHR ''p'') True s"])
      (simp add: step_def command_def spawn_producer_def Let_def)
qed

end
