(* ===== verification/Shm_Queue_Types.thy ===== *)
theory Shm_Queue_Types
  imports Shm_Queue_Props
begin

text \<open>
  The types of Lab4/parent.c at run time: what the C types of the shared segment only suggest, the
  ranges of its indices and the 256 data bytes of its messages, is an invariant of the whole system.
\<close>

definition messages_ok :: "sys \<Rightarrow> bool" where
  "messages_ok s \<longleftrightarrow> (\<forall>m \<in> set (buffer (shm s)) \<union> set (ins s). wf_message m)"

lemma messages_ok_same: "buffer (shm t) = buffer (shm s) \<Longrightarrow> ins t = ins s \<Longrightarrow> messages_ok s \<Longrightarrow> messages_ok t"
  by (simp add: messages_ok_def)

lemma messages_ok_fill:
  assumes "messages_ok s" and "queue_inv s"
    and "buffer (shm t) = (buffer (shm s))[tail (shm s) := fill_random_message r k (buffer (shm s) ! tail (shm s))]"
    and "ins t = ins s"
  shows "messages_ok t"
proof -
  have "tail (shm s) < length (buffer (shm s))" using queue_invD(2,6) [OF assms(2)] by simp
  then have "wf_message (fill_random_message r k (buffer (shm s) ! tail (shm s)))"
    using assms(1) by (simp add: messages_ok_def wf_fill_random_message)
  then show ?thesis
    using assms(1,3,4) set_update_subset_insert by (fastforce simp: messages_ok_def)
qed

lemma messages_ok_publish:
  assumes "messages_ok s" and "x < length (buffer (shm s))"
    and "buffer (shm t) = buffer (shm s)" and "ins t = ins s @ [buffer (shm s) ! x]"
  shows "messages_ok t"
  using assms by (auto simp: messages_ok_def)

lemma producer_loop_messages:
  assumes ok: "messages_ok s" and inv: "queue_inv s" and i: "i < length (procs s)"
    and st: "producer_loop rnd i s = Some t"
  shows "messages_ok t"
proof (cases "pc (procs s ! i)")
  case P_fill
  then show ?thesis
    using st by (intro messages_ok_fill [OF ok inv]) (auto simp: producer_loop_def Let_def)
next
  case (P_set_tail x)
  then have "x < length (buffer (shm s))" using queue_invD(2,6,9) [OF inv] i by (auto dest: queue_invD(9) [OF inv])
  then show ?thesis using st P_set_tail by (intro messages_ok_publish [OF ok]) (auto simp: producer_loop_def)
qed (use st in \<open>auto simp: producer_loop_def do_sem_def Let_def split: option.splits if_splits
      intro!: messages_ok_same [OF _ _ ok]\<close>)

lemma consumer_loop_messages: "messages_ok s \<Longrightarrow> consumer_loop i s = Some t \<Longrightarrow> messages_ok t"
  by (auto simp: consumer_loop_def do_sem_def Let_def split: pc.splits option.splits if_splits elim!: messages_ok_same [rotated 2])

lemma fold_sigterm_messages: "buffer (shm (fold send_sigterm is s)) = buffer (shm s) \<and> ins (fold send_sigterm is s) = ins s"
  by (induction "is" arbitrary: s) (auto simp: send_sigterm_def)

lemma command_messages: "messages_ok s \<Longrightarrow> messages_ok (command ch fork_ok s)"
  by (rule messages_ok_same [of _ s])
    (auto simp: command_def spawn_producer_def spawn_consumer_def show_status_def send_sigterm_def
      fold_sigterm_messages Let_def split: option.split)

lemma main_wait_messages: "main_wait s = Some t \<Longrightarrow> buffer (shm t) = buffer (shm s) \<and> ins t = ins s"
  by (auto simp: main_wait_def split: main_pc.splits list.splits if_splits)

lemma step_messages:
  assumes "messages_ok s" and "queue_inv s" and "step rnd s a = Some t"
  shows "messages_ok t"
proof (cases a)
  case (Run i)
  then have "i < length (procs s)" "producer_loop rnd i s = Some t \<or> consumer_loop i s = Some t"
    using assms(3) by (simp_all add: step_def split: if_split_asm)
  then show ?thesis using producer_loop_messages [OF assms(1,2)] consumer_loop_messages [OF assms(1)] by blast
next
  case (Deliver i)
  then show ?thesis
    using assms by (auto simp: step_def deliver_def Let_def split: if_splits intro!: messages_ok_same [OF _ _ assms(1)])
next
  case (Interrupt i)
  then show ?thesis
    using assms
    by (auto simp: step_def interrupt_def Let_def split: if_splits option.splits intro!: messages_ok_same [OF _ _ assms(1)])
next
  case (Getchar ch f)
  then show ?thesis using assms command_messages by (auto simp: step_def split: if_splits)
next
  case Waitpid
  then have "main_wait s = Some t" using assms(3) by (simp add: step_def)
  from main_wait_messages [OF this] show ?thesis using assms(1) messages_ok_same by blast
qed

text \<open>
  C16 (Lab4, the shared segment) What the types promise holds in every reachable state: there are three
  semaphores and ten slots, \<open>head\<close> and \<open>tail\<close> are indices of slots, and every message in a slot, put in or
  taken out has its 256 data bytes, provided the memory of the segment consists of such messages.
\<close>

theorem shm_state_well_typed:
  assumes "reachable (step rnd) (initial_sys mem) s" and "\<forall>k. wf_message (mem k)"
  shows "length (sems s) = SEM_COUNT \<and> length (buffer (shm s)) = QUEUE_SIZE
    \<and> head (shm s) < QUEUE_SIZE \<and> tail (shm s) < QUEUE_SIZE
    \<and> (\<forall>m \<in> set (buffer (shm s)) \<union> set (ins s) \<union> set (outs s). wf_message m)"
proof -
  have start: "messages_ok (initial_sys mem)" using assms(2) by (auto simp: messages_ok_def initial_sys_def Let_def)
  have "messages_ok s"
    using assms(1)
  proof (induction rule: reachable.induct)
    case reach_start
    show ?case by (rule start)
  next
    case (reach_step s a t)
    then show ?case using step_messages shm_reachable_inv by blast
  qed
  moreover have "queue_inv s" using shm_reachable_inv [OF assms(1)] by simp
  ultimately show ?thesis using queue_invD(1-3,6,7) [of s] by (auto simp: messages_ok_def sem_consts QUEUE_SIZE_def)
qed

lemma shm_state_well_typed_witness:
  "\<exists>s m. run (step (\<lambda>_ _. 5)) (initial_sys (\<lambda>_. sample_message)) transfer_run = Some s \<and> outs s = [m] \<and> length (msg_data m) = 256"
proof -
  obtain s m where s: "run (step (\<lambda>_ _. 5)) (initial_sys (\<lambda>_. sample_message)) transfer_run = Some s" "outs s = [m]"
    using transfer_result [of "\<lambda>_ _. 5" "\<lambda>_. sample_message"] by blast
  have "\<forall>k::nat. wf_message ((\<lambda>_. sample_message) k)" by (simp add: wf_message_def sample_message_def)
  from shm_state_well_typed [OF run_reachable [OF s(1)] this] have "wf_message m" using s(2) by simp
  then show ?thesis using s by (auto simp: wf_message_def)
qed

end
