(* ===== verification/Sem_Queue.thy ===== *)
theory Sem_Queue
  imports Message Token_Queue
begin

text \<open>
  Lab5/parent1.c: producer and consumer threads of one process over a ring of \<open>FIXED_SIZE\<close> slots,
  with a pthread mutex, two POSIX semaphores, and a queue size that \<open>main\<close> can change while the
  threads run. As for Lab4, a thread has a program counter between two calls that can block.
  Cancellation is deferred: a thread with a pending \<open>pthread_cancel\<close> may end at a cancellation
  point, here \<open>sem_wait\<close>, \<open>printf\<close> and \<open>sleep\<close>; \<open>pthread_mutex_lock\<close> and \<open>sem_post\<close> are none.
\<close>

section \<open>State\<close>

definition FIXED_SIZE :: nat where "FIXED_SIZE = 1000"
definition QUEUE_SIZE5 :: nat where "QUEUE_SIZE5 = 10"
definition MAX_THREADS :: nat where "MAX_THREADS = 100"

datatype tpc =
    SP_start | SP_wait | SP_lock | SP_fill | SP_tail nat | SP_count | SP_unlock "64 word"
  | SP_post "64 word" | SP_print "64 word" | SP_sleep | SP_cancelled
  | SC_wait | SC_lock | SC_copy | SC_head nat message | SC_count message
  | SC_unlock message "64 word" | SC_post message "64 word" | SC_print message "64 word"
  | SC_sleep | SC_cancelled

record thread =
  at :: tpc
  cancel_pending :: bool
  rand_at :: nat

text \<open>The updates \<open>main\<close> makes under the mutex, and where \<open>main\<close> is.\<close>

datatype update = Inc_producers | Inc_consumers | Dec_producers nat | Dec_consumers nat
  | Inc_size | Dec_size | Show_status

datatype main5 = N_getchar | N_join_producer nat | N_join_consumer nat | N_wait_empty
  | N_lock update | N_update update | N_unlock update | N_join_all "nat list" | N_done

datatype event5 =
    Created_message nat "64 word" | Consumed_message nat "64 word" bool
  | Created_producer nat | Created_consumer nat | Killed_producer5 nat | Killed_consumer5 nat
  | Max_producers | Max_consumers | No_producers5 | No_consumers5
  | Increased int | Decreased int | At_maximum | At_minimum
  | Status5 int int "64 word" "64 word" int int | Unknown5 char | Finished

record globals =
  buffer5 :: "message list"
  head5 :: nat
  tail5 :: nat
  producedCount5 :: "64 word"
  consumedCount5 :: "64 word"
  producers5 :: int
  consumers5 :: int
  current_queue_size :: nat

text \<open>
  \<open>mutex5\<close> is 1 while the mutex is free. \<open>threads\<close> holds every thread ever created, its index is
  its id; \<open>producer_threads\<close> and \<open>consumer_threads\<close> are the arrays of \<open>main\<close> up to their counts.
  \<open>accepted5\<close> and \<open>delivered5\<close> are history variables, as in Lab4.
\<close>

record psys =
  glob :: globals
  mutex5 :: nat
  empty_count5 :: nat
  full_count5 :: nat
  threads :: "thread list"
  main5_at :: main5
  producer_threads :: "nat list"
  consumer_threads :: "nat list"
  out5 :: "event5 list"
  accepted5 :: "message list"
  delivered5 :: "message list"

definition goto :: "nat \<Rightarrow> tpc \<Rightarrow> psys \<Rightarrow> psys" where
  "goto i p s = s\<lparr>threads := (threads s)[i := (threads s ! i)\<lparr>at := p\<rparr>]\<rparr>"

definition say :: "event5 \<Rightarrow> psys \<Rightarrow> psys" where
  "say e s = s\<lparr>out5 := out5 s @ [e]\<rparr>"

section \<open>Calls that may block\<close>

definition lock :: "psys \<Rightarrow> psys option" where
  "lock s = (if mutex5 s = 0 then None else Some (s\<lparr>mutex5 := mutex5 s - 1\<rparr>))"

definition unlock :: "psys \<Rightarrow> psys" where
  "unlock s = s\<lparr>mutex5 := mutex5 s + 1\<rparr>"

definition wait_empty :: "psys \<Rightarrow> psys option" where
  "wait_empty s = (if empty_count5 s = 0 then None else Some (s\<lparr>empty_count5 := empty_count5 s - 1\<rparr>))"

definition wait_full :: "psys \<Rightarrow> psys option" where
  "wait_full s = (if full_count5 s = 0 then None else Some (s\<lparr>full_count5 := full_count5 s - 1\<rparr>))"

definition post_empty :: "psys \<Rightarrow> psys" where
  "post_empty s = s\<lparr>empty_count5 := empty_count5 s + 1\<rparr>"

definition post_full :: "psys \<Rightarrow> psys" where
  "post_full s = s\<lparr>full_count5 := full_count5 s + 1\<rparr>"

section \<open>The threads\<close>

text \<open>Lines 58 to 74.\<close>

definition producer :: "(nat \<Rightarrow> nat \<Rightarrow> int) \<Rightarrow> nat \<Rightarrow> psys \<Rightarrow> psys option" where
  "producer rnd i s =
     (case at (threads s ! i) of
        SP_start \<Rightarrow> Some (goto i SP_wait s)
      | SP_wait \<Rightarrow> map_option (goto i SP_lock) (wait_empty s)
      | SP_lock \<Rightarrow> map_option (goto i SP_fill) (lock s)
      | SP_fill \<Rightarrow>
          (let t = tail5 (glob s);
               k = rand_at (threads s ! i);
               m = fill_random_message5 (rnd i) k (buffer5 (glob s) ! t);
               s = s\<lparr>glob := (glob s)\<lparr>buffer5 := (buffer5 (glob s))[t := m]\<rparr>,
                     threads := (threads s)[i := (threads s ! i)\<lparr>rand_at := k + 258\<rparr>]\<rparr>
           in Some (goto i (SP_tail t) s))
      | SP_tail t \<Rightarrow>
          Some (goto i SP_count
            (s\<lparr>glob := (glob s)\<lparr>tail5 := (tail5 (glob s) + 1) mod FIXED_SIZE\<rparr>,
               accepted5 := accepted5 s @ [buffer5 (glob s) ! t]\<rparr>))
      | SP_count \<Rightarrow>
          (let n = producedCount5 (glob s) + 1
           in Some (goto i (SP_unlock n) (s\<lparr>glob := (glob s)\<lparr>producedCount5 := n\<rparr>\<rparr>)))
      | SP_unlock n \<Rightarrow> Some (goto i (SP_post n) (unlock s))
      | SP_post n \<Rightarrow> Some (goto i (SP_print n) (post_full s))
      | SP_print n \<Rightarrow> Some (goto i SP_sleep (say (Created_message i n) s))
      | SP_sleep \<Rightarrow> Some (goto i SP_wait s)
      | _ \<Rightarrow> None)"

text \<open>Lines 76 to 93.\<close>

definition consumer :: "nat \<Rightarrow> psys \<Rightarrow> psys option" where
  "consumer i s =
     (case at (threads s ! i) of
        SC_wait \<Rightarrow> map_option (goto i SC_lock) (wait_full s)
      | SC_lock \<Rightarrow> map_option (goto i SC_copy) (lock s)
      | SC_copy \<Rightarrow>
          (let h = head5 (glob s) in Some (goto i (SC_head h (buffer5 (glob s) ! h)) s))
      | SC_head h msg \<Rightarrow>
          Some (goto i (SC_count msg)
            (s\<lparr>glob := (glob s)\<lparr>head5 := (head5 (glob s) + 1) mod FIXED_SIZE\<rparr>,
               delivered5 := delivered5 s @ [msg]\<rparr>))
      | SC_count msg \<Rightarrow>
          (let n = consumedCount5 (glob s) + 1
           in Some (goto i (SC_unlock msg n) (s\<lparr>glob := (glob s)\<lparr>consumedCount5 := n\<rparr>\<rparr>)))
      | SC_unlock msg n \<Rightarrow> Some (goto i (SC_post msg n) (unlock s))
      | SC_post msg n \<Rightarrow> Some (goto i (SC_print msg n) (post_empty s))
      | SC_print msg n \<Rightarrow>
          (let ok = verify_hash5 msg in Some (goto i SC_sleep (say (Consumed_message i n ok) s)))
      | SC_sleep \<Rightarrow> Some (goto i SC_wait s)
      | _ \<Rightarrow> None)"

text \<open>The end of a cancelled thread, at one of its cancellation points.\<close>

definition cancelled_at :: "tpc \<Rightarrow> tpc option" where
  "cancelled_at p =
     (case p of
        SP_wait \<Rightarrow> Some SP_cancelled | SP_print n \<Rightarrow> Some SP_cancelled | SP_sleep \<Rightarrow> Some SP_cancelled
      | SC_wait \<Rightarrow> Some SC_cancelled | SC_print m n \<Rightarrow> Some SC_cancelled | SC_sleep \<Rightarrow> Some SC_cancelled
      | _ \<Rightarrow> None)"

definition act_on_cancel :: "nat \<Rightarrow> psys \<Rightarrow> psys option" where
  "act_on_cancel i s =
     (if cancel_pending (threads s ! i)
      then map_option (\<lambda>q. goto i q s) (cancelled_at (at (threads s ! i))) else None)"

definition pthread_cancel :: "nat \<Rightarrow> psys \<Rightarrow> psys" where
  "pthread_cancel i s = s\<lparr>threads := (threads s)[i := (threads s ! i)\<lparr>cancel_pending := True\<rparr>]\<rparr>"

fun finished :: "tpc \<Rightarrow> bool" where
  "finished SP_cancelled = True" | "finished SC_cancelled = True" | "finished p = False"

section \<open>main\<close>

definition new_thread :: "tpc \<Rightarrow> thread" where
  "new_thread p = \<lparr>at = p, cancel_pending = False, rand_at = 0\<rparr>"

text \<open>
  The commands. \<open>pthread_create\<close> is taken to succeed (its result is not looked at), and the
  message with the new thread's id is printed after the update.
\<close>

definition create_producer5 :: "psys \<Rightarrow> psys" where
  "create_producer5 s =
     (if length (producer_threads s) < MAX_THREADS then
        s\<lparr>threads := threads s @ [new_thread SP_start],
          producer_threads := producer_threads s @ [length (threads s)],
          main5_at := N_lock Inc_producers\<rparr>
      else say Max_producers s)"

definition create_consumer5 :: "psys \<Rightarrow> psys" where
  "create_consumer5 s =
     (if length (consumer_threads s) < MAX_THREADS then
        s\<lparr>threads := threads s @ [new_thread SC_wait],
          consumer_threads := consumer_threads s @ [length (threads s)],
          main5_at := N_lock Inc_consumers\<rparr>
      else say Max_consumers s)"

definition kill_producer5 :: "psys \<Rightarrow> psys" where
  "kill_producer5 s =
     (if producer_threads s \<noteq> [] then
        let tid = last (producer_threads s)
        in pthread_cancel tid (s\<lparr>producer_threads := butlast (producer_threads s),
                                 main5_at := N_join_producer tid\<rparr>)
      else say No_producers5 s)"

definition kill_consumer5 :: "psys \<Rightarrow> psys" where
  "kill_consumer5 s =
     (if consumer_threads s \<noteq> [] then
        let tid = last (consumer_threads s)
        in pthread_cancel tid (s\<lparr>consumer_threads := butlast (consumer_threads s),
                                 main5_at := N_join_consumer tid\<rparr>)
      else say No_consumers5 s)"

definition increase_size5 :: "psys \<Rightarrow> psys" where
  "increase_size5 s =
     (if current_queue_size (glob s) < FIXED_SIZE then (post_empty s)\<lparr>main5_at := N_lock Inc_size\<rparr>
      else say At_maximum s)"

definition decrease_size5 :: "psys \<Rightarrow> psys" where
  "decrease_size5 s =
     (if current_queue_size (glob s) > 1 then s\<lparr>main5_at := N_wait_empty\<rparr> else say At_minimum s)"

text \<open>Lines 217 to 220, after the loop: cancel all, join all.\<close>

definition quit5 :: "psys \<Rightarrow> psys" where
  "quit5 s =
     (let ids = producer_threads s @ consumer_threads s
      in (fold pthread_cancel ids s)\<lparr>main5_at := N_join_all ids\<rparr>)"

text \<open>Lines 116 to 215: one character, \<open>None\<close> for \<open>EOF\<close>.\<close>

definition command5 :: "char option \<Rightarrow> psys \<Rightarrow> psys" where
  "command5 ch s =
     (case ch of
        None \<Rightarrow> quit5 s
      | Some c \<Rightarrow>
          if c = CHR 0x0A then s
          else if c = CHR ''p'' then create_producer5 s
          else if c = CHR ''c'' then create_consumer5 s
          else if c = CHR ''P'' then kill_producer5 s
          else if c = CHR ''C'' then kill_consumer5 s
          else if c = CHR ''+'' then increase_size5 s
          else if c = CHR ''-'' then decrease_size5 s
          else if c = CHR ''s'' then s\<lparr>main5_at := N_lock Show_status\<rparr>
          else if c = CHR ''q'' then quit5 s
          else say (Unknown5 c) s)"

definition queue_used5 :: "globals \<Rightarrow> int" where
  "queue_used5 g = (int (tail5 g) - int (head5 g) + int FIXED_SIZE) mod int FIXED_SIZE"

text \<open>What \<open>main\<close> does between locking and unlocking the mutex, and what it prints afterwards.\<close>

definition do_update :: "update \<Rightarrow> psys \<Rightarrow> psys" where
  "do_update u s =
     (let g = glob s in
      case u of
        Inc_producers \<Rightarrow> s\<lparr>glob := g\<lparr>producers5 := producers5 g + 1\<rparr>\<rparr>
      | Inc_consumers \<Rightarrow> s\<lparr>glob := g\<lparr>consumers5 := consumers5 g + 1\<rparr>\<rparr>
      | Dec_producers tid \<Rightarrow> s\<lparr>glob := g\<lparr>producers5 := producers5 g - 1\<rparr>\<rparr>
      | Dec_consumers tid \<Rightarrow> s\<lparr>glob := g\<lparr>consumers5 := consumers5 g - 1\<rparr>\<rparr>
      | Inc_size \<Rightarrow> s\<lparr>glob := g\<lparr>current_queue_size := current_queue_size g + 1\<rparr>\<rparr>
      | Dec_size \<Rightarrow> s\<lparr>glob := g\<lparr>current_queue_size := current_queue_size g - 1\<rparr>\<rparr>
      | Show_status \<Rightarrow> say (Status5 (producers5 g) (consumers5 g) (producedCount5 g)
          (consumedCount5 g) (int (current_queue_size g)) (queue_used5 g)) s)"

definition after_update :: "update \<Rightarrow> psys \<Rightarrow> psys" where
  "after_update u s =
     (case u of
        Inc_producers \<Rightarrow> say (Created_producer (last (producer_threads s))) s
      | Inc_consumers \<Rightarrow> say (Created_consumer (last (consumer_threads s))) s
      | Dec_producers tid \<Rightarrow> say (Killed_producer5 tid) s
      | Dec_consumers tid \<Rightarrow> say (Killed_consumer5 tid) s
      | Inc_size \<Rightarrow> say (Increased (int (current_queue_size (glob s)))) s
      | Dec_size \<Rightarrow> say (Decreased (int (current_queue_size (glob s)))) s
      | Show_status \<Rightarrow> s)"

definition main5_step :: "psys \<Rightarrow> psys option" where
  "main5_step s =
     (case main5_at s of
        N_join_producer tid \<Rightarrow>
          if finished (at (threads s ! tid)) then Some (s\<lparr>main5_at := N_lock (Dec_producers tid)\<rparr>) else None
      | N_join_consumer tid \<Rightarrow>
          if finished (at (threads s ! tid)) then Some (s\<lparr>main5_at := N_lock (Dec_consumers tid)\<rparr>) else None
      | N_wait_empty \<Rightarrow> map_option (\<lambda>s. s\<lparr>main5_at := N_lock Dec_size\<rparr>) (wait_empty s)
      | N_lock u \<Rightarrow> map_option (\<lambda>s. s\<lparr>main5_at := N_update u\<rparr>) (lock s)
      | N_update u \<Rightarrow> Some ((do_update u s)\<lparr>main5_at := N_unlock u\<rparr>)
      | N_unlock u \<Rightarrow> Some (after_update u ((unlock s)\<lparr>main5_at := N_getchar\<rparr>))
      | N_join_all [] \<Rightarrow> Some (say Finished (s\<lparr>main5_at := N_done\<rparr>))
      | N_join_all (i # is) \<Rightarrow>
          if finished (at (threads s ! i)) then Some (s\<lparr>main5_at := N_join_all is\<rparr>) else None
      | _ \<Rightarrow> None)"

text \<open>Lines 19 to 26 and 96 to 103. The ring is static memory; any contents will do.\<close>

definition initial_psys :: "(nat \<Rightarrow> message) \<Rightarrow> psys" where
  "initial_psys mem =
     \<lparr>glob = \<lparr>buffer5 = map mem [0..<FIXED_SIZE], head5 = 0, tail5 = 0, producedCount5 = 0,
              consumedCount5 = 0, producers5 = 0, consumers5 = 0, current_queue_size = QUEUE_SIZE5\<rparr>,
      mutex5 = 1, empty_count5 = QUEUE_SIZE5, full_count5 = 0, threads = [],
      main5_at = N_getchar, producer_threads = [], consumer_threads = [],
      out5 = [], accepted5 = [], delivered5 = []\<rparr>"

section \<open>The system\<close>

datatype action5 = Thread nat | Cancel nat | Input "char option" | Main_goes_on

fun is_producer5 :: "tpc \<Rightarrow> bool" where
  "is_producer5 SP_start = True" | "is_producer5 SP_wait = True" | "is_producer5 SP_lock = True"
| "is_producer5 SP_fill = True" | "is_producer5 (SP_tail t) = True" | "is_producer5 SP_count = True"
| "is_producer5 (SP_unlock n) = True" | "is_producer5 (SP_post n) = True"
| "is_producer5 (SP_print n) = True" | "is_producer5 SP_sleep = True"
| "is_producer5 SP_cancelled = True" | "is_producer5 p = False"

definition step5 :: "(nat \<Rightarrow> nat \<Rightarrow> int) \<Rightarrow> psys \<Rightarrow> action5 \<Rightarrow> psys option" where
  "step5 rnd s a =
     (case a of
        Thread i \<Rightarrow> if i < length (threads s)
          then (if is_producer5 (at (threads s ! i)) then producer rnd i s else consumer i s)
          else None
      | Cancel i \<Rightarrow> if i < length (threads s) then act_on_cancel i s else None
      | Input ch \<Rightarrow> if main5_at s = N_getchar then Some (command5 ch s) else None
      | Main_goes_on \<Rightarrow> main5_step s)"

end
