(* ===== verification/Sem_Queue_Correct.thy ===== *)
theory Sem_Queue_Correct
  imports Sem_Queue
begin

text \<open>
  Correctness of Lab5/parent1.c: it follows the protocol of \<open>Token_Queue\<close> with a pool of permits
  whose size follows \<open>current_queue_size\<close>, and with \<open>main\<close> as one more holder of the mutex.
\<close>

section \<open>What the program points hold\<close>

fun in_crit5 :: "tpc \<Rightarrow> bool" where
  "in_crit5 SP_fill = True" | "in_crit5 (SP_tail t) = True" | "in_crit5 SP_count = True"
| "in_crit5 (SP_unlock n) = True"
| "in_crit5 SC_copy = True" | "in_crit5 (SC_head h m) = True" | "in_crit5 (SC_count m) = True"
| "in_crit5 (SC_unlock m n) = True" | "in_crit5 p = False"

fun owns_slot5 :: "tpc \<Rightarrow> bool" where
  "owns_slot5 SP_lock = True" | "owns_slot5 SP_fill = True" | "owns_slot5 (SP_tail t) = True"
| "owns_slot5 p = False"

fun unposted_full5 :: "tpc \<Rightarrow> bool" where
  "unposted_full5 SP_count = True" | "unposted_full5 (SP_unlock n) = True"
| "unposted_full5 (SP_post n) = True" | "unposted_full5 p = False"

fun owns_message5 :: "tpc \<Rightarrow> bool" where
  "owns_message5 SC_lock = True" | "owns_message5 SC_copy = True"
| "owns_message5 (SC_head h m) = True" | "owns_message5 p = False"

fun unposted_empty5 :: "tpc \<Rightarrow> bool" where
  "unposted_empty5 (SC_count m) = True" | "unposted_empty5 (SC_unlock m n) = True"
| "unposted_empty5 (SC_post m n) = True" | "unposted_empty5 p = False"

fun local_ok5 :: "message list \<Rightarrow> nat \<Rightarrow> nat \<Rightarrow> tpc \<Rightarrow> bool" where
  "local_ok5 b h t (SP_tail x) = (x = t \<and> verify_hash5 (b ! t))"
| "local_ok5 b h t (SC_head x m) = (x = h \<and> m = b ! h)"
| "local_ok5 b h t (SC_count m) = verify_hash5 m"
| "local_ok5 b h t (SC_unlock m n) = verify_hash5 m"
| "local_ok5 b h t (SC_post m n) = verify_hash5 m"
| "local_ok5 b h t (SC_print m n) = verify_hash5 m"
| "local_ok5 b h t p = True"

interpretation tq5: token_queue FIXED_SIZE in_crit5 owns_slot5 unposted_full5 owns_message5
  unposted_empty5 verify_hash5 local_ok5
proof unfold_locales
  show "0 < FIXED_SIZE" by (simp add: FIXED_SIZE_def)
next
  show "\<And>p b h t b' h' t'. \<not> in_crit5 p \<Longrightarrow> local_ok5 b h t p \<Longrightarrow> local_ok5 b' h' t' p"
    by (case_tac p) auto
qed

section \<open>The invariant of the queue\<close>

definition pcs5 :: "psys \<Rightarrow> tpc list" where
  "pcs5 s = map at (threads s)"

definition view5 :: "psys \<Rightarrow> message queue_view" where
  "view5 s = \<lparr>lock_free = mutex5 s, slots = buffer5 (glob s), oldest = head5 (glob s),
     vacant = tail5 (glob s), put_in = accepted5 s, taken_out = delivered5 s,
     fill_count = full_count5 s, empty_count = empty_count5 s\<rparr>"

text \<open>
  \<open>main\<close> holds the mutex around an update; the permits are \<open>current_queue_size\<close>, except between
  the semaphore operation of a change of the size and the change.
\<close>

definition main_holds :: "psys \<Rightarrow> nat" where
  "main_holds s = (case main5_at s of N_update u \<Rightarrow> 1 | N_unlock u \<Rightarrow> 1 | _ \<Rightarrow> 0)"

definition pool :: "psys \<Rightarrow> nat" where
  "pool s = (let n = current_queue_size (glob s) in
     case main5_at s of
       N_lock u \<Rightarrow> (if u = Inc_size then n + 1 else if u = Dec_size then n - 1 else n)
     | N_update u \<Rightarrow> (if u = Inc_size then n + 1 else if u = Dec_size then n - 1 else n)
     | _ \<Rightarrow> n)"

definition size_ok :: "psys \<Rightarrow> bool" where
  "size_ok s \<longleftrightarrow> 1 \<le> current_queue_size (glob s) \<and> current_queue_size (glob s) \<le> FIXED_SIZE \<and>
     (main5_at s \<in> {N_lock Inc_size, N_update Inc_size} \<longrightarrow> current_queue_size (glob s) < FIXED_SIZE) \<and>
     (main5_at s \<in> {N_wait_empty, N_lock Dec_size, N_update Dec_size} \<longrightarrow> 1 < current_queue_size (glob s))"

definition queue_inv5 :: "psys \<Rightarrow> bool" where
  "queue_inv5 s \<longleftrightarrow> tq5.qinv (main_holds s) (pool s) (view5 s) (pcs5 s) \<and> size_ok s"

definition stored5 :: "psys \<Rightarrow> nat" where
  "stored5 s = full_count5 s + cnt unposted_full5 (pcs5 s) + cnt owns_message5 (pcs5 s)"

lemma stored5_eq: "tq5.stored (view5 s) (pcs5 s) = stored5 s"
  by (simp add: tq5.stored_def stored5_def view5_def)

lemma goto_fields [simp]:
  "glob (goto i p s) = glob s" "mutex5 (goto i p s) = mutex5 s"
  "empty_count5 (goto i p s) = empty_count5 s" "full_count5 (goto i p s) = full_count5 s"
  "main5_at (goto i p s) = main5_at s" "producer_threads (goto i p s) = producer_threads s"
  "consumer_threads (goto i p s) = consumer_threads s" "out5 (goto i p s) = out5 s"
  "accepted5 (goto i p s) = accepted5 s" "delivered5 (goto i p s) = delivered5 s"
  "length (threads (goto i p s)) = length (threads s)"
  by (simp_all add: goto_def)

lemma say_fields [simp]:
  "glob (say e s) = glob s" "mutex5 (say e s) = mutex5 s"
  "empty_count5 (say e s) = empty_count5 s" "full_count5 (say e s) = full_count5 s"
  "main5_at (say e s) = main5_at s" "producer_threads (say e s) = producer_threads s"
  "consumer_threads (say e s) = consumer_threads s" "out5 (say e s) = out5 s @ [e]"
  "accepted5 (say e s) = accepted5 s" "delivered5 (say e s) = delivered5 s"
  "threads (say e s) = threads s"
  by (simp_all add: say_def)

lemma length_pcs5 [simp]: "length (pcs5 s) = length (threads s)"
  by (simp add: pcs5_def)

lemma pcs5_nth: "i < length (threads s) \<Longrightarrow> pcs5 s ! i = at (threads s ! i)"
  by (simp add: pcs5_def)

lemma pcs5_cong: "threads s = threads t \<Longrightarrow> pcs5 s = pcs5 t"
  by (simp add: pcs5_def)

lemma pcs5_goto [simp]: "pcs5 (goto i p s) = (pcs5 s)[i := p]"
  by (simp add: pcs5_def goto_def map_update)

lemma queue_inv5D:
  assumes "queue_inv5 s"
  shows "length (buffer5 (glob s)) = FIXED_SIZE" "head5 (glob s) < FIXED_SIZE"
    "mutex5 s + main_holds s + cnt in_crit5 (pcs5 s) = 1"
    "full_count5 s + empty_count5 s + cnt owns_slot5 (pcs5 s) + cnt unposted_full5 (pcs5 s)
       + cnt owns_message5 (pcs5 s) + cnt unposted_empty5 (pcs5 s) = pool s"
    "tail5 (glob s) = (head5 (glob s) + stored5 s) mod FIXED_SIZE"
    "accepted5 s = delivered5 s @ ring_contents FIXED_SIZE (buffer5 (glob s)) (head5 (glob s)) (stored5 s)"
    "\<forall>m \<in> set (accepted5 s). verify_hash5 m"
    "i < length (threads s) \<Longrightarrow>
       local_ok5 (buffer5 (glob s)) (head5 (glob s)) (tail5 (glob s)) (at (threads s ! i))"
    "stored5 s + cnt owns_slot5 (pcs5 s) \<le> pool s" "pool s \<le> FIXED_SIZE" "size_ok s"
  using assms tq5.stored_bound [of "main_holds s" "pool s" "view5 s" "pcs5 s"]
  unfolding queue_inv5_def tq5.qinv_def stored5_eq
  by (auto simp: tq5.permits_def view5_def pcs5_nth)

text \<open>What a step of a thread leaves alone.\<close>

definition thread_frame :: "psys \<Rightarrow> psys \<Rightarrow> bool" where
  "thread_frame s t \<longleftrightarrow> main5_at t = main5_at s \<and> producer_threads t = producer_threads s \<and>
     consumer_threads t = consumer_threads s \<and> producers5 (glob t) = producers5 (glob s) \<and>
     consumers5 (glob t) = consumers5 (glob s) \<and> current_queue_size (glob t) = current_queue_size (glob s) \<and>
     length (threads t) = length (threads s)"

lemma thread_frame_same:
  "thread_frame s t \<Longrightarrow> main_holds t = main_holds s \<and> pool t = pool s \<and> size_ok t = size_ok s"
  by (simp add: thread_frame_def main_holds_def pool_def size_ok_def)

lemmas call_defs = lock_def unlock_def wait_empty_def wait_full_def post_empty_def post_full_def

lemma loop5_frame:
  "producer rnd i s = Some t \<Longrightarrow> thread_frame s t"
  "consumer i s = Some t \<Longrightarrow> thread_frame s t"
  "act_on_cancel i s = Some t \<Longrightarrow> thread_frame s t"
  by (auto simp: producer_def consumer_def act_on_cancel_def thread_frame_def call_defs Let_def
      split: tpc.splits if_splits)

lemma queue_inv5_move:
  "queue_inv5 s \<Longrightarrow> thread_frame s t \<Longrightarrow>
   tq5.qinv (main_holds s) (pool s) (view5 t) (pcs5 t) \<Longrightarrow> queue_inv5 t"
  by (simp add: queue_inv5_def thread_frame_same)

lemma queue_inv5_goto:
  assumes inv: "queue_inv5 s" and fr: "thread_frame s (goto i q u)"
    and i: "i < length (threads s)" and p: "at (threads s ! i) = p"
    and u: "threads u = threads s"
    and same: "head5 (glob u) = head5 (glob s)" "tail5 (glob u) = tail5 (glob s)"
      "buffer5 (glob u) = buffer5 (glob s)" "accepted5 u = accepted5 s" "delivered5 u = delivered5 s"
    and lock: "mutex5 u + of_bool (in_crit5 q) = mutex5 s + of_bool (in_crit5 p)"
    and tokens: "full_count5 u + empty_count5 u + tq5.held q = full_count5 s + empty_count5 s + tq5.held p"
    and fill: "full_count5 u + tq5.stored_by q = full_count5 s + tq5.stored_by p"
    and loc: "local_ok5 (buffer5 (glob s)) (head5 (glob s)) (tail5 (glob s)) p \<Longrightarrow>
      local_ok5 (buffer5 (glob s)) (head5 (glob s)) (tail5 (glob s)) q"
  shows "queue_inv5 (goto i q u)"
proof (rule queue_inv5_move [OF inv fr])
  have "tq5.qinv (main_holds s) (pool s) (view5 (goto i q u)) ((pcs5 s)[i := q])"
    by (rule tq5.quiet [of _ _ "view5 s" "pcs5 s" i p])
      (use inv i p same lock tokens fill loc in \<open>simp_all add: queue_inv5_def view5_def pcs5_nth\<close>)
  then show "tq5.qinv (main_holds s) (pool s) (view5 (goto i q u)) (pcs5 (goto i q u))"
    by (simp add: pcs5_cong [OF u])
qed

lemmas moves5 = tq5.held_def tq5.stored_by_def

lemma producer_fill_inv5:
  assumes inv: "queue_inv5 s" and i: "i < length (threads s)" and p: "at (threads s ! i) = SP_fill"
    and st: "producer rnd i s = Some t"
  shows "queue_inv5 t"
proof (rule queue_inv5_move [OF inv loop5_frame(1) [OF st]])
  let ?m = "fill_random_message5 (rnd i) (rand_at (threads s ! i)) (buffer5 (glob s) ! tail5 (glob s))"
  have t: "pcs5 t = (pcs5 s)[i := SP_tail (tail5 (glob s))]"
    "view5 t = (view5 s)\<lparr>slots := (slots (view5 s))[vacant (view5 s) := ?m]\<rparr>"
    using st p by (auto simp: producer_def Let_def pcs5_def goto_def map_update view5_def)
  have lt: "tail5 (glob s) < length (buffer5 (glob s))" using queue_inv5D(1,2,5) [OF inv] by simp
  show "tq5.qinv (main_holds s) (pool s) (view5 t) (pcs5 t)"
    unfolding t by (rule tq5.write_slot [where p = SP_fill])
      (use inv i p lt in \<open>simp_all add: queue_inv5_def pcs5_nth moves5 view5_def
        fill_random_message5_eq verify_hash5_eq fill_random_message_verifies\<close>)
qed

lemma producer_publish_inv5:
  assumes inv: "queue_inv5 s" and i: "i < length (threads s)" and p: "at (threads s ! i) = SP_tail x"
    and st: "producer rnd i s = Some t"
  shows "queue_inv5 t"
proof (rule queue_inv5_move [OF inv loop5_frame(1) [OF st]])
  have x: "x = tail5 (glob s)" and v: "verify_hash5 (buffer5 (glob s) ! tail5 (glob s))"
    using queue_inv5D(8) [OF inv i] by (auto simp: p)
  have t: "pcs5 t = (pcs5 s)[i := SP_count]"
    "view5 t = (view5 s)\<lparr>vacant := (vacant (view5 s) + 1) mod FIXED_SIZE,
       put_in := put_in (view5 s) @ [slots (view5 s) ! vacant (view5 s)]\<rparr>"
    using st p by (auto simp: producer_def Let_def pcs5_def goto_def map_update view5_def x)
  show "tq5.qinv (main_holds s) (pool s) (view5 t) (pcs5 t)"
    unfolding t by (rule tq5.publish [where p = "SP_tail x"])
      (use inv i p v in \<open>simp_all add: queue_inv5_def pcs5_nth moves5 view5_def\<close>)
qed

lemma producer_inv5:
  assumes inv: "queue_inv5 s" and i: "i < length (threads s)" and st: "producer rnd i s = Some t"
  shows "queue_inv5 t"
proof (cases "at (threads s ! i)")
  case SP_fill
  then show ?thesis by (rule producer_fill_inv5 [OF inv i _ st])
next
  case (SP_tail x)
  then show ?thesis by (rule producer_publish_inv5 [OF inv i _ st])
qed (use st loop5_frame(1) [OF st] in \<open>auto simp: producer_def call_defs moves5 Let_def split: if_splits
      intro!: queue_inv5_goto [OF inv _ i]\<close>)

lemma consumer_take_inv5:
  assumes inv: "queue_inv5 s" and i: "i < length (threads s)" and p: "at (threads s ! i) = SC_head h m"
    and st: "consumer i s = Some t"
  shows "queue_inv5 t"
proof (rule queue_inv5_move [OF inv loop5_frame(2) [OF st]])
  have h: "h = head5 (glob s)" and m: "m = buffer5 (glob s) ! head5 (glob s)"
    using queue_inv5D(8) [OF inv i] by (auto simp: p)
  have t: "pcs5 t = (pcs5 s)[i := SC_count m]"
    "view5 t = (view5 s)\<lparr>oldest := (oldest (view5 s) + 1) mod FIXED_SIZE,
       taken_out := taken_out (view5 s) @ [slots (view5 s) ! oldest (view5 s)]\<rparr>"
    using st p by (auto simp: consumer_def Let_def pcs5_def goto_def map_update view5_def h m)
  show "tq5.qinv (main_holds s) (pool s) (view5 t) (pcs5 t)"
    unfolding t by (rule tq5.take_oldest [where p = "SC_head h m"])
      (use inv i p in \<open>simp_all add: queue_inv5_def pcs5_nth moves5 view5_def m\<close>)
qed

lemma consumer_inv5:
  assumes inv: "queue_inv5 s" and i: "i < length (threads s)" and st: "consumer i s = Some t"
  shows "queue_inv5 t"
proof (cases "at (threads s ! i)")
  case (SC_head h m)
  then show ?thesis by (rule consumer_take_inv5 [OF inv i _ st])
qed (use st loop5_frame(2) [OF st] in \<open>auto simp: consumer_def call_defs moves5 Let_def split: if_splits
      intro!: queue_inv5_goto [OF inv _ i]\<close>)

lemma cancel_inv5:
  assumes inv: "queue_inv5 s" and i: "i < length (threads s)" and st: "act_on_cancel i s = Some t"
  shows "queue_inv5 t"
  using st loop5_frame(3) [OF st]
  by (cases "at (threads s ! i)") (auto simp: act_on_cancel_def cancelled_at_def moves5 split: if_splits
      intro!: queue_inv5_goto [OF inv _ i])

section \<open>The commands\<close>

lemma pthread_cancel_fields [simp]:
  "glob (pthread_cancel i s) = glob s" "mutex5 (pthread_cancel i s) = mutex5 s"
  "empty_count5 (pthread_cancel i s) = empty_count5 s" "full_count5 (pthread_cancel i s) = full_count5 s"
  "main5_at (pthread_cancel i s) = main5_at s" "producer_threads (pthread_cancel i s) = producer_threads s"
  "consumer_threads (pthread_cancel i s) = consumer_threads s" "out5 (pthread_cancel i s) = out5 s"
  "accepted5 (pthread_cancel i s) = accepted5 s" "delivered5 (pthread_cancel i s) = delivered5 s"
  "length (threads (pthread_cancel i s)) = length (threads s)" "pcs5 (pthread_cancel i s) = pcs5 s"
proof -
  show "pcs5 (pthread_cancel i s) = pcs5 s"
    by (cases "i < length (threads s)")
      (simp_all add: pthread_cancel_def pcs5_def map_update list_update_same_conv list_update_beyond not_less)
qed (simp_all add: pthread_cancel_def)

lemma fold_cancel_fields [simp]:
  "glob (fold pthread_cancel is s) = glob s" "mutex5 (fold pthread_cancel is s) = mutex5 s"
  "empty_count5 (fold pthread_cancel is s) = empty_count5 s"
  "full_count5 (fold pthread_cancel is s) = full_count5 s"
  "main5_at (fold pthread_cancel is s) = main5_at s"
  "producer_threads (fold pthread_cancel is s) = producer_threads s"
  "consumer_threads (fold pthread_cancel is s) = consumer_threads s"
  "out5 (fold pthread_cancel is s) = out5 s"
  "accepted5 (fold pthread_cancel is s) = accepted5 s"
  "delivered5 (fold pthread_cancel is s) = delivered5 s"
  "length (threads (fold pthread_cancel is s)) = length (threads s)"
  "pcs5 (fold pthread_cancel is s) = pcs5 s"
  by (induction "is" arbitrary: s) simp_all

lemma queue_inv5_outside:
  assumes inv: "queue_inv5 s" and size: "size_ok t"
    and same: "buffer5 (glob t) = buffer5 (glob s)" "head5 (glob t) = head5 (glob s)"
      "tail5 (glob t) = tail5 (glob s)" "accepted5 t = accepted5 s" "delivered5 t = delivered5 s"
      "full_count5 t = full_count5 s"
    and lock: "mutex5 t + main_holds t = mutex5 s + main_holds s"
    and pool: "empty_count5 t + pool s = empty_count5 s + pool t" "pool t \<le> FIXED_SIZE"
    and pcs: "pcs5 t = pcs5 s \<or> pcs5 t = pcs5 s @ [SP_start] \<or> pcs5 t = pcs5 s @ [SC_wait]"
  shows "queue_inv5 t"
proof -
  have q: "tq5.qinv (main_holds s) (pool s) (view5 s) (pcs5 s)" using inv by (simp add: queue_inv5_def)
  have "tq5.qinv (main_holds s) (pool s) (view5 s) (pcs5 t)"
    using pcs q tq5.spawn [OF q, of SP_start] tq5.spawn [OF q, of SC_wait] by (auto simp: tq5.held_def)
  then have "tq5.qinv (main_holds t) (pool t) (view5 t) (pcs5 t)"
    by (rule tq5.outside) (use same lock pool in \<open>simp_all add: view5_def\<close>)
  with size show ?thesis by (simp add: queue_inv5_def)
qed

lemma pcs5_simps [simp]:
  "pcs5 (s\<lparr>main5_at := x\<rparr>) = pcs5 s" "pcs5 (s\<lparr>producer_threads := y\<rparr>) = pcs5 s"
  "pcs5 (s\<lparr>consumer_threads := y\<rparr>) = pcs5 s" "pcs5 (s\<lparr>glob := d\<rparr>) = pcs5 s"
  "pcs5 (s\<lparr>empty_count5 := e\<rparr>) = pcs5 s" "pcs5 (s\<lparr>mutex5 := e\<rparr>) = pcs5 s"
  "pcs5 (say ev s) = pcs5 s"
  "pcs5 (s\<lparr>threads := ths\<rparr>) = map at ths"
  by (simp_all add: pcs5_def)

lemma pcs5_new [simp]: "map at (threads s @ [new_thread q]) = pcs5 s @ [q]"
  by (simp add: pcs5_def new_thread_def)

text \<open>What a command can do.\<close>

lemma command5_cases:
  obtains "command5 ch s = s" | "command5 ch s = create_producer5 s" | "command5 ch s = create_consumer5 s"
  | "command5 ch s = kill_producer5 s" | "command5 ch s = kill_consumer5 s"
  | "command5 ch s = increase_size5 s" | "command5 ch s = decrease_size5 s"
  | "command5 ch s = s\<lparr>main5_at := N_lock Show_status\<rparr>" | "command5 ch s = quit5 s"
  | c where "command5 ch s = say (Unknown5 c) s"
proof -
  have "command5 ch s \<in> {s, create_producer5 s, create_consumer5 s, kill_producer5 s, kill_consumer5 s,
      increase_size5 s, decrease_size5 s, s\<lparr>main5_at := N_lock Show_status\<rparr>, quit5 s}
      \<union> range (\<lambda>c. say (Unknown5 c) s)"
    unfolding command5_def by (cases ch; simp only: option.case; (intro if_in)?; blast)
  then show thesis using that by blast
qed

lemmas command5_parts = create_producer5_def create_consumer5_def kill_producer5_def
  kill_consumer5_def increase_size5_def decrease_size5_def quit5_def post_empty_def Let_def

lemma command5_fields [simp]:
  "accepted5 (command5 ch s) = accepted5 s" "delivered5 (command5 ch s) = delivered5 s"
  "full_count5 (command5 ch s) = full_count5 s" "mutex5 (command5 ch s) = mutex5 s"
  "glob (command5 ch s) = glob s"
  by (cases rule: command5_cases [of ch s]; simp add: command5_parts)+

lemma command5_pcs:
  "pcs5 (command5 ch s) = pcs5 s \<or> pcs5 (command5 ch s) = pcs5 s @ [SP_start] \<or>
   pcs5 (command5 ch s) = pcs5 s @ [SC_wait]"
  by (cases rule: command5_cases [of ch s];
      simp add: command5_parts pcs5_def [of s, symmetric] new_thread_def)

lemma command5_pool:
  assumes m: "main5_at s = N_getchar"
  shows "main_holds (command5 ch s) = 0" "size_ok s \<Longrightarrow> size_ok (command5 ch s)"
    "empty_count5 (command5 ch s) + pool s = empty_count5 s + pool (command5 ch s)"
    "size_ok s \<Longrightarrow> pool (command5 ch s) \<le> FIXED_SIZE"
  by (cases rule: command5_cases [of ch s];
      simp add: command5_parts m main_holds_def size_ok_def pool_def)+

lemma command5_inv:
  assumes inv: "queue_inv5 s" and m: "main5_at s = N_getchar"
  shows "queue_inv5 (command5 ch s)"
proof (rule queue_inv5_outside [OF inv])
  show "pcs5 (command5 ch s) = pcs5 s \<or> pcs5 (command5 ch s) = pcs5 s @ [SP_start] \<or>
    pcs5 (command5 ch s) = pcs5 s @ [SC_wait]" by (rule command5_pcs)
qed (use command5_pool [OF m] queue_inv5D(11) [OF inv] m in \<open>simp_all add: main_holds_def\<close>)

lemma main5_step_inv:
  assumes inv: "queue_inv5 s" and st: "main5_step s = Some t"
  shows "queue_inv5 t"
proof -
  have z: "size_ok s" "pool s \<le> FIXED_SIZE" using queue_inv5D(10,11) [OF inv] by simp_all
  note main_defs = main5_step_def size_ok_def main_holds_def pool_def
  show ?thesis
  proof (cases "main5_at s")
    case (N_join_producer i)
    then show ?thesis using z st
      by (intro queue_inv5_outside [OF inv]) (auto simp: main_defs split: if_splits)
  next
    case (N_join_consumer i)
    then show ?thesis using z st
      by (intro queue_inv5_outside [OF inv]) (auto simp: main_defs split: if_splits)
  next
    case N_wait_empty
    then show ?thesis using z st
      by (intro queue_inv5_outside [OF inv]) (auto simp: main_defs wait_empty_def split: if_splits)
  next
    case (N_lock u)
    then show ?thesis using z st
      by (intro queue_inv5_outside [OF inv]) (auto simp: main_defs lock_def split: if_splits)
  next
    case (N_update u)
    then show ?thesis using z st
      by (cases u; clarsimp simp: main5_step_def do_update_def Let_def; intro queue_inv5_outside [OF inv])
        (simp_all add: main_defs, linarith)
  next
    case (N_unlock u)
    then show ?thesis using z st
      by (cases u; clarsimp simp: main5_step_def after_update_def unlock_def; intro queue_inv5_outside [OF inv])
        (simp_all add: main_defs)
  next
    case (N_join_all "is")
    then show ?thesis using z st
      by (intro queue_inv5_outside [OF inv])
        (auto simp: main_defs split: list.splits if_splits)
  qed (use st in \<open>simp_all add: main5_step_def\<close>)
qed

lemma initial_queue_inv5: "queue_inv5 (initial_psys mem)"
  by (simp add: queue_inv5_def tq5.qinv_def tq5.stored_def tq5.permits_def view5_def initial_psys_def
      pcs5_def QUEUE_SIZE5_def main_holds_def pool_def size_ok_def)
    (simp add: FIXED_SIZE_def)

lemma step5_queue_inv: "queue_inv5 s \<Longrightarrow> step5 rnd s a = Some t \<Longrightarrow> queue_inv5 t"
  by (auto simp: step5_def split: action5.splits if_splits
      intro: producer_inv5 consumer_inv5 cancel_inv5 command5_inv main5_step_inv)

section \<open>Counters, events and the threads of main\<close>

fun at_count_p5 :: "tpc \<Rightarrow> bool" where
  "at_count_p5 SP_count = True" | "at_count_p5 p = False"

fun at_count_c5 :: "tpc \<Rightarrow> bool" where
  "at_count_c5 (SC_count m) = True" | "at_count_c5 p = False"

definition count_inv5 :: "psys \<Rightarrow> bool" where
  "count_inv5 s \<longleftrightarrow>
     producedCount5 (glob s) + of_nat (cnt at_count_p5 (pcs5 s)) = of_nat (length (accepted5 s)) \<and>
     consumedCount5 (glob s) + of_nat (cnt at_count_c5 (pcs5 s)) = of_nat (length (delivered5 s))"

lemma count_inv5_goto:
  assumes "count_inv5 s" and i: "i < length (threads s)" and p: "at (threads s ! i) = p"
    and u: "threads u = (threads s)[i := r]" "at r = p"
    and "producedCount5 (glob u) + of_bool (at_count_p5 q) + of_nat (length (accepted5 s)) =
         producedCount5 (glob s) + of_bool (at_count_p5 p) + of_nat (length (accepted5 u))"
    and "consumedCount5 (glob u) + of_bool (at_count_c5 q) + of_nat (length (delivered5 s)) =
         consumedCount5 (glob s) + of_bool (at_count_c5 p) + of_nat (length (delivered5 u))"
  shows "count_inv5 (goto i q u)"
proof -
  have t: "pcs5 (goto i q u) = (pcs5 s)[i := q]"
    using i by (simp add: pcs5_def goto_def u map_update)
  have upd: "of_nat (cnt P ((pcs5 s)[i := q])) + of_bool (P p) =
      (of_nat (cnt P (pcs5 s)) + of_bool (P q) :: 64 word)" for P
    using arg_cong [OF cnt_update [of i "pcs5 s" P q], of "of_nat :: nat \<Rightarrow> 64 word"]
      i p pcs5_nth [OF i] by simp
  show ?thesis
    using counter_move [OF _ assms(6) upd] counter_move [OF _ assms(7) upd] assms(1)
    unfolding count_inv5_def t by simp
qed

lemma producer_count5:
  "count_inv5 s \<Longrightarrow> i < length (threads s) \<Longrightarrow> producer rnd i s = Some t \<Longrightarrow> count_inv5 t"
  by (cases "at (threads s ! i)")
    (auto simp: producer_def call_defs Let_def split: if_splits intro!: count_inv5_goto [of s i])

lemma consumer_count5:
  "count_inv5 s \<Longrightarrow> i < length (threads s) \<Longrightarrow> consumer i s = Some t \<Longrightarrow> count_inv5 t"
  by (cases "at (threads s ! i)")
    (auto simp: consumer_def call_defs Let_def split: if_splits intro!: count_inv5_goto [of s i])

lemma cancel_count5:
  "count_inv5 s \<Longrightarrow> i < length (threads s) \<Longrightarrow> act_on_cancel i s = Some t \<Longrightarrow> count_inv5 t"
  by (cases "at (threads s ! i)")
    (auto simp: act_on_cancel_def cancelled_at_def split: if_splits intro!: count_inv5_goto [of s i])

lemma count_inv5_same:
  assumes "count_inv5 s" and "producedCount5 (glob t) = producedCount5 (glob s)"
    "consumedCount5 (glob t) = consumedCount5 (glob s)" "accepted5 t = accepted5 s"
    "delivered5 t = delivered5 s"
    and "pcs5 t = pcs5 s \<or> pcs5 t = pcs5 s @ [SP_start] \<or> pcs5 t = pcs5 s @ [SC_wait]"
  shows "count_inv5 t"
  using assms by (auto simp: count_inv5_def)

lemma command5_count: "count_inv5 s \<Longrightarrow> count_inv5 (command5 ch s)"
  by (erule count_inv5_same) (simp_all add: command5_pcs)

lemma main5_step_frame:
  assumes "main5_step s = Some t"
  shows "buffer5 (glob t) = buffer5 (glob s)" "head5 (glob t) = head5 (glob s)"
    "tail5 (glob t) = tail5 (glob s)" "producedCount5 (glob t) = producedCount5 (glob s)"
    "consumedCount5 (glob t) = consumedCount5 (glob s)"
    "accepted5 t = accepted5 s" "delivered5 t = delivered5 s" "threads t = threads s"
    "producer_threads t = producer_threads s" "consumer_threads t = consumer_threads s"
  using assms
  by (auto simp: main5_step_def call_defs do_update_def after_update_def Let_def
      split: main5.splits update.splits list.splits if_splits)

lemma main5_step_count: "count_inv5 s \<Longrightarrow> main5_step s = Some t \<Longrightarrow> count_inv5 t"
  by (erule count_inv5_same) (simp_all add: main5_step_frame pcs5_cong [OF main5_step_frame(8)])

lemma step5_count: "count_inv5 s \<Longrightarrow> step5 rnd s a = Some t \<Longrightarrow> count_inv5 t"
  by (auto simp: step5_def split: action5.splits if_splits
      intro: producer_count5 consumer_count5 cancel_count5 command5_count main5_step_count)

text \<open>What is printed of a consumed message.\<close>

fun event_ok5 :: "event5 \<Rightarrow> bool" where
  "event_ok5 (Consumed_message i n ok) = ok" | "event_ok5 e = True"

definition out_inv5 :: "psys \<Rightarrow> bool" where
  "out_inv5 s \<longleftrightarrow> (\<forall>e \<in> set (out5 s). event_ok5 e)"

lemma loop5_out:
  assumes "queue_inv5 s" and i: "i < length (threads s)" and "out_inv5 s"
  shows "producer rnd i s = Some t \<Longrightarrow> out_inv5 t" and "consumer i s = Some t \<Longrightarrow> out_inv5 t"
    and "act_on_cancel i s = Some t \<Longrightarrow> out_inv5 t"
  using queue_inv5D(8) [OF assms(1) i] assms(3)
  by (auto simp: producer_def consumer_def act_on_cancel_def call_defs Let_def out_inv5_def
      split: tpc.splits if_splits)

lemma command5_out: "out_inv5 s \<Longrightarrow> out_inv5 (command5 ch s)"
  by (cases rule: command5_cases [of ch s]; simp add: command5_parts out_inv5_def)

lemma main5_step_out: "out_inv5 s \<Longrightarrow> main5_step s = Some t \<Longrightarrow> out_inv5 t"
  by (auto simp: main5_step_def call_defs do_update_def after_update_def Let_def out_inv5_def
      split: main5.splits update.splits list.splits if_splits)

lemma step5_out: "queue_inv5 s \<Longrightarrow> out_inv5 s \<Longrightarrow> step5 rnd s a = Some t \<Longrightarrow> out_inv5 t"
  by (auto simp: step5_def split: action5.splits if_splits
      intro: loop5_out command5_out main5_step_out)

lemma loop5_hist:
  "producer rnd i s = Some t \<Longrightarrow> hist_step (accepted5 s) (delivered5 s) (accepted5 t) (delivered5 t)"
  "consumer i s = Some t \<Longrightarrow> hist_step (accepted5 s) (delivered5 s) (accepted5 t) (delivered5 t)"
  "act_on_cancel i s = Some t \<Longrightarrow> hist_step (accepted5 s) (delivered5 s) (accepted5 t) (delivered5 t)"
  by (auto simp: producer_def consumer_def act_on_cancel_def call_defs Let_def
      split: tpc.splits if_splits)

lemma step5_hist:
  "step5 rnd s a = Some t \<Longrightarrow> hist_step (accepted5 s) (delivered5 s) (accepted5 t) (delivered5 t)"
  by (auto simp: step5_def loop5_hist main5_step_frame split: action5.splits if_splits)

text \<open>The threads \<open>main\<close> joins, and those it still knows.\<close>

fun joining :: "main5 \<Rightarrow> nat list" where
  "joining (N_join_producer i) = [i]" | "joining (N_join_consumer i) = [i]"
| "joining (N_join_all is) = is" | "joining m = []"

fun quitting :: "main5 \<Rightarrow> bool" where
  "quitting (N_join_all is) = True" | "quitting N_done = True" | "quitting m = False"

definition known :: "psys \<Rightarrow> nat list" where
  "known s = (if quitting (main5_at s) then joining (main5_at s)
     else producer_threads s @ consumer_threads s @ joining (main5_at s))"

text \<open>The counters of live threads, which \<open>main\<close> changes after creating or joining a thread.\<close>

fun lag_p :: "main5 \<Rightarrow> int" where
  "lag_p (N_lock Inc_producers) = 1" | "lag_p (N_update Inc_producers) = 1"
| "lag_p (N_join_producer i) = -1" | "lag_p (N_lock (Dec_producers i)) = -1"
| "lag_p (N_update (Dec_producers i)) = -1" | "lag_p m = 0"

fun lag_c :: "main5 \<Rightarrow> int" where
  "lag_c (N_lock Inc_consumers) = 1" | "lag_c (N_update Inc_consumers) = 1"
| "lag_c (N_join_consumer i) = -1" | "lag_c (N_lock (Dec_consumers i)) = -1"
| "lag_c (N_update (Dec_consumers i)) = -1" | "lag_c m = 0"

definition main_inv5 :: "psys \<Rightarrow> bool" where
  "main_inv5 s \<longleftrightarrow>
     producers5 (glob s) + lag_p (main5_at s) = int (length (producer_threads s)) \<and>
     consumers5 (glob s) + lag_c (main5_at s) = int (length (consumer_threads s)) \<and>
     length (producer_threads s) \<le> MAX_THREADS \<and> length (consumer_threads s) \<le> MAX_THREADS \<and>
     (\<forall>i \<in> set (producer_threads s @ consumer_threads s @ joining (main5_at s)). i < length (threads s)) \<and>
     (\<forall>i \<in> set (joining (main5_at s)). cancel_pending (threads s ! i)) \<and>
     (\<forall>i < length (threads s). finished (at (threads s ! i)) \<or> i \<in> set (known s))"

definition thread_frame' :: "psys \<Rightarrow> psys \<Rightarrow> bool" where
  "thread_frame' s t \<longleftrightarrow>
     (\<forall>i < length (threads s). cancel_pending (threads t ! i) = cancel_pending (threads s ! i) \<and>
        (finished (at (threads s ! i)) \<longrightarrow> at (threads t ! i) = at (threads s ! i)))"

lemma loop5_frame':
  assumes "i < length (threads s)"
  shows "producer rnd i s = Some t \<Longrightarrow> thread_frame' s t" and "consumer i s = Some t \<Longrightarrow> thread_frame' s t"
    and "act_on_cancel i s = Some t \<Longrightarrow> thread_frame' s t"
  using assms
  by (auto simp: producer_def consumer_def act_on_cancel_def thread_frame'_def call_defs goto_def say_def
      cancelled_at_def Let_def nth_list_update split: tpc.splits if_splits)

lemma main_inv5_frame:
  assumes inv: "main_inv5 s" and f: "thread_frame s t" and g: "thread_frame' s t"
  shows "main_inv5 t"
proof -
  have k: "known t = known s" using f by (simp add: known_def thread_frame_def)
  show ?thesis
    using inv f g unfolding main_inv5_def thread_frame_def thread_frame'_def k by auto
qed

lemma pthread_cancel_at [simp]: "at (threads (pthread_cancel j s) ! i) = at (threads s ! i)"
  by (cases "j < length (threads s)") (auto simp: pthread_cancel_def nth_list_update list_update_beyond)

lemma pthread_cancel_pending:
  "i < length (threads s) \<Longrightarrow>
     cancel_pending (threads (pthread_cancel j s) ! i) = (cancel_pending (threads s ! i) \<or> i = j)"
  by (cases "i = j") (simp_all add: pthread_cancel_def)

lemma fold_cancel_at [simp]: "at (threads (fold pthread_cancel is s) ! i) = at (threads s ! i)"
  by (induction "is" arbitrary: s) simp_all

lemma fold_cancel_pending:
  "i < length (threads s) \<Longrightarrow>
     cancel_pending (threads (fold pthread_cancel is s) ! i) = (cancel_pending (threads s ! i) \<or> i \<in> set is)"
  by (induction "is" arbitrary: s) (auto simp: pthread_cancel_pending)

lemma create_main5:
  assumes inv: "main_inv5 s" and m: "main5_at s = N_getchar"
  shows "main_inv5 (create_producer5 s)" and "main_inv5 (create_consumer5 s)"
proof -
  have known: "\<forall>i \<in> set (producer_threads s @ consumer_threads s). i < Suc (length (threads s))"
    using inv by (auto simp: main_inv5_def intro: less_SucI)
  have all: "finished (at ((threads s @ [new_thread q]) ! i)) \<or> i = length (threads s) \<or>
      i \<in> set (producer_threads s) \<or> i \<in> set (consumer_threads s)"
    if "i < Suc (length (threads s))" for i q
    using that inv m by (auto simp: main_inv5_def known_def nth_append less_Suc_eq)
  show "main_inv5 (create_producer5 s)" and "main_inv5 (create_consumer5 s)"
    using inv m known all
    by (auto simp: main_inv5_def known_def create_producer5_def create_consumer5_def)
qed

lemma split_last: "xs \<noteq> [] \<Longrightarrow> set xs = insert (last xs) (set (butlast xs))"
  by (metis append_butlast_last_id list.simps(15) rotate1.simps(2) set_rotate1)

lemma int_length_butlast: "xs \<noteq> [] \<Longrightarrow> int (length xs) = int (length (butlast xs)) + 1"
  by (cases xs) simp_all

lemma kill_main5:
  assumes inv: "main_inv5 s" and m: "main5_at s = N_getchar"
  shows "main_inv5 (kill_producer5 s)" and "main_inv5 (kill_consumer5 s)"
proof -
  note d = main_inv5_def known_def kill_producer5_def kill_consumer5_def Let_def pthread_cancel_pending
  show "main_inv5 (kill_producer5 s)"
  proof (cases "producer_threads s = []")
    case False
    from split_last [OF this] int_length_butlast [OF this] inv m False show ?thesis
      by (auto simp add: d simp del: length_butlast)
  qed (use inv m in \<open>simp add: kill_producer5_def d\<close>)
  show "main_inv5 (kill_consumer5 s)"
  proof (cases "consumer_threads s = []")
    case False
    from split_last [OF this] int_length_butlast [OF this] inv m False show ?thesis
      by (auto simp add: d simp del: length_butlast)
  qed (use inv m in \<open>simp add: kill_consumer5_def d\<close>)
qed

lemma quit_main5: "main_inv5 s \<Longrightarrow> main5_at s = N_getchar \<Longrightarrow> main_inv5 (quit5 s)"
  by (auto simp: main_inv5_def known_def quit5_def Let_def fold_cancel_pending)

lemma main_inv5_simps [simp]:
  "main_inv5 (say e s) = main_inv5 s"
  "main_inv5 (post_empty s) = main_inv5 s" "main5_at (post_empty s) = main5_at s"
  by (simp_all add: main_inv5_def known_def post_empty_def)

lemma command5_main:
  assumes inv: "main_inv5 s" and m: "main5_at s = N_getchar"
  shows "main_inv5 (command5 ch s)"
proof -
  have move: "main_inv5 (t\<lparr>main5_at := n\<rparr>)"
    if "main_inv5 t" "main5_at t = N_getchar" "n \<in> {N_wait_empty, N_lock Inc_size, N_lock Show_status}" for t n
    using that by (auto simp: main_inv5_def known_def)
  have "main_inv5 (increase_size5 s)" "main_inv5 (decrease_size5 s)"
    "main_inv5 (s\<lparr>main5_at := N_lock Show_status\<rparr>)"
    using inv m by (simp_all add: increase_size5_def decrease_size5_def move)
  then show ?thesis
    using create_main5 [OF inv m] kill_main5 [OF inv m] quit_main5 [OF inv m] inv
    by (cases rule: command5_cases [of ch s]) simp_all
qed

lemma main5_step_main:
  assumes inv: "main_inv5 s" and st: "main5_step s = Some t"
  shows "main_inv5 t"
proof (cases "main5_at s")
  case (N_update u)
  then show ?thesis using inv st
    by (cases u) (auto simp: main5_step_def do_update_def Let_def main_inv5_def known_def)
next
  case (N_unlock u)
  then show ?thesis using inv st
    by (cases u) (auto simp: main5_step_def after_update_def unlock_def main_inv5_def known_def)
next
  case (N_join_all "is")
  then show ?thesis using inv st
    by (cases "is") (auto simp: main5_step_def main_inv5_def known_def split: if_splits)
next
  case (N_lock u)
  then show ?thesis using inv st
    by (cases u) (auto simp: main5_step_def lock_def main_inv5_def known_def split: if_splits)
qed (use inv st in \<open>auto simp: main5_step_def wait_empty_def main_inv5_def known_def split: if_splits\<close>)

lemma step5_main: "main_inv5 s \<Longrightarrow> step5 rnd s a = Some t \<Longrightarrow> main_inv5 t"
  by (auto simp: step5_def split: action5.splits if_splits
      intro: command5_main main5_step_main main_inv5_frame loop5_frame loop5_frame')

section \<open>Refinement of the bounded queue\<close>

definition sys_inv5 :: "psys \<Rightarrow> bool" where
  "sys_inv5 s \<longleftrightarrow> queue_inv5 s \<and> count_inv5 s \<and> out_inv5 s \<and> main_inv5 s"

definition queue_abs5 :: "psys \<Rightarrow> message fifo" where
  "queue_abs5 s =
     \<lparr>pending = ring_contents FIXED_SIZE (buffer5 (glob s)) (head5 (glob s)) (stored5 s),
      accepted = accepted5 s, delivered = delivered5 s\<rparr>"

lemma stored5_le_pool: "queue_inv5 s \<Longrightarrow> stored5 s \<le> pool s"
  using queue_inv5D(9) [of s] by simp

interpretation sem_queue: fifo_machine "step5 rnd" "initial_psys mem" sys_inv5 FIXED_SIZE queue_abs5
proof unfold_locales
  show "sys_inv5 (initial_psys mem)"
    by (simp add: sys_inv5_def initial_queue_inv5)
      (simp add: count_inv5_def out_inv5_def main_inv5_def known_def initial_psys_def pcs5_def)
next
  show "\<And>s a t. sys_inv5 s \<Longrightarrow> step5 rnd s a = Some t \<Longrightarrow> sys_inv5 t"
    by (auto simp: sys_inv5_def intro: step5_queue_inv step5_count step5_out step5_main)
next
  show "queue_abs5 (initial_psys mem) = empty_fifo"
    by (simp add: queue_abs5_def initial_psys_def empty_fifo_def stored5_def pcs5_def)
next
  show "\<And>s. sys_inv5 s \<Longrightarrow> fifo_inv FIXED_SIZE (queue_abs5 s)"
    by (simp add: sys_inv5_def fifo_inv_def queue_abs5_def queue_inv5D(6)
        order.trans [OF stored5_le_pool queue_inv5D(10)])
next
  show "\<And>s a t. step5 rnd s a = Some t \<Longrightarrow>
      hist_step (accepted (queue_abs5 s)) (delivered (queue_abs5 s))
        (accepted (queue_abs5 t)) (delivered (queue_abs5 t))"
    by (simp add: queue_abs5_def step5_hist)
qed

lemmas sem_reachable_inv = sem_queue.inv_reachable [unfolded sys_inv5_def]

end
