(* ===== verification/Sem_Queue_Props.thy ===== *)
theory Sem_Queue_Props
  imports Sem_Queue_Correct
begin

text \<open>
  The properties of Lab5/parent1.c, with the concrete runs that show their hypotheses can hold and
  the two behaviours the code does not intend.
\<close>

section \<open>Concrete runs\<close>

lemmas sem_eval = step5_def command5_def command5_parts producer_def consumer_def act_on_cancel_def
  cancelled_at_def call_defs goto_def say_def new_thread_def pthread_cancel_def main5_step_def
  do_update_def after_update_def MAX_THREADS_def

lemma start5 [simp]:
  "threads (initial_psys mem) = []" "main5_at (initial_psys mem) = N_getchar"
  "mutex5 (initial_psys mem) = 1" "empty_count5 (initial_psys mem) = 10"
  "full_count5 (initial_psys mem) = 0" "producer_threads (initial_psys mem) = []"
  "consumer_threads (initial_psys mem) = []" "out5 (initial_psys mem) = []"
  "accepted5 (initial_psys mem) = []" "delivered5 (initial_psys mem) = []"
  "current_queue_size (glob (initial_psys mem)) = 10" "head5 (glob (initial_psys mem)) = 0"
  "tail5 (glob (initial_psys mem)) = 0" "producedCount5 (glob (initial_psys mem)) = 0"
  "consumedCount5 (glob (initial_psys mem)) = 0" "length (buffer5 (glob (initial_psys mem))) = 1000"
  by (simp_all add: initial_psys_def QUEUE_SIZE5_def FIXED_SIZE_def)

definition new_both :: "action5 list" where
  "new_both = [Input (Some CHR ''p''), Main_goes_on, Main_goes_on, Main_goes_on,
     Input (Some CHR ''c''), Main_goes_on, Main_goes_on, Main_goes_on]"

text \<open>A message goes from a producer to a consumer.\<close>

definition transfer5 :: "action5 list" where
  "transfer5 = new_both
     @ [Thread 0, Thread 0, Thread 0, Thread 0, Thread 0, Thread 0, Thread 0, Thread 0, Thread 0]
     @ [Thread 1, Thread 1, Thread 1, Thread 1, Thread 1, Thread 1, Thread 1, Thread 1]"

text \<open>A producer is in its critical section when \<open>main\<close> cancels it.\<close>

definition cancel_in_crit :: "action5 list" where
  "cancel_in_crit = [Input (Some CHR ''p''), Main_goes_on, Main_goes_on, Main_goes_on,
     Thread 0, Thread 0, Thread 0, Input (Some CHR ''P'')]"

lemma transfer5_result:
  "\<exists>s m. run (step5 rnd) (initial_psys mem) transfer5 = Some s \<and> accepted5 s = [m] \<and> delivered5 s = [m] \<and>
       main5_at s = N_getchar \<and> current_queue_size (glob s) = 10 \<and>
       full_count5 s = 0 \<and> empty_count5 s = 10 \<and> length (threads s) = 2 \<and>
       map at (threads s) = [SP_sleep, SC_sleep] \<and>
       out5 s = [Created_producer 0, Created_consumer 1, Created_message 0 1,
            Consumed_message 1 1 (verify_hash5 m)]"
  by (simp add: transfer5_def new_both_def sem_eval)

lemma cancel_in_crit_result:
  "\<exists>s. run (step5 rnd) (initial_psys mem) cancel_in_crit = Some s \<and> length (threads s) = 1 \<and>
       at (threads s ! 0) = SP_fill \<and> main5_at s = N_join_producer 0 \<and> mutex5 s = 0"
  by (simp add: cancel_in_crit_def sem_eval)

text \<open>A lone producer, and \<open>main\<close> at its prompt: queues of any size with any number of messages.\<close>

definition lone5 :: "nat \<Rightarrow> nat \<Rightarrow> psys \<Rightarrow> bool" where
  "lone5 n k s \<longleftrightarrow> mutex5 s = 1 \<and> full_count5 s = k \<and> empty_count5 s = n - k \<and>
     current_queue_size (glob s) = n \<and> tail5 (glob s) = k mod FIXED_SIZE \<and> head5 (glob s) = 0 \<and>
     main5_at s = N_getchar \<and> producer_threads s = [0] \<and> consumer_threads s = [] \<and>
     (\<exists>p. threads s = [p] \<and> at p = SP_wait \<and> \<not> cancel_pending p)"

definition one_round5 :: "action5 list" where
  "one_round5 = [Thread 0, Thread 0, Thread 0, Thread 0, Thread 0, Thread 0, Thread 0, Thread 0, Thread 0]"

definition one_more_slot :: "action5 list" where
  "one_more_slot = [Input (Some CHR ''+''), Main_goes_on, Main_goes_on, Main_goes_on]"

lemma produce_one5:
  assumes "lone5 n k s" and "k < n"
  shows "\<exists>t. run (step5 rnd) s one_round5 = Some t \<and> lone5 n (Suc k) t"
  using assms unfolding lone5_def
  by (elim conjE exE) (simp add: one_round5_def sem_eval mod_simps)

lemma grow_one5:
  assumes "lone5 n 0 s" and "n < FIXED_SIZE"
  shows "\<exists>t. run (step5 rnd) s one_more_slot = Some t \<and> lone5 (Suc n) 0 t"
  using assms unfolding lone5_def
  by (elim conjE exE) (simp add: one_more_slot_def sem_eval)

lemma lone_start5: "\<exists>s. reachable (step5 rnd) (initial_psys mem) s \<and> lone5 10 0 s"
proof -
  have "\<exists>s. run (step5 rnd) (initial_psys mem)
      [Input (Some CHR ''p''), Main_goes_on, Main_goes_on, Main_goes_on, Thread 0] = Some s \<and> lone5 10 0 s"
    by (simp add: sem_eval lone5_def)
  then show ?thesis by (blast intro: run_reachable)
qed

lemma grown_queue: "10 \<le> n \<Longrightarrow> n \<le> FIXED_SIZE \<Longrightarrow> \<exists>s. reachable (step5 rnd) (initial_psys mem) s \<and> lone5 n 0 s"
proof (induction n rule: dec_induct)
  case base
  show ?case by (rule lone_start5)
next
  case (step n)
  then obtain s where s: "reachable (step5 rnd) (initial_psys mem) s" "lone5 n 0 s" by auto
  from grow_one5 [OF s(2)] step.prems obtain t
    where "run (step5 rnd) s one_more_slot = Some t" "lone5 (Suc n) 0 t" by fastforce
  with s(1) show ?case by (blast intro: reachable_run)
qed

lemma filled_queue:
  assumes "10 \<le> n" "n \<le> FIXED_SIZE"
  shows "k \<le> n \<Longrightarrow> \<exists>s. reachable (step5 rnd) (initial_psys mem) s \<and> lone5 n k s"
proof (induction k)
  case 0
  show ?case by (rule grown_queue [OF assms])
next
  case (Suc k)
  then obtain s where s: "reachable (step5 rnd) (initial_psys mem) s" "lone5 n k s" by auto
  from produce_one5 [OF s(2)] Suc.prems obtain t
    where "run (step5 rnd) s one_round5 = Some t" "lone5 n (Suc k) t" by fastforce
  with s(1) show ?case by (blast intro: reachable_run)
qed

section \<open>Progress\<close>

text \<open>The steps a cancelled thread is from its end, and \<open>main\<close> from its prompt.\<close>

fun to_end :: "tpc \<Rightarrow> nat" where
  "to_end SP_start = 2" | "to_end SP_wait = 1" | "to_end SP_lock = 7" | "to_end SP_fill = 6"
| "to_end (SP_tail t) = 5" | "to_end SP_count = 4" | "to_end (SP_unlock n) = 3"
| "to_end (SP_post n) = 2" | "to_end (SP_print n) = 1" | "to_end SP_sleep = 1" | "to_end SP_cancelled = 0"
| "to_end SC_wait = 1" | "to_end SC_lock = 7" | "to_end SC_copy = 6" | "to_end (SC_head h m) = 5"
| "to_end (SC_count m) = 4" | "to_end (SC_unlock m n) = 3" | "to_end (SC_post m n) = 2"
| "to_end (SC_print m n) = 1" | "to_end SC_sleep = 1" | "to_end SC_cancelled = 0"

fun to_prompt :: "main5 \<Rightarrow> nat" where
  "to_prompt (N_join_producer i) = 4" | "to_prompt (N_join_consumer i) = 4" | "to_prompt (N_lock u) = 3"
| "to_prompt (N_update u) = 2" | "to_prompt (N_unlock u) = 1" | "to_prompt (N_join_all is) = Suc (length is)"
| "to_prompt m = 0"

definition work :: "psys \<Rightarrow> nat" where
  "work s = to_prompt (main5_at s) +
     (\<Sum>i < length (threads s). if i \<in> set (joining (main5_at s)) \<or> in_crit5 (at (threads s ! i))
        then to_end (at (threads s ! i)) else 0)"

lemma work_thread:
  assumes i: "i < length (threads s)" and f: "thread_frame s t"
    and q: "pcs5 t = (pcs5 s)[i := q]"
    and less: "(if i \<in> set (joining (main5_at s)) \<or> in_crit5 q then to_end q else 0)
      < (if i \<in> set (joining (main5_at s)) \<or> in_crit5 (at (threads s ! i)) then to_end (at (threads s ! i)) else 0)"
  shows "work t < work s"
proof -
  have len: "length (threads t) = length (threads s)" and m: "main5_at t = main5_at s"
    using f by (simp_all add: thread_frame_def)
  have at: "at (threads t ! j) = (if j = i then q else at (threads s ! j))" if "j < length (threads s)" for j
    using arg_cong [OF q, of "\<lambda>xs. xs ! j"] that i len by (simp add: pcs5_nth nth_list_update)
  have "(\<Sum>j < length (threads s). if j \<in> set (joining (main5_at s)) \<or> in_crit5 (at (threads t ! j))
        then to_end (at (threads t ! j)) else 0)
      < (\<Sum>j < length (threads s). if j \<in> set (joining (main5_at s)) \<or> in_crit5 (at (threads s ! j))
        then to_end (at (threads s ! j)) else 0)"
    using i less at by (intro sum_strict_mono_ex1 bexI [of _ i]) (auto split: if_splits)
  then show ?thesis by (simp add: work_def len m)
qed

text \<open>The thread in its critical section, and the thread being joined, can go on towards their end.\<close>

lemma crit_goes_on:
  assumes i: "i < length (threads s)" and c: "in_crit5 (at (threads s ! i))"
  shows "\<exists>t q. step5 rnd s (Thread i) = Some t \<and> thread_frame s t \<and> pcs5 t = (pcs5 s)[i := q] \<and>
    to_end q < to_end (at (threads s ! i))"
proof -
  note d = step5_def producer_def consumer_def thread_frame_def Let_def unlock_def
  show ?thesis using i c
    by (cases "at (threads s ! i)")
      (auto simp: d pcs5_def goto_def map_update intro!: exI [of _ "(map at (threads s))[i := _]"])
qed

lemma joined_goes_on:
  assumes i: "i < length (threads s)" and c: "cancel_pending (threads s ! i)"
    and f: "\<not> finished (at (threads s ! i))"
    and free: "at (threads s ! i) \<in> {SP_lock, SC_lock} \<Longrightarrow> mutex5 s \<noteq> 0"
  shows "\<exists>a t q. step5 rnd s a = Some t \<and> (\<forall>ch. a \<noteq> Input ch) \<and> thread_frame s t \<and>
    pcs5 t = (pcs5 s)[i := q] \<and> to_end q < to_end (at (threads s ! i))"
proof (cases "cancelled_at (at (threads s ! i))")
  case (Some q)
  then have "step5 rnd s (Cancel i) = Some (goto i q s) \<and> to_end q < to_end (at (threads s ! i))"
    using i c by (auto simp: step5_def act_on_cancel_def cancelled_at_def split: tpc.splits)
  moreover have "thread_frame s (goto i q s)" by (simp add: thread_frame_def)
  ultimately show ?thesis by (intro exI [of _ "Cancel i"] exI [of _ "goto i q s"] exI [of _ q]) simp
next
  case None
  consider "in_crit5 (at (threads s ! i))" | "at (threads s ! i) \<in> {SP_lock, SC_lock}"
    | "\<not> in_crit5 (at (threads s ! i))" "at (threads s ! i) \<notin> {SP_lock, SC_lock}" by blast
  then show ?thesis
  proof cases
    case 1
    from crit_goes_on [OF i this, of rnd] show ?thesis by (metis action5.distinct(3))
  next
    case 2
    define q where "q = (if at (threads s ! i) = SP_lock then SP_fill else SC_copy)"
    have "step5 rnd s (Thread i) = Some (goto i q (s\<lparr>mutex5 := mutex5 s - 1\<rparr>))"
      using i free [OF 2] 2 by (auto simp: step5_def producer_def consumer_def lock_def q_def)
    moreover have "to_end q < to_end (at (threads s ! i))" using 2 by (auto simp: q_def)
    ultimately show ?thesis
      by (intro exI [of _ "Thread i"] exI [of _ "goto i q (s\<lparr>mutex5 := mutex5 s - 1\<rparr>)"] exI [of _ q])
        (simp add: thread_frame_def)
  next
    case 3
    then show ?thesis using i f None
      by (intro exI [of _ "Thread i"]; cases "at (threads s ! i)")
        (auto simp: step5_def producer_def consumer_def thread_frame_def call_defs cancelled_at_def
        pcs5_def goto_def map_update)
  qed
qed

text \<open>Somebody can always go on towards the prompt, unless \<open>main\<close> waits for a free slot.\<close>

lemma main_goes_on:
  assumes "to_prompt (main5_at s) \<noteq> 0"
    and lk: "\<And>u. main5_at s = N_lock u \<Longrightarrow> mutex5 s \<noteq> 0"
    and jn: "\<And>i. i \<in> set (joining (main5_at s)) \<Longrightarrow> finished (at (threads s ! i))"
  shows "\<exists>t. step5 rnd s Main_goes_on = Some t \<and> main5_at t \<noteq> N_wait_empty \<and>
    to_prompt (main5_at t) < to_prompt (main5_at s) \<and> set (joining (main5_at t)) \<subseteq> set (joining (main5_at s))"
proof (cases "main5_at s")
  case (N_join_all "is")
  then show ?thesis using jn by (cases "is") (auto simp: step5_def main5_step_def)
next
  case (N_lock u)
  then show ?thesis using lk [OF N_lock] by (simp add: step5_def main5_step_def lock_def)
next
  case (N_update u)
  then show ?thesis by (simp add: step5_def main5_step_def)
next
  case (N_unlock u)
  then show ?thesis by (cases u) (simp_all add: step5_def main5_step_def after_update_def unlock_def)
qed (use assms in \<open>auto simp: step5_def main5_step_def\<close>)

lemma somebody_goes_on:
  assumes inv: "queue_inv5 s" "main_inv5 s" and m: "to_prompt (main5_at s) \<noteq> 0"
  shows "\<exists>a t. step5 rnd s a = Some t \<and> (\<forall>ch. a \<noteq> Input ch) \<and> main5_at t \<noteq> N_wait_empty \<and> work t < work s"
proof -
  have w: "main5_at s \<noteq> N_wait_empty" using m by auto
  consider (holder) i where "i < length (threads s)" "in_crit5 (at (threads s ! i))"
    | (joined) i where "\<forall>i < length (threads s). \<not> in_crit5 (at (threads s ! i))"
        "i \<in> set (joining (main5_at s))" "\<not> finished (at (threads s ! i))"
    | (main) "\<forall>i < length (threads s). \<not> in_crit5 (at (threads s ! i))"
        "\<forall>i \<in> set (joining (main5_at s)). finished (at (threads s ! i))"
    by blast
  then show ?thesis
  proof cases
    case holder
    from crit_goes_on [OF this, of rnd] obtain t q where t: "step5 rnd s (Thread i) = Some t"
      "thread_frame s t" "pcs5 t = (pcs5 s)[i := q]" "to_end q < to_end (at (threads s ! i))" by blast
    have "work t < work s" by (rule work_thread [OF holder(1) t(2,3)]) (use holder t(4) in auto)
    then show ?thesis using t w by (intro exI [of _ "Thread i"] exI [of _ t]) (simp add: thread_frame_def)
  next
    case joined
    have i: "i < length (threads s)" "cancel_pending (threads s ! i)"
      using inv(2) joined(2) by (auto simp: main_inv5_def)
    have "mutex5 s \<noteq> 0"
    proof -
      have "main_holds s = 0" using joined(2) by (cases "main5_at s") (auto simp: main_holds_def)
      moreover have "cnt in_crit5 (pcs5 s) = 0" using joined(1) by (intro cnt_none) (simp add: pcs5_nth)
      ultimately show ?thesis using queue_inv5D(3) [OF inv(1)] by simp
    qed
    with joined_goes_on [OF i joined(3), of rnd] obtain a t q where t: "step5 rnd s a = Some t"
      "\<forall>ch. a \<noteq> Input ch" "thread_frame s t" "pcs5 t = (pcs5 s)[i := q]"
      "to_end q < to_end (at (threads s ! i))" by blast
    have "work t < work s" by (rule work_thread [OF i(1) t(3,4)]) (use joined t(5) in auto)
    then show ?thesis using t w by (intro exI [of _ a] exI [of _ t]) (simp add: thread_frame_def)
  next
    case main
    have "mutex5 s \<noteq> 0" if "main5_at s = N_lock u" for u
    proof -
      have "cnt in_crit5 (pcs5 s) = 0" using main(1) by (intro cnt_none) (simp add: pcs5_nth)
      then show ?thesis using queue_inv5D(3) [OF inv(1)] that by (simp add: main_holds_def)
    qed
    with main_goes_on [OF m, where rnd = rnd] main(2) obtain t where t: "step5 rnd s Main_goes_on = Some t"
      "main5_at t \<noteq> N_wait_empty" "to_prompt (main5_at t) < to_prompt (main5_at s)"
      "set (joining (main5_at t)) \<subseteq> set (joining (main5_at s))" by auto
    have th: "threads t = threads s" using t(1) by (simp add: step5_def main5_step_frame(8))
    have "work t < work s" unfolding work_def th
      by (rule add_less_le_mono [OF t(3)]) (use t(4) in \<open>auto intro!: sum_mono\<close>)
    then show ?thesis using t by (intro exI [of _ Main_goes_on] exI [of _ t]) simp
  qed
qed

lemma prompt_again:
  assumes "sys_inv5 s" and "main5_at s \<noteq> N_wait_empty"
  shows "\<exists>as t. run (step5 rnd) s as = Some t \<and> (\<forall>ch. Input ch \<notin> set as) \<and> main5_at t \<in> {N_getchar, N_done}"
  using assms
proof (induction "work s" arbitrary: s rule: less_induct)
  case less
  show ?case
  proof (cases "to_prompt (main5_at s) = 0")
    case True
    with less.prems(2) have "main5_at s \<in> {N_getchar, N_done}" by (cases "main5_at s") auto
    then show ?thesis by (intro exI [of _ "[]"]) simp
  next
    case False
    with somebody_goes_on [of s rnd] less.prems(1) obtain a t where t: "step5 rnd s a = Some t"
      "\<forall>ch. a \<noteq> Input ch" "main5_at t \<noteq> N_wait_empty" "work t < work s"
      by (auto simp: sys_inv5_def)
    have "sys_inv5 t" using sem_queue.inv_step [OF less.prems(1) t(1)] .
    from less.hyps [OF t(4) this t(3)] obtain as u where "run (step5 rnd) t as = Some u"
      "\<forall>ch. Input ch \<notin> set as" "main5_at u \<in> {N_getchar, N_done}" by blast
    with t(1,2) show ?thesis by (intro exI [of _ "a # as"] exI [of _ u]) auto
  qed
qed

section \<open>Properties\<close>

text \<open>
  C2 (Lab5 parent1, refinement): the ring with its mutex and two semaphores, shared with a \<open>main\<close>
  that resizes the queue while producers and consumers run and are cancelled, refines the first-in
  first-out queue of capacity \<open>FIXED_SIZE\<close>. Whenever \<open>main\<close> is at its prompt, the messages in the
  queue are at most \<open>current_queue_size\<close>, which stays between 1 and \<open>FIXED_SIZE\<close>.
\<close>

theorem sem_queue_refines_fifo:
  assumes "reachable (step5 rnd) (initial_psys mem) s"
  shows "(fifo_step FIXED_SIZE)\<^sup>*\<^sup>* empty_fifo (queue_abs5 s)
    \<and> accepted5 s = delivered5 s @ ring_contents FIXED_SIZE (buffer5 (glob s)) (head5 (glob s))
        (length (accepted5 s) - length (delivered5 s))
    \<and> (main5_at s = N_getchar \<longrightarrow>
        length (accepted5 s) - length (delivered5 s) \<le> current_queue_size (glob s))
    \<and> 1 \<le> current_queue_size (glob s) \<and> current_queue_size (glob s) \<le> FIXED_SIZE"
proof -
  have inv: "queue_inv5 s" using sem_reachable_inv [OF assms] by simp
  note a = queue_inv5D(6) [OF inv]
  have "length (accepted5 s) - length (delivered5 s) = stored5 s" by (simp add: a)
  moreover have "main5_at s = N_getchar \<longrightarrow> pool s = current_queue_size (glob s)" by (simp add: pool_def)
  ultimately show ?thesis
    using sem_queue.refines [OF assms] a stored5_le_pool [OF inv] queue_inv5D(11) [OF inv]
    by (auto simp: size_ok_def)
qed

theorem sem_queue_refines_fifo_witness:
  "\<exists>s. reachable (step5 (\<lambda>_ _. 5)) (initial_psys (\<lambda>_. sample_message)) s \<and> length (accepted5 s) = 1 \<and>
     (fifo_step FIXED_SIZE)\<^sup>*\<^sup>* empty_fifo (queue_abs5 s)"
proof -
  obtain s m where r: "reachable (step5 (\<lambda>_ _. 5)) (initial_psys (\<lambda>_. sample_message)) s"
    and "length (accepted5 s) = 1"
    using transfer5_result [of "\<lambda>_ _. 5" "\<lambda>_. sample_message"] by (fastforce intro: run_reachable)
  with sem_queue_refines_fifo [OF r] show ?thesis by blast
qed

text \<open>
  (Lab5 parent1, mutual exclusion): at most one thread is between \<open>pthread_mutex_lock\<close> and
  \<open>pthread_mutex_unlock\<close>, and none while \<open>main\<close> is between its own.
\<close>

theorem sem_mutual_exclusion:
  assumes "reachable (step5 rnd) (initial_psys mem) s"
    and "i < length (threads s)" and "in_crit5 (at (threads s ! i))"
  shows "main_holds s = 0 \<and> mutex5 s = 0
    \<and> (\<forall>j < length (threads s). in_crit5 (at (threads s ! j)) \<longrightarrow> j = i)"
proof -
  have inv: "queue_inv5 s" using sem_reachable_inv [OF assms(1)] by simp
  then have q: "tq5.qinv (main_holds s) (pool s) (view5 s) (pcs5 s)" by (simp add: queue_inv5_def)
  have "0 < cnt in_crit5 (pcs5 s)" by (rule cnt_pos [of i]) (use assms in \<open>simp_all add: pcs5_nth\<close>)
  with queue_inv5D(3) [OF inv] have "main_holds s = 0 \<and> mutex5 s = 0" by simp
  moreover have "j = i" if "j < length (threads s)" "in_crit5 (at (threads s ! j))" for j
    using tq5.crit_exclusive [OF q, of j i] that assms(2,3) by (simp add: pcs5_nth)
  ultimately show ?thesis by blast
qed

theorem sem_mutual_exclusion_witness:
  "\<exists>s. reachable (step5 (\<lambda>_ _. 5)) (initial_psys (\<lambda>_. sample_message)) s \<and> at (threads s ! 0) = SP_fill \<and>
     main5_at s = N_join_producer 0 \<and> mutex5 s = 0"
proof -
  obtain s where r: "reachable (step5 (\<lambda>_ _. 5)) (initial_psys (\<lambda>_. sample_message)) s"
    and n: "length (threads s) = 1" and p: "at (threads s ! 0) = SP_fill" and m: "main5_at s = N_join_producer 0"
    using cancel_in_crit_result [of "\<lambda>_ _. 5" "\<lambda>_. sample_message"] by (blast intro: run_reachable)
  have "mutex5 s = 0" using sem_mutual_exclusion [OF r, of 0] n p by simp
  with r p m show ?thesis by blast
qed

text \<open>
  C27 (Lab5 parent1, cancellation): unlike Lab4, a killed thread takes nothing with it. Whatever
  threads were cancelled and whenever, once \<open>main\<close> is at its prompt and every thread is at a
  cancellation point of its loop or has ended, the mutex is free, the two semaphores add up to
  \<open>current_queue_size\<close>, and \<open>full_count\<close> is the number of messages in the ring.
\<close>

theorem sem_cancel_keeps_tokens:
  assumes "reachable (step5 rnd) (initial_psys mem) s" and "main5_at s = N_getchar"
    and "\<forall>p \<in> set (map at (threads s)). cancelled_at p \<noteq> None \<or> finished p"
  shows "mutex5 s = 1 \<and> full_count5 s + empty_count5 s = current_queue_size (glob s)
    \<and> full_count5 s = length (accepted5 s) - length (delivered5 s)"
proof -
  have inv: "queue_inv5 s" using sem_reachable_inv [OF assms(1)] by simp
  have p: "cancelled_at p \<noteq> None \<or> finished p \<Longrightarrow>
      \<not> in_crit5 p \<and> \<not> owns_slot5 p \<and> \<not> unposted_full5 p \<and> \<not> owns_message5 p \<and> \<not> unposted_empty5 p" for p
    by (cases p) (simp_all add: cancelled_at_def)
  then have "cnt in_crit5 (pcs5 s) = 0" "cnt owns_slot5 (pcs5 s) = 0" "cnt unposted_full5 (pcs5 s) = 0"
    "cnt owns_message5 (pcs5 s) = 0" "cnt unposted_empty5 (pcs5 s) = 0"
    using assms(3) by (auto intro!: cnt_none simp: pcs5_def)
  moreover have "length (accepted5 s) - length (delivered5 s) = stored5 s"
    by (simp add: queue_inv5D(6) [OF inv])
  ultimately show ?thesis
    using queue_inv5D(3,4) [OF inv] assms(2) by (simp add: main_holds_def pool_def stored5_def)
qed

theorem sem_cancel_keeps_tokens_witness:
  "\<exists>s. reachable (step5 (\<lambda>_ _. 5)) (initial_psys (\<lambda>_. sample_message)) s \<and> length (threads s) = 2 \<and>
     full_count5 s + empty_count5 s = current_queue_size (glob s)"
proof -
  obtain s where r: "reachable (step5 (\<lambda>_ _. 5)) (initial_psys (\<lambda>_. sample_message)) s"
    and n: "length (threads s) = 2" and m: "main5_at s = N_getchar" and p: "map at (threads s) = [SP_sleep, SC_sleep]"
    using transfer5_result [of "\<lambda>_ _. 5" "\<lambda>_. sample_message"] by (fastforce intro: run_reachable)
  from sem_cancel_keeps_tokens [OF r m] n r show ?thesis unfolding p by (auto simp: cancelled_at_def)
qed

text \<open>
  C20 (Lab5 parent1, progress): every command except \<open>-\<close> completes. From every reachable state in
  which \<open>main\<close> does not wait for a free slot, whichever threads are in their critical sections,
  blocked in \<open>sem_wait\<close> or being joined, the program can reach its prompt or its end with no
  further input.
\<close>

theorem sem_main_reaches_prompt:
  assumes "reachable (step5 rnd) (initial_psys mem) s" and "main5_at s \<noteq> N_wait_empty"
  shows "\<exists>as t. run (step5 rnd) s as = Some t \<and> (\<forall>ch. Input ch \<notin> set as) \<and> main5_at t \<in> {N_getchar, N_done}"
  using prompt_again [OF sem_queue.inv_reachable [OF assms(1)] assms(2)] .

theorem sem_main_reaches_prompt_witness:
  "\<exists>s t as. main5_at s = N_join_producer 0 \<and> run (step5 (\<lambda>_ _. 5)) s as = Some t \<and>
     main5_at t \<in> {N_getchar, N_done}"
proof -
  obtain s where r: "reachable (step5 (\<lambda>_ _. 5)) (initial_psys (\<lambda>_. sample_message)) s"
    and m: "main5_at s = N_join_producer 0"
    using cancel_in_crit_result [of "\<lambda>_ _. 5" "\<lambda>_. sample_message"] by (blast intro: run_reachable)
  from sem_main_reaches_prompt [OF r] m show ?thesis by auto
qed

text \<open>
  C30 (Lab5 parent1, case '-'): \<open>main\<close> takes the slot away with \<open>sem_wait\<close>. When the queue is full
  and there is no consumer, that wait never ends, and as \<open>main\<close> is also the command loop, nobody
  can create a consumer any more: no step of any thread is possible. The state is reached for every
  queue size from 10 to \<open>FIXED_SIZE\<close>.
\<close>

theorem sem_decrease_hangs:
  assumes "10 \<le> n" and "n \<le> FIXED_SIZE"
  shows "\<exists>s t. reachable (step5 rnd) (initial_psys mem) s \<and> main5_at s = N_getchar \<and>
     current_queue_size (glob s) = n \<and> step5 rnd s (Input (Some CHR ''-'')) = Some t \<and>
     main5_at t = N_wait_empty \<and> (\<forall>a. step5 rnd t a = None)"
proof -
  obtain s p where r: "reachable (step5 rnd) (initial_psys mem) s" and f: "lone5 n n s"
    and p: "threads s = [p]" "at p = SP_wait" "\<not> cancel_pending p"
    using filled_queue [OF assms, of n rnd mem] by (auto simp: lone5_def)
  define t where "t = s\<lparr>main5_at := N_wait_empty\<rparr>"
  have st: "step5 rnd s (Input (Some CHR ''-'')) = Some t"
    using f assms by (simp add: lone5_def step5_def command5_def decrease_size5_def t_def)
  have "step5 rnd t a = None" for a
    using f p by (cases a) (auto simp: lone5_def t_def step5_def producer_def wait_empty_def
        act_on_cancel_def main5_step_def)
  with r st f show ?thesis by (intro exI [of _ s] exI [of _ t]) (simp add: lone5_def t_def)
qed

theorem sem_decrease_hangs_witness:
  "\<exists>t. reachable (step5 (\<lambda>_ _. 5)) (initial_psys (\<lambda>_. sample_message)) t \<and>
     main5_at t = N_wait_empty \<and> (\<forall>a. step5 (\<lambda>_ _. 5) t a = None)"
  using sem_decrease_hangs [of 10 "\<lambda>_ _. 5" "\<lambda>_. sample_message"]
  by (auto simp: FIXED_SIZE_def intro: reach_step)

text \<open>
  (Lab5 parent1, case 's'): what the status line says. While \<open>main\<close> prints it, under the mutex,
  the numbers of producers and consumers are those of the threads it has not killed, the counters
  are the numbers of messages put in and taken out modulo 2 to the 64, and the number of messages
  in the queue is right unless the ring is full, which it reports as empty; that state is reachable.
\<close>

theorem sem_status_line:
  assumes "reachable (step5 rnd) (initial_psys mem) s" and "main5_at s = N_update Show_status"
  shows "producers5 (glob s) = int (length (producer_threads s))
    \<and> consumers5 (glob s) = int (length (consumer_threads s))
    \<and> producedCount5 (glob s) = of_nat (length (accepted5 s))
    \<and> consumedCount5 (glob s) = of_nat (length (delivered5 s))
    \<and> queue_used5 (glob s) = (if length (accepted5 s) - length (delivered5 s) = FIXED_SIZE then 0
        else int (length (accepted5 s) - length (delivered5 s)))"
proof -
  have inv: "queue_inv5 s" "count_inv5 s" "main_inv5 s" using sem_reachable_inv [OF assms(1)] by simp_all
  have out: "cnt in_crit5 (pcs5 s) = 0" using queue_inv5D(3) [OF inv(1)] assms(2) by (simp add: main_holds_def)
  have "\<not> at_count_p5 (pcs5 s ! i) \<and> \<not> at_count_c5 (pcs5 s ! i)" if "i < length (pcs5 s)" for i
    using cnt_zero [OF out that] by (cases "pcs5 s ! i") simp_all
  then have "cnt at_count_p5 (pcs5 s) = 0" "cnt at_count_c5 (pcs5 s) = 0" by (auto intro: cnt_none)
  moreover have st: "length (accepted5 s) - length (delivered5 s) = stored5 s"
    by (simp add: queue_inv5D(6) [OF inv(1)])
  moreover have "stored5 s \<le> FIXED_SIZE"
    using stored5_le_pool [OF inv(1)] queue_inv5D(10) [OF inv(1)] by simp
  then have "queue_used5 (glob s) = (if stored5 s = FIXED_SIZE then 0 else int (stored5 s))"
    using queue_inv5D(2,5) [OF inv(1)] by (auto simp: queue_used5_def FIXED_SIZE_def mod_if)
  ultimately show ?thesis using inv assms(2) by (simp add: count_inv5_def main_inv5_def)
qed

theorem sem_status_line_witness:
  "\<exists>s. reachable (step5 (\<lambda>_ _. 5)) (initial_psys (\<lambda>_. sample_message)) s \<and>
     main5_at s = N_update Show_status \<and> length (accepted5 s) - length (delivered5 s) = FIXED_SIZE \<and>
     queue_used5 (glob s) = 0"
proof -
  obtain s where r: "reachable (step5 (\<lambda>_ _. 5)) (initial_psys (\<lambda>_. sample_message)) s"
    and f: "lone5 FIXED_SIZE FIXED_SIZE s"
    using filled_queue [of FIXED_SIZE FIXED_SIZE] by (auto simp: FIXED_SIZE_def)
  define t where "t = s\<lparr>mutex5 := 0, main5_at := N_update Show_status\<rparr>"
  have "run (step5 (\<lambda>_ _. 5)) s [Input (Some CHR ''s''), Main_goes_on] = Some t"
    using f by (simp add: lone5_def step5_def command5_def main5_step_def lock_def t_def)
  then have rt: "reachable (step5 (\<lambda>_ _. 5)) (initial_psys (\<lambda>_. sample_message)) t"
    by (rule reachable_run [OF r])
  have m: "main5_at t = N_update Show_status" by (simp add: t_def)
  have inv: "queue_inv5 s" using sem_reachable_inv [OF r] by simp
  have "stored5 s = FIXED_SIZE" using f by (auto simp: lone5_def stored5_def pcs5_def)
  then have n: "length (accepted5 s) = length (delivered5 s) + FIXED_SIZE" by (simp add: queue_inv5D(6) [OF inv])
  have "queue_used5 (glob t) = 0" using sem_status_line [OF rt m] n by (simp add: t_def)
  with rt m n show ?thesis by (intro exI [of _ t]) (simp add: t_def)
qed

end
