(* ===== verification/Cond_Queue.thy ===== *)
theory Cond_Queue
  imports Sem_Queue
begin

text \<open>
  Lab5/parent2.c: the same program with two condition variables in place of the semaphores. The
  globals are declared as in parent1.c (the record \<open>globals\<close> of \<open>Sem_Queue\<close>), and so are the
  updates \<open>main\<close> makes under the mutex and the lines it prints. A thread in \<open>pthread_cond_wait\<close>
  has released the mutex; it is woken by a signal or spuriously and then waits for the mutex.
  A thread cancelled in \<open>pthread_cond_wait\<close> gets the mutex back before it ends (POSIX), and as
  neither thread function installs a cleanup handler, it ends with the mutex locked.
\<close>

section \<open>State\<close>

datatype cpc =
    DP_start | DP_lock | DP_check | DP_waiting | DP_relock | DP_fill | DP_tail nat | DP_count
  | DP_signal "64 word" | DP_unlock "64 word" | DP_print "64 word" | DP_sleep
  | DP_dying | DP_dead_locked | DP_dead
  | DC_lock | DC_check | DC_waiting | DC_relock | DC_copy | DC_head nat message | DC_count message
  | DC_signal message "64 word" | DC_unlock message "64 word" | DC_print message "64 word" | DC_sleep
  | DC_dying | DC_dead_locked | DC_dead

record cthread =
  at2 :: cpc
  cancelled2 :: bool
  rand2 :: nat

datatype main2 = M2_getchar | M2_join_producer nat | M2_join_consumer nat
  | M2_lock update | M2_update update | M2_unlock update | M2_join_all "nat list" | M2_done

record csys =
  glob2 :: globals
  mutex2 :: nat
  threads2 :: "cthread list"
  main2_at :: main2
  producer_ids2 :: "nat list"
  consumer_ids2 :: "nat list"
  out2 :: "event5 list"
  accepted2 :: "message list"
  delivered2 :: "message list"

definition goto2 :: "nat \<Rightarrow> cpc \<Rightarrow> csys \<Rightarrow> csys" where
  "goto2 i p s = s\<lparr>threads2 := (threads2 s)[i := (threads2 s ! i)\<lparr>at2 := p\<rparr>]\<rparr>"

definition say2 :: "event5 \<Rightarrow> csys \<Rightarrow> csys" where
  "say2 e s = s\<lparr>out2 := out2 s @ [e]\<rparr>"

definition lock2 :: "csys \<Rightarrow> csys option" where
  "lock2 s = (if mutex2 s = 0 then None else Some (s\<lparr>mutex2 := mutex2 s - 1\<rparr>))"

definition unlock2 :: "csys \<Rightarrow> csys" where
  "unlock2 s = s\<lparr>mutex2 := mutex2 s + 1\<rparr>"

text \<open>
  \<open>pthread_cond_signal\<close>: when threads wait on the condition, one of them, the scheduler's choice
  \<open>j\<close>, is woken; when none does, nothing happens.
\<close>

definition signal :: "cpc \<Rightarrow> cpc \<Rightarrow> nat \<Rightarrow> csys \<Rightarrow> csys option" where
  "signal waiting woken j s =
     (if waiting \<notin> set (map at2 (threads2 s)) then Some s
      else if j < length (threads2 s) \<and> at2 (threads2 s ! j) = waiting then Some (goto2 j woken s)
      else None)"

definition signal_not_full :: "nat \<Rightarrow> csys \<Rightarrow> csys option" where
  "signal_not_full = signal DP_waiting DP_relock"

definition signal_not_empty :: "nat \<Rightarrow> csys \<Rightarrow> csys option" where
  "signal_not_empty = signal DC_waiting DC_relock"

section \<open>The threads\<close>

definition used2 :: "globals \<Rightarrow> int" where
  "used2 g = (int (tail5 g) - int (head5 g) + int FIXED_SIZE) mod int FIXED_SIZE"

text \<open>Lines 57 to 75; \<open>j\<close> is the thread a signal wakes.\<close>

definition producer2 :: "(nat \<Rightarrow> nat \<Rightarrow> int) \<Rightarrow> nat \<Rightarrow> nat \<Rightarrow> csys \<Rightarrow> csys option" where
  "producer2 rnd i j s =
     (case at2 (threads2 s ! i) of
        DP_start \<Rightarrow> Some (goto2 i DP_lock s)
      | DP_lock \<Rightarrow> map_option (goto2 i DP_check) (lock2 s)
      | DP_check \<Rightarrow>
          if used2 (glob2 s) \<ge> int (current_queue_size (glob2 s))
          then Some (goto2 i DP_waiting (unlock2 s)) else Some (goto2 i DP_fill s)
      | DP_relock \<Rightarrow> map_option (goto2 i DP_check) (lock2 s)
      | DP_fill \<Rightarrow>
          (let t = tail5 (glob2 s);
               k = rand2 (threads2 s ! i);
               m = fill_random_message5 (rnd i) k (buffer5 (glob2 s) ! t);
               s = s\<lparr>glob2 := (glob2 s)\<lparr>buffer5 := (buffer5 (glob2 s))[t := m]\<rparr>,
                     threads2 := (threads2 s)[i := (threads2 s ! i)\<lparr>rand2 := k + 258\<rparr>]\<rparr>
           in Some (goto2 i (DP_tail t) s))
      | DP_tail t \<Rightarrow>
          Some (goto2 i DP_count
            (s\<lparr>glob2 := (glob2 s)\<lparr>tail5 := (tail5 (glob2 s) + 1) mod FIXED_SIZE\<rparr>,
               accepted2 := accepted2 s @ [buffer5 (glob2 s) ! t]\<rparr>))
      | DP_count \<Rightarrow>
          (let n = producedCount5 (glob2 s) + 1
           in Some (goto2 i (DP_signal n) (s\<lparr>glob2 := (glob2 s)\<lparr>producedCount5 := n\<rparr>\<rparr>)))
      | DP_signal n \<Rightarrow> map_option (goto2 i (DP_unlock n)) (signal_not_empty j s)
      | DP_unlock n \<Rightarrow> Some (goto2 i (DP_print n) (unlock2 s))
      | DP_print n \<Rightarrow> Some (goto2 i DP_sleep (say2 (Created_message i n) s))
      | DP_sleep \<Rightarrow> Some (goto2 i DP_lock s)
      | DP_dying \<Rightarrow> map_option (goto2 i DP_dead_locked) (lock2 s)
      | _ \<Rightarrow> None)"

text \<open>Lines 77 to 96.\<close>

definition consumer2 :: "nat \<Rightarrow> nat \<Rightarrow> csys \<Rightarrow> csys option" where
  "consumer2 i j s =
     (case at2 (threads2 s ! i) of
        DC_lock \<Rightarrow> map_option (goto2 i DC_check) (lock2 s)
      | DC_check \<Rightarrow>
          if used2 (glob2 s) = 0 then Some (goto2 i DC_waiting (unlock2 s)) else Some (goto2 i DC_copy s)
      | DC_relock \<Rightarrow> map_option (goto2 i DC_check) (lock2 s)
      | DC_copy \<Rightarrow>
          (let h = head5 (glob2 s) in Some (goto2 i (DC_head h (buffer5 (glob2 s) ! h)) s))
      | DC_head h msg \<Rightarrow>
          Some (goto2 i (DC_count msg)
            (s\<lparr>glob2 := (glob2 s)\<lparr>head5 := (head5 (glob2 s) + 1) mod FIXED_SIZE\<rparr>,
               delivered2 := delivered2 s @ [msg]\<rparr>))
      | DC_count msg \<Rightarrow>
          (let n = consumedCount5 (glob2 s) + 1
           in Some (goto2 i (DC_signal msg n) (s\<lparr>glob2 := (glob2 s)\<lparr>consumedCount5 := n\<rparr>\<rparr>)))
      | DC_signal msg n \<Rightarrow> map_option (goto2 i (DC_unlock msg n)) (signal_not_full j s)
      | DC_unlock msg n \<Rightarrow> Some (goto2 i (DC_print msg n) (unlock2 s))
      | DC_print msg n \<Rightarrow>
          (let ok = verify_hash5 msg in Some (goto2 i DC_sleep (say2 (Consumed_message i n ok) s)))
      | DC_sleep \<Rightarrow> Some (goto2 i DC_lock s)
      | DC_dying \<Rightarrow> map_option (goto2 i DC_dead_locked) (lock2 s)
      | _ \<Rightarrow> None)"

text \<open>A spurious wakeup, and the cancellation points \<open>pthread_cond_wait\<close>, \<open>printf\<close> and \<open>sleep\<close>.\<close>

definition wake2 :: "nat \<Rightarrow> csys \<Rightarrow> csys option" where
  "wake2 i s =
     (case at2 (threads2 s ! i) of
        DP_waiting \<Rightarrow> Some (goto2 i DP_relock s)
      | DC_waiting \<Rightarrow> Some (goto2 i DC_relock s)
      | _ \<Rightarrow> None)"

definition cancelled_to :: "cpc \<Rightarrow> cpc option" where
  "cancelled_to p =
     (case p of
        DP_waiting \<Rightarrow> Some DP_dying | DP_print n \<Rightarrow> Some DP_dead | DP_sleep \<Rightarrow> Some DP_dead
      | DC_waiting \<Rightarrow> Some DC_dying | DC_print m n \<Rightarrow> Some DC_dead | DC_sleep \<Rightarrow> Some DC_dead
      | _ \<Rightarrow> None)"

definition cancel2 :: "nat \<Rightarrow> csys \<Rightarrow> csys option" where
  "cancel2 i s =
     (if cancelled2 (threads2 s ! i)
      then map_option (\<lambda>q. goto2 i q s) (cancelled_to (at2 (threads2 s ! i))) else None)"

definition pthread_cancel2 :: "nat \<Rightarrow> csys \<Rightarrow> csys" where
  "pthread_cancel2 i s = s\<lparr>threads2 := (threads2 s)[i := (threads2 s ! i)\<lparr>cancelled2 := True\<rparr>]\<rparr>"

fun ended2 :: "cpc \<Rightarrow> bool" where
  "ended2 DP_dead_locked = True" | "ended2 DP_dead = True" | "ended2 DC_dead_locked = True"
| "ended2 DC_dead = True" | "ended2 p = False"

section \<open>main\<close>

definition new_thread2 :: "cpc \<Rightarrow> cthread" where
  "new_thread2 p = \<lparr>at2 = p, cancelled2 = False, rand2 = 0\<rparr>"

definition create_producer2 :: "csys \<Rightarrow> csys" where
  "create_producer2 s =
     (if length (producer_ids2 s) < MAX_THREADS then
        s\<lparr>threads2 := threads2 s @ [new_thread2 DP_start],
          producer_ids2 := producer_ids2 s @ [length (threads2 s)],
          main2_at := M2_lock Inc_producers\<rparr>
      else say2 Max_producers s)"

definition create_consumer2 :: "csys \<Rightarrow> csys" where
  "create_consumer2 s =
     (if length (consumer_ids2 s) < MAX_THREADS then
        s\<lparr>threads2 := threads2 s @ [new_thread2 DC_lock],
          consumer_ids2 := consumer_ids2 s @ [length (threads2 s)],
          main2_at := M2_lock Inc_consumers\<rparr>
      else say2 Max_consumers s)"

definition kill_producer2 :: "csys \<Rightarrow> csys" where
  "kill_producer2 s =
     (if producer_ids2 s \<noteq> [] then
        let tid = last (producer_ids2 s)
        in pthread_cancel2 tid (s\<lparr>producer_ids2 := butlast (producer_ids2 s),
                                  main2_at := M2_join_producer tid\<rparr>)
      else say2 No_producers5 s)"

definition kill_consumer2 :: "csys \<Rightarrow> csys" where
  "kill_consumer2 s =
     (if consumer_ids2 s \<noteq> [] then
        let tid = last (consumer_ids2 s)
        in pthread_cancel2 tid (s\<lparr>consumer_ids2 := butlast (consumer_ids2 s),
                                  main2_at := M2_join_consumer tid\<rparr>)
      else say2 No_consumers5 s)"

text \<open>Lines 218 to 221.\<close>

definition quit2 :: "csys \<Rightarrow> csys" where
  "quit2 s =
     (let ids = producer_ids2 s @ consumer_ids2 s
      in (fold pthread_cancel2 ids s)\<lparr>main2_at := M2_join_all ids\<rparr>)"

text \<open>
  Lines 119 to 216. The loop tests for \<open>EOF\<close> and \<open>'q'\<close> first, so the \<open>case 'q'\<close> of the switch is
  never reached.
\<close>

definition command2 :: "char option \<Rightarrow> csys \<Rightarrow> csys" where
  "command2 ch s =
     (case ch of
        None \<Rightarrow> quit2 s
      | Some c \<Rightarrow>
          if c = CHR ''q'' then quit2 s
          else if c = CHR 0x0A then s
          else if c = CHR ''p'' then create_producer2 s
          else if c = CHR ''c'' then create_consumer2 s
          else if c = CHR ''P'' then kill_producer2 s
          else if c = CHR ''C'' then kill_consumer2 s
          else if c = CHR ''+'' then s\<lparr>main2_at := M2_lock Inc_size\<rparr>
          else if c = CHR ''-'' then s\<lparr>main2_at := M2_lock Dec_size\<rparr>
          else if c = CHR ''s'' then s\<lparr>main2_at := M2_lock Show_status\<rparr>
          else say2 (Unknown5 c) s)"

text \<open>Between locking and unlocking the mutex: the size is tested and printed under the mutex.\<close>

definition do_update2 :: "update \<Rightarrow> nat \<Rightarrow> csys \<Rightarrow> csys option" where
  "do_update2 u j s =
     (let g = glob2 s in
      case u of
        Inc_producers \<Rightarrow> Some (s\<lparr>glob2 := g\<lparr>producers5 := producers5 g + 1\<rparr>\<rparr>)
      | Inc_consumers \<Rightarrow> Some (s\<lparr>glob2 := g\<lparr>consumers5 := consumers5 g + 1\<rparr>\<rparr>)
      | Dec_producers tid \<Rightarrow> Some (s\<lparr>glob2 := g\<lparr>producers5 := producers5 g - 1\<rparr>\<rparr>)
      | Dec_consumers tid \<Rightarrow> Some (s\<lparr>glob2 := g\<lparr>consumers5 := consumers5 g - 1\<rparr>\<rparr>)
      | Inc_size \<Rightarrow>
          if current_queue_size g < FIXED_SIZE then
            map_option (say2 (Increased (int (current_queue_size g + 1))))
              (signal_not_full j (s\<lparr>glob2 := g\<lparr>current_queue_size := current_queue_size g + 1\<rparr>\<rparr>))
          else Some (say2 At_maximum s)
      | Dec_size \<Rightarrow>
          if current_queue_size g > 1 then
            Some (say2 (Decreased (int (current_queue_size g - 1)))
              (s\<lparr>glob2 := g\<lparr>current_queue_size := current_queue_size g - 1\<rparr>\<rparr>))
          else Some (say2 At_minimum s)
      | Show_status \<Rightarrow> Some (say2 (Status5 (producers5 g) (consumers5 g) (producedCount5 g)
          (consumedCount5 g) (int (current_queue_size g)) (used2 g)) s))"

definition after_update2 :: "update \<Rightarrow> csys \<Rightarrow> csys" where
  "after_update2 u s =
     (case u of
        Inc_producers \<Rightarrow> say2 (Created_producer (last (producer_ids2 s))) s
      | Inc_consumers \<Rightarrow> say2 (Created_consumer (last (consumer_ids2 s))) s
      | Dec_producers tid \<Rightarrow> say2 (Killed_producer5 tid) s
      | Dec_consumers tid \<Rightarrow> say2 (Killed_consumer5 tid) s
      | _ \<Rightarrow> s)"

definition main2_step :: "nat \<Rightarrow> csys \<Rightarrow> csys option" where
  "main2_step j s =
     (case main2_at s of
        M2_join_producer tid \<Rightarrow>
          if ended2 (at2 (threads2 s ! tid)) then Some (s\<lparr>main2_at := M2_lock (Dec_producers tid)\<rparr>) else None
      | M2_join_consumer tid \<Rightarrow>
          if ended2 (at2 (threads2 s ! tid)) then Some (s\<lparr>main2_at := M2_lock (Dec_consumers tid)\<rparr>) else None
      | M2_lock u \<Rightarrow> map_option (\<lambda>s. s\<lparr>main2_at := M2_update u\<rparr>) (lock2 s)
      | M2_update u \<Rightarrow> map_option (\<lambda>s. s\<lparr>main2_at := M2_unlock u\<rparr>) (do_update2 u j s)
      | M2_unlock u \<Rightarrow> Some (after_update2 u ((unlock2 s)\<lparr>main2_at := M2_getchar\<rparr>))
      | M2_join_all [] \<Rightarrow> Some (say2 Finished (s\<lparr>main2_at := M2_done\<rparr>))
      | M2_join_all (i # is) \<Rightarrow>
          if ended2 (at2 (threads2 s ! i)) then Some (s\<lparr>main2_at := M2_join_all is\<rparr>) else None
      | _ \<Rightarrow> None)"

text \<open>Lines 18 to 25 and 98 to 106; the initial queue size is \<open>INITIAL_QUEUE_SIZE\<close>, also 10.\<close>

definition initial_csys :: "(nat \<Rightarrow> message) \<Rightarrow> csys" where
  "initial_csys mem =
     \<lparr>glob2 = \<lparr>buffer5 = map mem [0..<FIXED_SIZE], head5 = 0, tail5 = 0, producedCount5 = 0,
               consumedCount5 = 0, producers5 = 0, consumers5 = 0, current_queue_size = 10\<rparr>,
      mutex2 = 1, threads2 = [], main2_at = M2_getchar, producer_ids2 = [], consumer_ids2 = [],
      out2 = [], accepted2 = [], delivered2 = []\<rparr>"

section \<open>The system\<close>

text \<open>The second number of a step is the thread that a signal made in that step wakes.\<close>

datatype action2 = Thread2 nat nat | Wake2 nat | Cancel2 nat | Input2 "char option" | Main2 nat

fun is_producer2 :: "cpc \<Rightarrow> bool" where
  "is_producer2 DP_start = True" | "is_producer2 DP_lock = True" | "is_producer2 DP_check = True"
| "is_producer2 DP_waiting = True" | "is_producer2 DP_relock = True" | "is_producer2 DP_fill = True"
| "is_producer2 (DP_tail t) = True" | "is_producer2 DP_count = True" | "is_producer2 (DP_signal n) = True"
| "is_producer2 (DP_unlock n) = True" | "is_producer2 (DP_print n) = True" | "is_producer2 DP_sleep = True"
| "is_producer2 DP_dying = True" | "is_producer2 DP_dead_locked = True" | "is_producer2 DP_dead = True"
| "is_producer2 p = False"

definition step2 :: "(nat \<Rightarrow> nat \<Rightarrow> int) \<Rightarrow> csys \<Rightarrow> action2 \<Rightarrow> csys option" where
  "step2 rnd s a =
     (case a of
        Thread2 i j \<Rightarrow> if i < length (threads2 s)
          then (if is_producer2 (at2 (threads2 s ! i)) then producer2 rnd i j s else consumer2 i j s)
          else None
      | Wake2 i \<Rightarrow> if i < length (threads2 s) then wake2 i s else None
      | Cancel2 i \<Rightarrow> if i < length (threads2 s) then cancel2 i s else None
      | Input2 ch \<Rightarrow> if main2_at s = M2_getchar then Some (command2 ch s) else None
      | Main2 j \<Rightarrow> main2_step j s)"

end
