(* ===== verification/Cond_Queue_Correct.thy ===== *)
theory Cond_Queue_Correct
  imports Cond_Queue
begin

text \<open>
  Correctness of Lab5/parent2.c: mutual exclusion and the contents of the ring (an interpretation
  of \<open>locked_ring\<close>), the refinement of the bounded queue as long as the queue size has never been
  \<open>FIXED_SIZE\<close>, and the lemmas behind the two ways the program fails.
\<close>

section \<open>The ring under the mutex\<close>

text \<open>A thread that ended in \<open>pthread_cond_wait\<close> still holds the mutex.\<close>

fun in_crit2 :: "cpc \<Rightarrow> bool" where
  "in_crit2 DP_check = True" | "in_crit2 DP_fill = True" | "in_crit2 (DP_tail t) = True"
| "in_crit2 DP_count = True" | "in_crit2 (DP_signal n) = True" | "in_crit2 (DP_unlock n) = True"
| "in_crit2 DP_dead_locked = True"
| "in_crit2 DC_check = True" | "in_crit2 DC_copy = True" | "in_crit2 (DC_head h m) = True"
| "in_crit2 (DC_count m) = True" | "in_crit2 (DC_signal m n) = True" | "in_crit2 (DC_unlock m n) = True"
| "in_crit2 DC_dead_locked = True" | "in_crit2 p = False"

fun local_ok2 :: "message list \<Rightarrow> nat \<Rightarrow> nat \<Rightarrow> nat \<Rightarrow> cpc \<Rightarrow> bool" where
  "local_ok2 b h t n (DP_tail x) = (x = t \<and> verify_hash5 (b ! t))"
| "local_ok2 b h t n DC_copy = (n mod FIXED_SIZE \<noteq> 0)"
| "local_ok2 b h t n (DC_head x m) = (x = h \<and> m = b ! h \<and> n mod FIXED_SIZE \<noteq> 0)"
| "local_ok2 b h t n (DC_count m) = verify_hash5 m"
| "local_ok2 b h t n (DC_signal m k) = verify_hash5 m"
| "local_ok2 b h t n (DC_unlock m k) = verify_hash5 m"
| "local_ok2 b h t n (DC_print m k) = verify_hash5 m"
| "local_ok2 b h t n p = True"

interpretation lr2: locked_ring FIXED_SIZE in_crit2 verify_hash5 local_ok2
proof unfold_locales
  show "0 < FIXED_SIZE" by (simp add: FIXED_SIZE_def)
next
  show "\<And>p b h t n b' h' t' n'. \<not> in_crit2 p \<Longrightarrow> local_ok2 b h t n p \<Longrightarrow> local_ok2 b' h' t' n' p"
    by (case_tac p) auto
qed

definition pcs2 :: "csys \<Rightarrow> cpc list" where
  "pcs2 s = map at2 (threads2 s)"

definition view2 :: "csys \<Rightarrow> message ring_view" where
  "view2 s = \<lparr>lock_free = mutex2 s, slots = buffer5 (glob2 s), oldest = head5 (glob2 s),
     vacant = tail5 (glob2 s), put_in = accepted2 s, taken_out = delivered2 s\<rparr>"

definition main_holds2 :: "csys \<Rightarrow> nat" where
  "main_holds2 s = (case main2_at s of M2_update u \<Rightarrow> 1 | M2_unlock u \<Rightarrow> 1 | _ \<Rightarrow> 0)"

definition in_queue2 :: "csys \<Rightarrow> nat" where
  "in_queue2 s = length (accepted2 s) - length (delivered2 s)"

definition queue_inv2 :: "csys \<Rightarrow> bool" where
  "queue_inv2 s \<longleftrightarrow> lr2.linv (main_holds2 s) (view2 s) (pcs2 s)"

lemma in_ring_view2 [simp]: "in_ring (view2 s) = in_queue2 s"
  by (simp add: in_ring_def in_queue2_def view2_def)

lemma view2_fields [simp]:
  "lock_free (view2 s) = mutex2 s" "slots (view2 s) = buffer5 (glob2 s)"
  "oldest (view2 s) = head5 (glob2 s)" "vacant (view2 s) = tail5 (glob2 s)"
  "put_in (view2 s) = accepted2 s" "taken_out (view2 s) = delivered2 s"
  by (simp_all add: view2_def)

lemma goto2_fields [simp]:
  "glob2 (goto2 i p s) = glob2 s" "mutex2 (goto2 i p s) = mutex2 s"
  "main2_at (goto2 i p s) = main2_at s" "producer_ids2 (goto2 i p s) = producer_ids2 s"
  "consumer_ids2 (goto2 i p s) = consumer_ids2 s" "out2 (goto2 i p s) = out2 s"
  "accepted2 (goto2 i p s) = accepted2 s" "delivered2 (goto2 i p s) = delivered2 s"
  "length (threads2 (goto2 i p s)) = length (threads2 s)" "view2 (goto2 i p s) = view2 s"
  "main_holds2 (goto2 i p s) = main_holds2 s" "in_queue2 (goto2 i p s) = in_queue2 s"
  by (simp_all add: goto2_def view2_def main_holds2_def in_queue2_def)

lemma say2_fields [simp]:
  "glob2 (say2 e s) = glob2 s" "mutex2 (say2 e s) = mutex2 s"
  "main2_at (say2 e s) = main2_at s" "producer_ids2 (say2 e s) = producer_ids2 s"
  "consumer_ids2 (say2 e s) = consumer_ids2 s" "out2 (say2 e s) = out2 s @ [e]"
  "accepted2 (say2 e s) = accepted2 s" "delivered2 (say2 e s) = delivered2 s"
  "threads2 (say2 e s) = threads2 s" "view2 (say2 e s) = view2 s"
  "main_holds2 (say2 e s) = main_holds2 s" "in_queue2 (say2 e s) = in_queue2 s"
  by (simp_all add: say2_def view2_def main_holds2_def in_queue2_def)

lemma length_pcs2 [simp]: "length (pcs2 s) = length (threads2 s)"
  by (simp add: pcs2_def)

lemma pcs2_nth: "i < length (threads2 s) \<Longrightarrow> pcs2 s ! i = at2 (threads2 s ! i)"
  by (simp add: pcs2_def)

lemma pcs2_cong: "threads2 s = threads2 t \<Longrightarrow> pcs2 s = pcs2 t"
  by (simp add: pcs2_def)

lemma pcs2_goto [simp]: "pcs2 (goto2 i p s) = (pcs2 s)[i := p]"
  by (simp add: pcs2_def goto2_def map_update)

lemma queue_inv2D:
  assumes "queue_inv2 s"
  shows "length (buffer5 (glob2 s)) = FIXED_SIZE" "head5 (glob2 s) < FIXED_SIZE"
    "mutex2 s + main_holds2 s + cnt in_crit2 (pcs2 s) = 1"
    "length (delivered2 s) \<le> length (accepted2 s)"
    "tail5 (glob2 s) = (head5 (glob2 s) + in_queue2 s) mod FIXED_SIZE"
    "lr2.holds_messages (view2 s)"
    "i < length (threads2 s) \<Longrightarrow>
       local_ok2 (buffer5 (glob2 s)) (head5 (glob2 s)) (tail5 (glob2 s)) (in_queue2 s) (at2 (threads2 s ! i))"
  using lr2.linvD(1-6) [OF assms [unfolded queue_inv2_def]]
    lr2.linvD(7) [OF assms [unfolded queue_inv2_def], of i]
  by (simp_all add: pcs2_nth)

text \<open>The number of messages the two indices stand for is right modulo the ring's size.\<close>

lemma used2_eq: "queue_inv2 s \<Longrightarrow> used2 (glob2 s) = int (in_queue2 s mod FIXED_SIZE)"
proof -
  assume inv: "queue_inv2 s"
  have "used2 (glob2 s) =
      (int ((head5 (glob2 s) + in_queue2 s) mod FIXED_SIZE) - int (head5 (glob2 s)) + int FIXED_SIZE) mod int FIXED_SIZE"
    by (simp add: used2_def queue_inv2D(5) [OF inv])
  also have "\<dots> = int (in_queue2 s) mod int FIXED_SIZE" by (simp add: zmod_int mod_simps)
  finally show ?thesis by (simp add: zmod_int)
qed

lemma queue_inv2_goto:
  assumes inv: "queue_inv2 s" and i: "i < length (threads2 s)" and p: "at2 (threads2 s ! i) = p"
    and u: "threads2 u = threads2 s" "main2_at u = main2_at s"
    and same: "head5 (glob2 u) = head5 (glob2 s)" "tail5 (glob2 u) = tail5 (glob2 s)"
      "buffer5 (glob2 u) = buffer5 (glob2 s)" "accepted2 u = accepted2 s" "delivered2 u = delivered2 s"
    and lock: "mutex2 u + of_bool (in_crit2 q) = mutex2 s + of_bool (in_crit2 p)"
    and loc: "local_ok2 (buffer5 (glob2 s)) (head5 (glob2 s)) (tail5 (glob2 s)) (in_queue2 s) p \<Longrightarrow>
      local_ok2 (buffer5 (glob2 s)) (head5 (glob2 s)) (tail5 (glob2 s)) (in_queue2 s) q"
  shows "queue_inv2 (goto2 i q u)"
proof -
  have "lr2.linv (main_holds2 s) (view2 u) ((pcs2 s)[i := q])"
    by (rule lr2.quiet [of _ "view2 s" "pcs2 s" i p])
      (use inv i p same lock loc in \<open>simp_all add: queue_inv2_def view2_def pcs2_nth in_ring_def in_queue2_def\<close>)
  then show ?thesis by (simp add: queue_inv2_def pcs2_cong [OF u(1)] main_holds2_def u(2))
qed

text \<open>A signal only moves a waiting thread towards the mutex.\<close>

lemma signal_cases:
  assumes "signal w k j s = Some t"
  obtains "t = s" | "j < length (threads2 s)" "at2 (threads2 s ! j) = w" "t = goto2 j k s"
  using assms that unfolding signal_def by (metis option.distinct(1) option.inject)

lemma woken_inv:
  assumes "queue_inv2 s" and "j < length (threads2 s)"
    and "at2 (threads2 s ! j) = w" and "(w, k) \<in> {(DP_waiting, DP_relock), (DC_waiting, DC_relock)}"
  shows "queue_inv2 (goto2 j k s)"
  using assms by (intro queue_inv2_goto [OF assms(1-3)]) auto

lemma signal_inv:
  assumes inv: "queue_inv2 s"
    and sig: "signal_not_full j s = Some t \<or> signal_not_empty j s = Some t"
  shows "queue_inv2 t"
  using sig inv woken_inv [OF inv] unfolding signal_not_full_def signal_not_empty_def
  by (elim disjE signal_cases) simp_all

lemma cond_signal_fields:
  assumes "signal_not_full j s = Some t \<or> signal_not_empty j s = Some t"
  shows "glob2 t = glob2 s" "mutex2 t = mutex2 s" "main2_at t = main2_at s" "accepted2 t = accepted2 s"
    "delivered2 t = delivered2 s" "length (threads2 t) = length (threads2 s)" "out2 t = out2 s"
    "producer_ids2 t = producer_ids2 s" "consumer_ids2 t = consumer_ids2 s"
    "i < length (threads2 s) \<Longrightarrow> at2 (threads2 s ! i) \<noteq> DP_waiting \<Longrightarrow> at2 (threads2 s ! i) \<noteq> DC_waiting \<Longrightarrow>
       threads2 t ! i = threads2 s ! i"
  using assms unfolding signal_not_full_def signal_not_empty_def
  by (auto elim!: signal_cases simp: goto2_def nth_list_update)

lemma queue_inv2_signal_goto:
  assumes inv: "queue_inv2 s" and i: "i < length (threads2 s)" and p: "at2 (threads2 s ! i) = p"
    and sig: "signal_not_full j s = Some u \<or> signal_not_empty j s = Some u"
    and c: "in_crit2 p" "in_crit2 q"
    and loc: "local_ok2 (buffer5 (glob2 s)) (head5 (glob2 s)) (tail5 (glob2 s)) (in_queue2 s) p \<Longrightarrow>
      local_ok2 (buffer5 (glob2 s)) (head5 (glob2 s)) (tail5 (glob2 s)) (in_queue2 s) q"
  shows "queue_inv2 (goto2 i q u)"
proof -
  note f = cond_signal_fields [OF sig]
  have "p \<noteq> DP_waiting" "p \<noteq> DC_waiting" using c(1) by auto
  then have "at2 (threads2 u ! i) = p" using f(10) [OF i] p by simp
  moreover have "in_queue2 u = in_queue2 s" by (simp add: in_queue2_def f)
  ultimately show ?thesis
    using i c loc f by (intro queue_inv2_goto [OF signal_inv [OF inv sig], where p = p]) simp_all
qed

section \<open>The steps of the threads\<close>

definition thread_frame2 :: "csys \<Rightarrow> csys \<Rightarrow> bool" where
  "thread_frame2 s t \<longleftrightarrow> main2_at t = main2_at s \<and> length (threads2 t) = length (threads2 s) \<and>
     current_queue_size (glob2 t) = current_queue_size (glob2 s)"

lemma loop2_frame:
  "producer2 rnd i j s = Some t \<Longrightarrow> thread_frame2 s t"
  "consumer2 i j s = Some t \<Longrightarrow> thread_frame2 s t"
  "wake2 i s = Some t \<Longrightarrow> thread_frame2 s t"
  "cancel2 i s = Some t \<Longrightarrow> thread_frame2 s t"
  by (auto simp: producer2_def consumer2_def wake2_def cancel2_def thread_frame2_def lock2_def
      unlock2_def cond_signal_fields [OF disjI1] cond_signal_fields [OF disjI2] Let_def
      split: cpc.splits if_splits)

lemma queue_inv2_move:
  "lr2.linv (main_holds2 s) (view2 t) (pcs2 t) \<Longrightarrow> thread_frame2 s t \<Longrightarrow> queue_inv2 t"
  by (simp add: queue_inv2_def thread_frame2_def main_holds2_def)

lemma producer2_fill_inv:
  assumes inv: "queue_inv2 s" and i: "i < length (threads2 s)" and p: "at2 (threads2 s ! i) = DP_fill"
    and st: "producer2 rnd i j s = Some t"
  shows "queue_inv2 t"
proof (rule queue_inv2_move [OF _ loop2_frame(1) [OF st]])
  let ?m = "fill_random_message5 (rnd i) (rand2 (threads2 s ! i)) (buffer5 (glob2 s) ! tail5 (glob2 s))"
  have m: "verify_hash5 ?m"
    by (simp add: fill_random_message5_eq verify_hash5_eq fill_random_message_verifies)
  have t: "pcs2 t = (pcs2 s)[i := DP_tail (tail5 (glob2 s))]"
    "view2 t = (view2 s)\<lparr>slots := (slots (view2 s))[vacant (view2 s) := ?m]\<rparr>"
    using st p by (auto simp: producer2_def Let_def pcs2_def goto2_def map_update view2_def)
  have lt: "tail5 (glob2 s) < length (buffer5 (glob2 s))" using queue_inv2D(1,2,5) [OF inv] by simp
  show "lr2.linv (main_holds2 s) (view2 t) (pcs2 t)"
    unfolding t by (rule lr2.write_slot [where p = DP_fill])
      (use inv i p lt m in \<open>simp_all add: queue_inv2_def pcs2_nth\<close>)
qed

lemma producer2_publish_inv:
  assumes inv: "queue_inv2 s" and i: "i < length (threads2 s)" and p: "at2 (threads2 s ! i) = DP_tail x"
    and st: "producer2 rnd i j s = Some t"
  shows "queue_inv2 t"
proof (rule queue_inv2_move [OF _ loop2_frame(1) [OF st]])
  have x: "x = tail5 (glob2 s)" and v: "verify_hash5 (buffer5 (glob2 s) ! tail5 (glob2 s))"
    using queue_inv2D(7) [OF inv i] by (auto simp: p)
  have t: "pcs2 t = (pcs2 s)[i := DP_count]"
    "view2 t = (view2 s)\<lparr>vacant := (vacant (view2 s) + 1) mod FIXED_SIZE,
       put_in := put_in (view2 s) @ [slots (view2 s) ! vacant (view2 s)]\<rparr>"
    using st p by (auto simp: producer2_def Let_def pcs2_def goto2_def map_update view2_def x)
  show "lr2.linv (main_holds2 s) (view2 t) (pcs2 t)"
    unfolding t by (rule lr2.publish [where p = "DP_tail x"])
      (use inv i p v in \<open>simp_all add: queue_inv2_def pcs2_nth\<close>)
qed

lemma producer2_inv:
  assumes inv: "queue_inv2 s" and i: "i < length (threads2 s)" and st: "producer2 rnd i j s = Some t"
  shows "queue_inv2 t"
proof (cases "at2 (threads2 s ! i)")
  case DP_fill
  then show ?thesis by (rule producer2_fill_inv [OF inv i _ st])
next
  case (DP_tail x)
  then show ?thesis by (rule producer2_publish_inv [OF inv i _ st])
next
  case (DP_signal n)
  then show ?thesis using st
    by (auto simp: producer2_def intro!: queue_inv2_signal_goto [OF inv i])
qed (use st in \<open>auto simp: producer2_def lock2_def unlock2_def Let_def split: if_splits
      intro!: queue_inv2_goto [OF inv i]\<close>)

lemma consumer2_take_inv:
  assumes inv: "queue_inv2 s" and i: "i < length (threads2 s)" and p: "at2 (threads2 s ! i) = DC_head h m"
    and st: "consumer2 i j s = Some t"
  shows "queue_inv2 t"
proof (rule queue_inv2_move [OF _ loop2_frame(2) [OF st]])
  have h: "h = head5 (glob2 s)" and m: "m = buffer5 (glob2 s) ! head5 (glob2 s)"
    and n: "in_queue2 s mod FIXED_SIZE \<noteq> 0"
    using queue_inv2D(7) [OF inv i] by (auto simp: p)
  have t: "pcs2 t = (pcs2 s)[i := DC_count m]"
    "view2 t = (view2 s)\<lparr>oldest := (oldest (view2 s) + 1) mod FIXED_SIZE,
       taken_out := taken_out (view2 s) @ [slots (view2 s) ! oldest (view2 s)]\<rparr>"
    using st p by (auto simp: consumer2_def Let_def pcs2_def goto2_def map_update view2_def h m)
  show "lr2.linv (main_holds2 s) (view2 t) (pcs2 t)"
    unfolding t by (rule lr2.take_oldest [where p = "DC_head h m"])
      (use inv i p n in \<open>simp_all add: queue_inv2_def pcs2_nth m\<close>)
qed

lemma consumer2_inv:
  assumes inv: "queue_inv2 s" and i: "i < length (threads2 s)" and st: "consumer2 i j s = Some t"
  shows "queue_inv2 t"
proof (cases "at2 (threads2 s ! i)")
  case (DC_head h m)
  then show ?thesis by (rule consumer2_take_inv [OF inv i _ st])
next
  case (DC_signal m n)
  then show ?thesis using st
    by (auto simp: consumer2_def intro!: queue_inv2_signal_goto [OF inv i])
qed (use st used2_eq [OF inv] in \<open>auto simp: consumer2_def lock2_def unlock2_def Let_def split: if_splits
      intro!: queue_inv2_goto [OF inv i]\<close>)

lemma wake_cancel_inv:
  assumes inv: "queue_inv2 s" and i: "i < length (threads2 s)" and st: "wake2 i s = Some t \<or> cancel2 i s = Some t"
  shows "queue_inv2 t"
  using st by (cases "at2 (threads2 s ! i)")
    (auto simp: wake2_def cancel2_def cancelled_to_def split: if_splits intro!: queue_inv2_goto [OF inv i])

section \<open>main\<close>

lemma command2_cases:
  obtains "command2 ch s = s" | "command2 ch s = create_producer2 s" | "command2 ch s = create_consumer2 s"
  | "command2 ch s = kill_producer2 s" | "command2 ch s = kill_consumer2 s"
  | u where "command2 ch s = s\<lparr>main2_at := M2_lock u\<rparr>" | "command2 ch s = quit2 s"
  | c where "command2 ch s = say2 (Unknown5 c) s"
proof -
  have "command2 ch s \<in> {s, create_producer2 s, create_consumer2 s, kill_producer2 s, kill_consumer2 s, quit2 s}
      \<union> range (\<lambda>u. s\<lparr>main2_at := M2_lock u\<rparr>) \<union> range (\<lambda>c. say2 (Unknown5 c) s)"
    unfolding command2_def by (cases ch; simp only: option.case; (intro if_in)?; blast)
  then show thesis using that by blast
qed

lemmas command2_parts = create_producer2_def create_consumer2_def kill_producer2_def
  kill_consumer2_def quit2_def Let_def

lemma pthread_cancel2_fields [simp]:
  "glob2 (pthread_cancel2 i s) = glob2 s" "mutex2 (pthread_cancel2 i s) = mutex2 s"
  "main2_at (pthread_cancel2 i s) = main2_at s" "accepted2 (pthread_cancel2 i s) = accepted2 s"
  "delivered2 (pthread_cancel2 i s) = delivered2 s" "out2 (pthread_cancel2 i s) = out2 s"
  "view2 (pthread_cancel2 i s) = view2 s" "pcs2 (pthread_cancel2 i s) = pcs2 s"
proof -
  show "pcs2 (pthread_cancel2 i s) = pcs2 s"
    by (cases "i < length (threads2 s)")
      (simp_all add: pthread_cancel2_def pcs2_def map_update list_update_same_conv list_update_beyond not_less)
qed (simp_all add: pthread_cancel2_def view2_def)

lemma fold_cancel2_fields [simp]:
  "glob2 (fold pthread_cancel2 is s) = glob2 s" "mutex2 (fold pthread_cancel2 is s) = mutex2 s"
  "main2_at (fold pthread_cancel2 is s) = main2_at s"
  "accepted2 (fold pthread_cancel2 is s) = accepted2 s"
  "delivered2 (fold pthread_cancel2 is s) = delivered2 s" "out2 (fold pthread_cancel2 is s) = out2 s"
  "view2 (fold pthread_cancel2 is s) = view2 s" "pcs2 (fold pthread_cancel2 is s) = pcs2 s"
  by (induction "is" arbitrary: s) simp_all

lemma main2_simps [simp]:
  "view2 (s\<lparr>main2_at := x\<rparr>) = view2 s" "pcs2 (s\<lparr>main2_at := x\<rparr>) = pcs2 s"
  "view2 (s\<lparr>producer_ids2 := ids\<rparr>) = view2 s" "pcs2 (s\<lparr>producer_ids2 := ids\<rparr>) = pcs2 s"
  "view2 (s\<lparr>consumer_ids2 := ids\<rparr>) = view2 s" "pcs2 (s\<lparr>consumer_ids2 := ids\<rparr>) = pcs2 s"
  "view2 (s\<lparr>threads2 := ts\<rparr>) = view2 s" "pcs2 (s\<lparr>threads2 := threads2 s @ [new_thread2 p]\<rparr>) = pcs2 s @ [p]"
  "pcs2 (say2 e s) = pcs2 s" "pcs2 (s\<lparr>mutex2 := k\<rparr>) = pcs2 s"
  by (simp_all add: view2_def pcs2_def new_thread2_def)

lemma command2_fields:
  "glob2 (command2 ch s) = glob2 s" "view2 (command2 ch s) = view2 s"
  "accepted2 (command2 ch s) = accepted2 s" "delivered2 (command2 ch s) = delivered2 s"
  "mutex2 (command2 ch s) = mutex2 s"
  "main2_at s = M2_getchar \<Longrightarrow> main_holds2 (command2 ch s) = 0"
  by (cases rule: command2_cases [of ch s]; simp add: command2_parts main_holds2_def)+

lemma command2_pcs:
  "pcs2 (command2 ch s) = pcs2 s \<or> pcs2 (command2 ch s) = pcs2 s @ [DP_start] \<or>
   pcs2 (command2 ch s) = pcs2 s @ [DC_lock]"
  by (cases rule: command2_cases [of ch s]; simp add: command2_parts pcs2_def [of s, symmetric])

lemma command2_inv:
  assumes inv: "queue_inv2 s" and m: "main2_at s = M2_getchar"
  shows "queue_inv2 (command2 ch s)"
proof -
  have z: "main_holds2 s = 0" by (simp add: main_holds2_def m)
  have l: "lr2.linv 0 (view2 s) (pcs2 s)" using inv by (simp add: queue_inv2_def z)
  have "lr2.linv 0 (view2 s) (pcs2 (command2 ch s))"
    using command2_pcs [of ch s] l lr2.spawn [OF l, of DP_start] lr2.spawn [OF l, of DC_lock] by auto
  then show ?thesis by (simp add: queue_inv2_def command2_fields m)
qed

lemma queue_inv2_outside:
  assumes inv: "queue_inv2 s"
    and same: "buffer5 (glob2 t) = buffer5 (glob2 s)" "head5 (glob2 t) = head5 (glob2 s)"
      "tail5 (glob2 t) = tail5 (glob2 s)" "accepted2 t = accepted2 s" "delivered2 t = delivered2 s"
    and lock: "mutex2 t + main_holds2 t = mutex2 s + main_holds2 s" and pcs: "pcs2 t = pcs2 s"
  shows "queue_inv2 t"
  using inv unfolding queue_inv2_def pcs
  by (rule lr2.outside) (use same lock in simp_all)

lemma queue_inv2_glob:
  assumes "queue_inv2 s" and "buffer5 g = buffer5 (glob2 s)" "head5 g = head5 (glob2 s)"
    "tail5 g = tail5 (glob2 s)"
  shows "queue_inv2 (s\<lparr>glob2 := g\<rparr>)"
  by (rule queue_inv2_outside [OF assms(1)]) (simp_all add: assms main_holds2_def pcs2_def)

lemma queue_inv2_say [simp]: "queue_inv2 (say2 e s) = queue_inv2 s"
  by (simp add: queue_inv2_def)

lemma do_update2_inv:
  assumes inv: "queue_inv2 s" and st: "do_update2 u j s = Some t"
  shows "queue_inv2 t \<and> main2_at t = main2_at s"
proof (cases "u = Inc_size \<and> current_queue_size (glob2 s) < FIXED_SIZE")
  case True
  let ?r = "s\<lparr>glob2 := (glob2 s)\<lparr>current_queue_size := current_queue_size (glob2 s) + 1\<rparr>\<rparr>"
  obtain e r where r: "signal_not_full j ?r = Some r" and t: "t = say2 e r"
    using st True by (auto simp: do_update2_def Let_def)
  have "queue_inv2 ?r" by (rule queue_inv2_glob [OF inv]) simp_all
  from signal_inv [OF this disjI1 [OF r]] cond_signal_fields(3) [OF disjI1 [OF r]] t show ?thesis by simp
next
  case False
  with st inv show ?thesis
    by (cases u) (auto simp: do_update2_def Let_def split: if_splits intro!: queue_inv2_glob)
qed

lemma main2_step_inv:
  assumes inv: "queue_inv2 s" and st: "main2_step j s = Some t"
  shows "queue_inv2 t"
proof (cases "main2_at s")
  case (M2_update u)
  with st obtain r where r: "do_update2 u j s = Some r" and t: "t = r\<lparr>main2_at := M2_unlock u\<rparr>"
    by (auto simp: main2_step_def)
  have "main_holds2 t = main_holds2 r" using do_update2_inv [OF inv r] M2_update t by (simp add: main_holds2_def)
  then show ?thesis using do_update2_inv [OF inv r] by (simp add: queue_inv2_def t)
next
  case (M2_unlock u)
  then show ?thesis using st
    by (cases u; intro queue_inv2_outside [OF inv])
      (auto simp: main2_step_def after_update2_def unlock2_def main_holds2_def)
next
  case (M2_join_all "is")
  then show ?thesis using st
    by (intro queue_inv2_outside [OF inv])
      (auto simp: main2_step_def main_holds2_def split: list.splits if_splits)
qed (use st in \<open>(intro queue_inv2_outside [OF inv];
      auto simp: main2_step_def main_holds2_def lock2_def split: if_splits)\<close>)+

lemma initial_queue_inv2: "queue_inv2 (initial_csys mem)"
  by (simp add: queue_inv2_def lr2.linv_def lr2.holds_messages_def view2_def initial_csys_def
      pcs2_def main_holds2_def in_ring_def)
    (simp add: FIXED_SIZE_def)

lemma step2_queue_inv: "queue_inv2 s \<Longrightarrow> step2 rnd s a = Some t \<Longrightarrow> queue_inv2 t"
  by (auto simp: step2_def split: action2.splits if_splits
      intro: producer2_inv consumer2_inv wake_cancel_inv command2_inv main2_step_inv)

section \<open>Histories and events\<close>

lemma loop2_hist:
  "producer2 rnd i j s = Some t \<Longrightarrow> hist_step (accepted2 s) (delivered2 s) (accepted2 t) (delivered2 t)"
  "consumer2 i j s = Some t \<Longrightarrow> hist_step (accepted2 s) (delivered2 s) (accepted2 t) (delivered2 t)"
  "wake2 i s = Some t \<Longrightarrow> hist_step (accepted2 s) (delivered2 s) (accepted2 t) (delivered2 t)"
  "cancel2 i s = Some t \<Longrightarrow> hist_step (accepted2 s) (delivered2 s) (accepted2 t) (delivered2 t)"
  by (auto simp: producer2_def consumer2_def wake2_def cancel2_def lock2_def unlock2_def Let_def
      cond_signal_fields [OF disjI1] cond_signal_fields [OF disjI2] split: cpc.splits if_splits)

lemma main2_step_hist:
  assumes "main2_step j s = Some t"
  shows "accepted2 t = accepted2 s" "delivered2 t = delivered2 s"
  using assms
  by (auto simp: main2_step_def lock2_def unlock2_def do_update2_def after_update2_def Let_def
      cond_signal_fields [OF disjI1] split: main2.splits update.splits list.splits if_splits)

lemma step2_hist:
  "step2 rnd s a = Some t \<Longrightarrow> hist_step (accepted2 s) (delivered2 s) (accepted2 t) (delivered2 t)"
  by (auto simp: step2_def loop2_hist main2_step_hist command2_fields split: action2.splits if_splits)

text \<open>A message is put in at one program point only.\<close>

lemma put_point:
  assumes "step2 rnd s a = Some t" and "accepted2 t \<noteq> accepted2 s"
  obtains i j x where "a = Thread2 i j" "i < length (threads2 s)" "at2 (threads2 s ! i) = DP_tail x"
    "pcs2 t = (pcs2 s)[i := DP_count]" "in_queue2 s \<le> in_queue2 t" "in_queue2 t \<le> Suc (in_queue2 s)"
proof -
  have other: "consumer2 i j s = Some u \<Longrightarrow> accepted2 u = accepted2 s"
    "wake2 i s = Some u \<Longrightarrow> accepted2 u = accepted2 s" "cancel2 i s = Some u \<Longrightarrow> accepted2 u = accepted2 s"
    for i j u
    by (auto simp: consumer2_def wake2_def cancel2_def lock2_def unlock2_def Let_def
        cond_signal_fields [OF disjI1] split: cpc.splits if_splits)
  from assms obtain i j where a: "a = Thread2 i j" and i: "i < length (threads2 s)"
    and st: "producer2 rnd i j s = Some t"
    by (auto simp: step2_def main2_step_hist command2_fields other split: action2.splits if_splits)
  have "\<exists>x. at2 (threads2 s ! i) = DP_tail x"
  proof (rule ccontr)
    assume "\<nexists>x. at2 (threads2 s ! i) = DP_tail x"
    then have "accepted2 t = accepted2 s" using st
      by (cases "at2 (threads2 s ! i)") (auto simp: producer2_def lock2_def unlock2_def Let_def
          cond_signal_fields [OF disjI2] split: if_splits)
    with assms(2) show False by simp
  qed
  then obtain x where x: "at2 (threads2 s ! i) = DP_tail x" by blast
  with st have "pcs2 t = (pcs2 s)[i := DP_count]" "in_queue2 s \<le> in_queue2 t" "in_queue2 t \<le> Suc (in_queue2 s)"
    by (auto simp: producer2_def pcs2_def goto2_def map_update in_queue2_def)
  then show thesis using that a i x by blast
qed

lemma taken_point:
  assumes "step2 rnd s a = Some t" and "delivered2 t \<noteq> delivered2 s"
  shows "\<exists>i h m. i < length (threads2 s) \<and> at2 (threads2 s ! i) = DC_head h m"
proof -
  have other: "producer2 rnd i j s = Some u \<Longrightarrow> delivered2 u = delivered2 s"
    "wake2 i s = Some u \<Longrightarrow> delivered2 u = delivered2 s" "cancel2 i s = Some u \<Longrightarrow> delivered2 u = delivered2 s"
    for i j u
    by (auto simp: producer2_def wake2_def cancel2_def lock2_def unlock2_def Let_def
        cond_signal_fields [OF disjI2] split: cpc.splits if_splits)
  from assms obtain i j where i: "i < length (threads2 s)" and st: "consumer2 i j s = Some t"
    by (auto simp: step2_def main2_step_hist command2_fields other split: action2.splits if_splits)
  have "\<exists>h m. at2 (threads2 s ! i) = DC_head h m"
  proof (rule ccontr)
    assume "\<nexists>h m. at2 (threads2 s ! i) = DC_head h m"
    then have "delivered2 t = delivered2 s" using st
      by (cases "at2 (threads2 s ! i)") (auto simp: consumer2_def lock2_def unlock2_def Let_def
          cond_signal_fields [OF disjI1] split: if_splits)
    with assms(2) show False by simp
  qed
  with i show ?thesis by blast
qed

fun event_ok2 :: "event5 \<Rightarrow> bool" where
  "event_ok2 (Consumed_message i n ok) = ok" | "event_ok2 e = True"

definition out_inv2 :: "csys \<Rightarrow> bool" where
  "out_inv2 s \<longleftrightarrow> (\<forall>e \<in> set (out2 s). event_ok2 e)"

lemma loop2_out:
  assumes "queue_inv2 s" and i: "i < length (threads2 s)" and "out_inv2 s"
  shows "producer2 rnd i j s = Some t \<Longrightarrow> out_inv2 t" and "consumer2 i j s = Some t \<Longrightarrow> out_inv2 t"
    and "wake2 i s = Some t \<Longrightarrow> out_inv2 t" and "cancel2 i s = Some t \<Longrightarrow> out_inv2 t"
  using queue_inv2D(7) [OF assms(1) i] assms(3)
  by (auto simp: producer2_def consumer2_def wake2_def cancel2_def lock2_def unlock2_def Let_def out_inv2_def
      cond_signal_fields [OF disjI1] cond_signal_fields [OF disjI2] split: cpc.splits if_splits)

lemma command2_out: "out_inv2 s \<Longrightarrow> out_inv2 (command2 ch s)"
  by (cases rule: command2_cases [of ch s]; simp add: command2_parts out_inv2_def)

lemma main2_step_out: "out_inv2 s \<Longrightarrow> main2_step j s = Some t \<Longrightarrow> out_inv2 t"
  by (auto simp: main2_step_def lock2_def unlock2_def do_update2_def after_update2_def Let_def
      out_inv2_def cond_signal_fields [OF disjI1] split: main2.splits update.splits list.splits if_splits)

lemma step2_out: "queue_inv2 s \<Longrightarrow> out_inv2 s \<Longrightarrow> step2 rnd s a = Some t \<Longrightarrow> out_inv2 t"
  by (auto simp: step2_def split: action2.splits if_splits
      intro: loop2_out command2_out main2_step_out)

interpretation cond_queue: invariant_machine "step2 rnd" "initial_csys mem" "\<lambda>s. queue_inv2 s \<and> out_inv2 s"
proof unfold_locales
  show "queue_inv2 (initial_csys mem) \<and> out_inv2 (initial_csys mem)"
    using initial_queue_inv2 by (simp add: out_inv2_def initial_csys_def)
qed (auto intro: step2_queue_inv step2_out)

section \<open>Queues smaller than the ring\<close>

text \<open>The program as long as \<open>current_queue_size\<close> has never been \<open>FIXED_SIZE\<close>.\<close>

definition small_step2 :: "(nat \<Rightarrow> nat \<Rightarrow> int) \<Rightarrow> csys \<Rightarrow> action2 \<Rightarrow> csys option" where
  "small_step2 rnd s a =
     (case step2 rnd s a of
        None \<Rightarrow> None
      | Some t \<Rightarrow> if current_queue_size (glob2 t) < FIXED_SIZE then Some t else None)"

lemma small_step2D: "small_step2 rnd s a = Some t \<Longrightarrow>
    step2 rnd s a = Some t \<and> current_queue_size (glob2 t) < FIXED_SIZE"
  by (auto simp: small_step2_def split: option.splits if_splits)

text \<open>A producer past its check has room for one message.\<close>

fun has_room :: "cpc \<Rightarrow> bool" where
  "has_room DP_fill = True" | "has_room (DP_tail t) = True" | "has_room p = False"

definition small_inv2 :: "csys \<Rightarrow> bool" where
  "small_inv2 s \<longleftrightarrow> current_queue_size (glob2 s) < FIXED_SIZE \<and> in_queue2 s < FIXED_SIZE \<and>
     (\<forall>i < length (pcs2 s). has_room (pcs2 s ! i) \<longrightarrow> Suc (in_queue2 s) < FIXED_SIZE)"

text \<open>How a thread comes to have room.\<close>

lemma goto2_nth:
  "j < length (threads2 s) \<Longrightarrow> at2 (threads2 (goto2 i p s) ! j) = (if j = i then p else at2 (threads2 s ! j))"
  by (auto simp: goto2_def nth_list_update)

lemma signal_room:
  assumes "signal_not_full j s = Some t \<or> signal_not_empty j s = Some t" and "k < length (threads2 s)"
    and "has_room (at2 (threads2 t ! k))"
  shows "has_room (at2 (threads2 s ! k))"
  using assms unfolding signal_not_full_def signal_not_empty_def
  by (elim disjE signal_cases) (auto simp: goto2_nth split: if_splits)

lemma thread_room:
  assumes st: "producer2 rnd i j s = Some t \<or> consumer2 i j s = Some t \<or> wake2 i s = Some t \<or> cancel2 i s = Some t"
    and i: "i < length (threads2 s)" and k: "k < length (threads2 s)" and room: "has_room (at2 (threads2 t ! k))"
  shows "has_room (at2 (threads2 s ! k)) \<or>
    k = i \<and> at2 (threads2 s ! i) = DP_check \<and> used2 (glob2 s) < int (current_queue_size (glob2 s))"
  using st i k room signal_room [OF disjI1, of j s _ k] signal_room [OF disjI2, of j s _ k]
  by (auto simp: producer2_def consumer2_def wake2_def cancel2_def cancelled_to_def lock2_def unlock2_def
      Let_def goto2_nth say2_def cond_signal_fields [OF disjI1] cond_signal_fields [OF disjI2]
      split: cpc.splits if_splits)

lemma main2_step_room:
  assumes "main2_step j s = Some t" and "k < length (threads2 s)" and "has_room (at2 (threads2 t ! k))"
  shows "has_room (at2 (threads2 s ! k))"
proof -
  have upd: "has_room (at2 (threads2 r ! k)) \<Longrightarrow> has_room (at2 (threads2 s ! k))" 
    if "do_update2 u j s = Some r" for u r
    using that assms(2) signal_room [of j _ _ k]
    by (auto simp: do_update2_def Let_def split: update.splits if_splits) fastforce
  show ?thesis
    using assms upd by (auto simp: main2_step_def lock2_def unlock2_def after_update2_def
        split: main2.splits update.splits list.splits if_splits)
qed

lemma command2_room:
  assumes "k < length (pcs2 (command2 ch s))" and "has_room (pcs2 (command2 ch s) ! k)"
  shows "k < length (pcs2 s) \<and> has_room (pcs2 s ! k)"
  using assms command2_pcs [of ch s]
  by (elim disjE) (auto simp: nth_append less_Suc_eq simp del: length_pcs2 split: if_splits)

lemma step2_room:
  assumes st: "step2 rnd s a = Some t" and k: "k < length (pcs2 t)" and room: "has_room (pcs2 t ! k)"
  shows "k < length (pcs2 s) \<and> (has_room (pcs2 s ! k) \<or> used2 (glob2 s) < int (current_queue_size (glob2 s)))"
proof (cases a)
  case (Input2 ch)
  with st have "t = command2 ch s" by (simp add: step2_def split: if_splits)
  with command2_room [of k ch s] k room show ?thesis by blast
next
  case (Main2 j)
  with st have m: "main2_step j s = Some t" by (simp add: step2_def)
  have "length (threads2 t) = length (threads2 s)"
    using m by (auto simp: main2_step_def lock2_def unlock2_def do_update2_def after_update2_def Let_def
        cond_signal_fields [OF disjI1] split: main2.splits update.splits list.splits if_splits)
  then show ?thesis using main2_step_room [OF m, of k] k room by (simp add: pcs2_nth)
next
  case (Thread2 i j)
  with st have m: "producer2 rnd i j s = Some t \<or> consumer2 i j s = Some t" and i: "i < length (threads2 s)"
    by (auto simp: step2_def split: if_splits)
  then have "length (threads2 t) = length (threads2 s)" using loop2_frame by (auto simp: thread_frame2_def)
  then show ?thesis using thread_room [of rnd i j s t k] m i k room by (auto simp: pcs2_nth)
next
  case (Wake2 i)
  with st have m: "wake2 i s = Some t" and i: "i < length (threads2 s)"
    by (auto simp: step2_def split: if_splits)
  then have "length (threads2 t) = length (threads2 s)" using loop2_frame(3) by (auto simp: thread_frame2_def)
  then show ?thesis using thread_room [of _ i _ s t k] m i k room by (auto simp: pcs2_nth)
next
  case (Cancel2 i)
  with st have m: "cancel2 i s = Some t" and i: "i < length (threads2 s)"
    by (auto simp: step2_def split: if_splits)
  then have "length (threads2 t) = length (threads2 s)" using loop2_frame(4) by (auto simp: thread_frame2_def)
  then show ?thesis using thread_room [of _ i _ s t k] m i k room by (auto simp: pcs2_nth)
qed

lemma in_queue_no_put:
  assumes "queue_inv2 s" and "step2 rnd s a = Some t" and "accepted2 t = accepted2 s"
  shows "in_queue2 t \<le> in_queue2 s"
  using step2_hist [OF assms(2)] assms(3) by (auto simp: hist_step_def in_queue2_def)

lemma small_inv2_step:
  assumes inv: "queue_inv2 s" "small_inv2 s" and st: "small_step2 rnd s a = Some t"
  shows "small_inv2 t"
proof -
  from small_step2D [OF st] have st: "step2 rnd s a = Some t" and size: "current_queue_size (glob2 t) < FIXED_SIZE"
    by simp_all
  show ?thesis
  proof (cases "accepted2 t = accepted2 s")
    case True
    have le: "in_queue2 t \<le> in_queue2 s" by (rule in_queue_no_put [OF inv(1) st True])
    have "Suc (in_queue2 t) < FIXED_SIZE" if "k < length (pcs2 t)" "has_room (pcs2 t ! k)" for k
      using step2_room [OF st that] inv(2) le used2_eq [OF inv(1)] by (auto simp: small_inv2_def)
    then show ?thesis using le inv(2) size by (simp add: small_inv2_def)
  next
    case False
    from put_point [OF st False] obtain i x where i: "i < length (threads2 s)"
      and x: "at2 (threads2 s ! i) = DP_tail x" and t: "pcs2 t = (pcs2 s)[i := DP_count]"
      and le: "in_queue2 t \<le> Suc (in_queue2 s)" by blast
    have x': "pcs2 s ! i = DP_tail x" using x i by (simp add: pcs2_nth)
    then have "Suc (in_queue2 s) < FIXED_SIZE" using inv(2) i by (simp add: small_inv2_def)
    moreover have "\<not> has_room (pcs2 t ! k)" if "k < length (pcs2 t)" for k
    proof
      assume r: "has_room (pcs2 t ! k)"
      have k: "k < length (threads2 s)" using that t by (metis length_list_update length_pcs2)
      with r i have ne: "k \<noteq> i" by (auto simp: t)
      then have "in_crit2 (pcs2 s ! k)" using r by (auto simp: t elim!: has_room.elims)
      moreover have "lr2.linv (main_holds2 s) (view2 s) (pcs2 s)" using inv(1) by (simp add: queue_inv2_def)
      ultimately have "k = i" using lr2.crit_exclusive [of _ "view2 s" "pcs2 s" k i] k i x' by simp
      with ne show False by simp
    qed
    ultimately show ?thesis using le size by (auto simp: small_inv2_def)
  qed
qed

definition queue_abs2 :: "csys \<Rightarrow> message fifo" where
  "queue_abs2 s =
     \<lparr>pending = ring_contents FIXED_SIZE (buffer5 (glob2 s)) (head5 (glob2 s)) (in_queue2 s),
      accepted = accepted2 s, delivered = delivered2 s\<rparr>"

interpretation small_queue: fifo_machine "small_step2 rnd" "initial_csys mem"
  "\<lambda>s. queue_inv2 s \<and> small_inv2 s" "FIXED_SIZE - 1" queue_abs2
proof unfold_locales
  show "queue_inv2 (initial_csys mem) \<and> small_inv2 (initial_csys mem)"
    using initial_queue_inv2
    by (simp add: small_inv2_def in_queue2_def initial_csys_def pcs2_def FIXED_SIZE_def)
next
  show "\<And>s a t. queue_inv2 s \<and> small_inv2 s \<Longrightarrow> small_step2 rnd s a = Some t \<Longrightarrow> queue_inv2 t \<and> small_inv2 t"
    using small_inv2_step step2_queue_inv small_step2D by blast
next
  show "queue_abs2 (initial_csys mem) = empty_fifo"
    by (simp add: queue_abs2_def initial_csys_def empty_fifo_def in_queue2_def)
next
  fix s assume "queue_inv2 s \<and> small_inv2 s"
  then show "fifo_inv (FIXED_SIZE - 1) (queue_abs2 s)"
    using lr2.holds_messagesD(4) [OF queue_inv2D(6), of s]
    by (auto simp: fifo_inv_def queue_abs2_def small_inv2_def)
next
  show "\<And>s a t. small_step2 rnd s a = Some t \<Longrightarrow>
      hist_step (accepted (queue_abs2 s)) (delivered (queue_abs2 s))
        (accepted (queue_abs2 t)) (delivered (queue_abs2 t))"
    using small_step2D step2_hist by (simp add: queue_abs2_def) blast
qed

section \<open>A mutex that is never released, a ring that has wrapped around\<close>

lemma signal_at:
  assumes "signal_not_full j s = Some t \<or> signal_not_empty j s = Some t" and "i < length (threads2 s)"
    and "at2 (threads2 s ! i) \<in> {DP_dead_locked, DC_dead_locked}"
  shows "at2 (threads2 t ! i) = at2 (threads2 s ! i)"
  using cond_signal_fields(10) [OF assms(1,2)] assms(3) by auto

text \<open>With the mutex held by a dead thread, no step touches the shared data or releases it.\<close>

lemma dead_lock_step:
  assumes inv: "queue_inv2 s" and i: "i < length (threads2 s)"
    and d: "at2 (threads2 s ! i) \<in> {DP_dead_locked, DC_dead_locked}" and st: "step2 rnd s a = Some t"
  shows "glob2 t = glob2 s \<and> accepted2 t = accepted2 s \<and> delivered2 t = delivered2 s \<and>
    i < length (threads2 t) \<and> at2 (threads2 t ! i) = at2 (threads2 s ! i)"
proof -
  have c: "in_crit2 (pcs2 s ! i)" using d i by (auto simp: pcs2_nth)
  have "0 < cnt in_crit2 (pcs2 s)" by (rule cnt_pos [of i]) (use c i in simp_all)
  then have m: "mutex2 s = 0" "main_holds2 s = 0" using queue_inv2D(3) [OF inv] by simp_all
  have out: "\<not> in_crit2 (at2 (threads2 s ! k))" if "k < length (threads2 s)" "k \<noteq> i" for k
    using lr2.crit_exclusive [OF inv [unfolded queue_inv2_def], of k i] c that i by (auto simp: pcs2_nth)
  show ?thesis
  proof (cases a)
    case (Thread2 k j)
    with st have k: "k < length (threads2 s)" and p: "producer2 rnd k j s = Some t \<or> consumer2 k j s = Some t"
      by (auto simp: step2_def split: if_splits)
    have "k \<noteq> i" using p d by (auto simp: producer2_def consumer2_def)
    with out [OF k] p m i show ?thesis
      by (cases "at2 (threads2 s ! k)") (auto simp: producer2_def consumer2_def lock2_def goto2_nth say2_def Let_def)
  next
    case (Wake2 k)
    with st i d show ?thesis by (auto simp: step2_def wake2_def goto2_nth split: if_splits cpc.splits)
  next
    case (Cancel2 k)
    with st i d show ?thesis
      by (auto simp: step2_def cancel2_def cancelled_to_def goto2_nth split: if_splits cpc.splits)
  next
    case (Input2 ch)
    with st have t: "t = command2 ch s" by (simp add: step2_def split: if_splits)
    have "i < length (pcs2 s)" using i by simp
    then have "i < length (pcs2 t)" "pcs2 t ! i = pcs2 s ! i"
      using command2_pcs [of ch s] by (auto simp: t nth_append simp del: length_pcs2)
    then have "i < length (threads2 t)" "at2 (threads2 t ! i) = at2 (threads2 s ! i)"
      using i by (simp_all add: pcs2_nth)
    then show ?thesis by (simp add: t command2_fields)
  next
    case (Main2 j)
    with st m show ?thesis using i
      by (auto simp: step2_def main2_step_def main_holds2_def lock2_def say2_def
          split: main2.splits list.splits if_splits)
  qed
qed

lemma dead_lock_forever:
  "reachable (step2 rnd) s t \<Longrightarrow> queue_inv2 s \<Longrightarrow> i < length (threads2 s) \<Longrightarrow>
   at2 (threads2 s ! i) \<in> {DP_dead_locked, DC_dead_locked} \<Longrightarrow>
   queue_inv2 t \<and> glob2 t = glob2 s \<and> accepted2 t = accepted2 s \<and> delivered2 t = delivered2 s \<and>
   i < length (threads2 t) \<and> at2 (threads2 t ! i) = at2 (threads2 s ! i)"
proof (induction rule: reachable.induct)
  case (reach_step t a u)
  then show ?case
    using dead_lock_step [of t i rnd a u] step2_queue_inv [of t rnd a u] by simp
qed simp

lemma wrapped_forever:
  assumes "queue_inv2 s" and "FIXED_SIZE \<le> in_queue2 s" and st: "step2 rnd s a = Some t"
  shows "FIXED_SIZE \<le> in_queue2 t"
proof -
  have inv: "queue_inv2 t" by (rule step2_queue_inv [OF assms(1) st])
  show ?thesis
  proof (rule ccontr)
    assume "\<not> FIXED_SIZE \<le> in_queue2 t"
    with assms(2) step2_hist [OF st] queue_inv2D(4) [OF assms(1)] have "delivered2 t \<noteq> delivered2 s" 
      and n: "in_queue2 s = FIXED_SIZE"
      by (auto simp: hist_step_def in_queue2_def)
    then obtain i h m where i: "i < length (threads2 s)" and h: "at2 (threads2 s ! i) = DC_head h m"
      using st taken_point by blast
    show False using queue_inv2D(7) [OF assms(1) i] n by (simp add: h)
  qed
qed

end
