(* ===== verification/Cond_Queue_Props.thy ===== *)
theory Cond_Queue_Props
  imports Cond_Queue_Correct
begin

text \<open>
  The properties of Lab5/parent2.c, with the runs that show that a thread killed while it waits
  takes the mutex with it, and that a queue as large as the ring loses its messages.
\<close>

section \<open>Concrete runs\<close>

lemmas cond_eval = step2_def small_step2_def command2_def command2_parts producer2_def consumer2_def cancel2_def
  cancelled_to_def lock2_def unlock2_def goto2_def say2_def new_thread2_def pthread_cancel2_def
  main2_step_def do_update2_def after_update2_def MAX_THREADS_def signal_not_full_def
  signal_not_empty_def signal_def used2_def

lemma start2 [simp]:
  "threads2 (initial_csys mem) = []" "main2_at (initial_csys mem) = M2_getchar"
  "mutex2 (initial_csys mem) = 1" "producer_ids2 (initial_csys mem) = []"
  "consumer_ids2 (initial_csys mem) = []" "out2 (initial_csys mem) = []"
  "accepted2 (initial_csys mem) = []" "delivered2 (initial_csys mem) = []"
  "current_queue_size (glob2 (initial_csys mem)) = 10" "head5 (glob2 (initial_csys mem)) = 0"
  "tail5 (glob2 (initial_csys mem)) = 0" "producedCount5 (glob2 (initial_csys mem)) = 0"
  "consumedCount5 (glob2 (initial_csys mem)) = 0"
  by (simp_all add: initial_csys_def)

text \<open>A consumer waits on the empty queue, a producer puts a message in and wakes it.\<close>

definition wait_and_wake :: "action2 list" where
  "wait_and_wake =
     [Input2 (Some CHR ''c''), Main2 0, Main2 0, Main2 0, Input2 (Some CHR ''p''), Main2 0, Main2 0, Main2 0]
     @ [Thread2 0 0, Thread2 0 0]
     @ [Thread2 1 0, Thread2 1 0, Thread2 1 0, Thread2 1 0, Thread2 1 0, Thread2 1 0, Thread2 1 0, Thread2 1 0]
     @ [Thread2 0 0, Thread2 0 0, Thread2 0 0, Thread2 0 0, Thread2 0 0, Thread2 0 0, Thread2 0 0, Thread2 0 0]"

text \<open>A consumer waits on the empty queue and is killed: keys \<open>c\<close> and \<open>C\<close>.\<close>

definition kill_waiting :: "action2 list" where
  "kill_waiting = [Input2 (Some CHR ''c''), Main2 0, Main2 0, Main2 0, Thread2 0 0, Thread2 0 0,
     Input2 (Some CHR ''C''), Cancel2 0, Thread2 0 0, Main2 0]"

lemma wait_and_wake_result:
  "\<exists>s m. run (small_step2 rnd) (initial_csys mem) wait_and_wake = Some s \<and> accepted2 s = [m] \<and> delivered2 s = [m] \<and>
     out2 s = [Created_consumer 0, Created_producer 1, Consumed_message 0 1 (verify_hash5 m)]"
  by (simp add: wait_and_wake_def cond_eval FIXED_SIZE_def)

lemma kill_waiting_result:
  "\<exists>s p. run (step2 rnd) (initial_csys mem) kill_waiting = Some s \<and> threads2 s = [p] \<and>
     at2 p = DC_dead_locked \<and> main2_at s = M2_lock (Dec_consumers 0) \<and> mutex2 s = 0"
  by (simp add: kill_waiting_def cond_eval FIXED_SIZE_def)

lemma small_run: "run (small_step2 rnd) s as = Some t \<Longrightarrow> run (step2 rnd) s as = Some t"
proof (induction as arbitrary: s)
  case (Cons a as)
  then show ?case by (auto dest: small_step2D split: option.splits)
qed simp

text \<open>A lone producer: queues of any size with any number of messages, and more.\<close>

definition lone2 :: "nat \<Rightarrow> nat \<Rightarrow> csys \<Rightarrow> bool" where
  "lone2 n k s \<longleftrightarrow> mutex2 s = 1 \<and> current_queue_size (glob2 s) = n \<and>
     tail5 (glob2 s) = k mod FIXED_SIZE \<and> head5 (glob2 s) = 0 \<and>
     length (accepted2 s) = k \<and> delivered2 s = [] \<and> main2_at s = M2_getchar \<and>
     (\<exists>p. threads2 s = [p] \<and> at2 p = DP_lock)"

definition one_round2 :: "action2 list" where
  "one_round2 = [Thread2 0 0, Thread2 0 0, Thread2 0 0, Thread2 0 0, Thread2 0 0, Thread2 0 0, Thread2 0 0,
     Thread2 0 0, Thread2 0 0]"

definition one_more_slot2 :: "action2 list" where
  "one_more_slot2 = [Input2 (Some CHR ''+''), Main2 0, Main2 0, Main2 0]"

lemma produce_one2:
  assumes "lone2 n k s" and "k mod FIXED_SIZE < n"
  shows "\<exists>t. run (step2 rnd) s one_round2 = Some t \<and> lone2 n (Suc k) t"
proof -
  have "(int k mod int FIXED_SIZE + int FIXED_SIZE) mod int FIXED_SIZE < int n"
    using assms(2) by (simp add: mod_simps) (metis of_nat_less_iff zmod_int)
  then show ?thesis using assms unfolding lone2_def
    by (elim conjE exE) (simp add: one_round2_def cond_eval mod_simps zmod_int)
qed

lemma grow_one2:
  assumes "lone2 n 0 s" and "n < FIXED_SIZE"
  shows "\<exists>t. run (step2 rnd) s one_more_slot2 = Some t \<and> lone2 (Suc n) 0 t"
  using assms unfolding lone2_def
  by (elim conjE exE) (simp add: one_more_slot2_def cond_eval)

lemma lone_start2: "\<exists>s. reachable (step2 rnd) (initial_csys mem) s \<and> lone2 10 0 s"
proof -
  have "\<exists>s. run (step2 rnd) (initial_csys mem)
      [Input2 (Some CHR ''p''), Main2 0, Main2 0, Main2 0, Thread2 0 0] = Some s \<and> lone2 10 0 s"
    by (simp add: cond_eval lone2_def)
  then show ?thesis by (blast intro: run_reachable)
qed

lemma grown_queue2:
  "10 \<le> n \<Longrightarrow> n \<le> FIXED_SIZE \<Longrightarrow> \<exists>s. reachable (step2 rnd) (initial_csys mem) s \<and> lone2 n 0 s"
proof (induction n rule: dec_induct)
  case base
  show ?case by (rule lone_start2)
next
  case (step n)
  then obtain s where s: "reachable (step2 rnd) (initial_csys mem) s" "lone2 n 0 s" by auto
  from grow_one2 [OF s(2)] step.prems obtain t
    where "run (step2 rnd) s one_more_slot2 = Some t" "lone2 (Suc n) 0 t" by fastforce
  with s(1) show ?case by (blast intro: reachable_run)
qed

lemma overfilled_queue: "\<exists>s. reachable (step2 rnd) (initial_csys mem) s \<and> lone2 FIXED_SIZE k s"
proof (induction k)
  case 0
  show ?case by (rule grown_queue2) (simp_all add: FIXED_SIZE_def)
next
  case (Suc k)
  then obtain s where s: "reachable (step2 rnd) (initial_csys mem) s" "lone2 FIXED_SIZE k s" by auto
  have "k mod FIXED_SIZE < FIXED_SIZE" by (simp add: FIXED_SIZE_def)
  from produce_one2 [OF s(2) this] obtain t
    where "run (step2 rnd) s one_round2 = Some t" "lone2 FIXED_SIZE (Suc k) t" by blast
  with s(1) show ?case by (blast intro: reachable_run)
qed

section \<open>Properties\<close>

text \<open>
  C3 (Lab5 parent2, refinement): as long as \<open>current_queue_size\<close> has never reached \<open>FIXED_SIZE\<close>, the
  ring under its mutex and two condition variables refines the first-in first-out queue of capacity
  \<open>FIXED_SIZE - 1\<close>, for every choice of the thread a signal wakes and every spurious wakeup, and the
  number of messages the status line shows is the number of messages in the queue.
\<close>

theorem cond_queue_refines_fifo:
  assumes "reachable (small_step2 rnd) (initial_csys mem) s"
  shows "(fifo_step (FIXED_SIZE - 1))\<^sup>*\<^sup>* empty_fifo (queue_abs2 s)
    \<and> accepted2 s = delivered2 s @
        ring_contents FIXED_SIZE (buffer5 (glob2 s)) (head5 (glob2 s)) (in_queue2 s)
    \<and> used2 (glob2 s) = int (length (accepted2 s) - length (delivered2 s))"
proof -
  from assms have r: "(fifo_step (FIXED_SIZE - 1))\<^sup>*\<^sup>* empty_fifo (queue_abs2 s)"
    by (rule small_queue.refines)
  then have "fifo_inv (FIXED_SIZE - 1) (queue_abs2 s)" by (rule fifo_inv_steps)
  moreover have inv: "queue_inv2 s" "small_inv2 s" using small_queue.inv_reachable [OF assms] by simp_all
  moreover have "used2 (glob2 s) = int (in_queue2 s)"
    using used2_eq [OF inv(1)] inv(2) by (simp add: small_inv2_def)
  ultimately show ?thesis using r by (simp add: fifo_inv_def queue_abs2_def in_queue2_def)
qed

theorem cond_queue_refines_fifo_witness:
  "\<exists>s m. reachable (small_step2 (\<lambda>_ _. 5)) (initial_csys (\<lambda>_. sample_message)) s \<and> delivered2 s = [m] \<and>
     used2 (glob2 s) = 0"
proof -
  obtain s m where r: "reachable (small_step2 (\<lambda>_ _. 5)) (initial_csys (\<lambda>_. sample_message)) s"
    and m: "accepted2 s = [m]" "delivered2 s = [m]"
    using wait_and_wake_result [of "\<lambda>_ _. 5" "\<lambda>_. sample_message"] by (blast intro: run_reachable)
  have "used2 (glob2 s) = 0" using cond_queue_refines_fifo [OF r] m by simp
  with r m show ?thesis by blast
qed

text \<open>
  C35 (Lab5 parent2, safety): in every reachable state, at any queue size, even when the ring has wrapped
  around: at most one thread is between locking and unlocking the mutex, and when one is, the mutex is
  locked and \<open>main\<close> is not between its own lock and unlock; no message is seen torn, so that every message
  taken out verifies; and every line a consumer prints says \<open>hash_ok=YES\<close>.
\<close>

theorem cond_mutex_and_integrity:
  assumes "reachable (step2 rnd) (initial_csys mem) s"
  shows "(\<forall>i < length (threads2 s). in_crit2 (at2 (threads2 s ! i)) \<longrightarrow>
        main_holds2 s = 0 \<and> mutex2 s = 0 \<and> (\<forall>j < length (threads2 s). in_crit2 (at2 (threads2 s ! j)) \<longrightarrow> j = i))
    \<and> (\<forall>m \<in> set (delivered2 s). verify_hash5 m)
    \<and> (\<forall>k n ok. Consumed_message k n ok \<in> set (out2 s) \<longrightarrow> ok)"
proof -
  have inv: "queue_inv2 s" "out_inv2 s" using cond_queue.inv_reachable [OF assms] by simp_all
  then have q: "lr2.linv (main_holds2 s) (view2 s) (pcs2 s)" by (simp add: queue_inv2_def)
  have "main_holds2 s = 0 \<and> mutex2 s = 0" if "i < length (threads2 s)" "in_crit2 (at2 (threads2 s ! i))" for i
  proof -
    have "0 < cnt in_crit2 (pcs2 s)" by (rule cnt_pos [of i]) (use that in \<open>simp_all add: pcs2_nth\<close>)
    with queue_inv2D(3) [OF inv(1)] show ?thesis by simp
  qed
  moreover have "j = i" if "i < length (threads2 s)" "in_crit2 (at2 (threads2 s ! i))"
    "j < length (threads2 s)" "in_crit2 (at2 (threads2 s ! j))" for i j
    using lr2.crit_exclusive [OF q, of j i] that by (simp add: pcs2_nth)
  ultimately show ?thesis
    using lr2.holds_messagesD(2) [OF queue_inv2D(6) [OF inv(1)]] inv(2) by (auto simp: out_inv2_def)
qed

theorem cond_mutex_and_integrity_witness:
  "(\<exists>s. reachable (step2 (\<lambda>_ _. 5)) (initial_csys (\<lambda>_. sample_message)) s \<and> length (threads2 s) = 1 \<and>
      in_crit2 (at2 (threads2 s ! 0)) \<and> main_holds2 s = 0) \<and>
   (\<exists>s. reachable (step2 (\<lambda>_ _. 5)) (initial_csys (\<lambda>_. sample_message)) s \<and>
      out2 s = [Created_consumer 0, Created_producer 1, Consumed_message 0 1 True])"
proof
  obtain s p where r: "reachable (step2 (\<lambda>_ _. 5)) (initial_csys (\<lambda>_. sample_message)) s"
    and p: "threads2 s = [p]" "at2 p = DC_dead_locked"
    using kill_waiting_result [of "\<lambda>_ _. 5" "\<lambda>_. sample_message"] by (blast intro: run_reachable)
  from cond_mutex_and_integrity [OF r] r p
  show "\<exists>s. reachable (step2 (\<lambda>_ _. 5)) (initial_csys (\<lambda>_. sample_message)) s \<and> length (threads2 s) = 1 \<and>
      in_crit2 (at2 (threads2 s ! 0)) \<and> main_holds2 s = 0" by auto
next
  obtain s m where r: "reachable (step2 (\<lambda>_ _. 5)) (initial_csys (\<lambda>_. sample_message)) s"
    and m: "out2 s = [Created_consumer 0, Created_producer 1, Consumed_message 0 1 (verify_hash5 m)]"
    using wait_and_wake_result [of "\<lambda>_ _. 5" "\<lambda>_. sample_message"] by (blast intro: run_reachable small_run)
  have "verify_hash5 m"
    using cond_mutex_and_integrity [OF r, THEN conjunct2, THEN conjunct2] unfolding m by simp
  with r m show "\<exists>s. reachable (step2 (\<lambda>_ _. 5)) (initial_csys (\<lambda>_. sample_message)) s \<and>
      out2 s = [Created_consumer 0, Created_producer 1, Consumed_message 0 1 True]" by auto
qed

text \<open>
  C6 (Lab5 parent2, cases 'P' and 'C' while the thread waits): a thread cancelled in
  \<open>pthread_cond_wait\<close> ends with the mutex locked, as no cleanup handler is installed. From then on
  the mutex stays locked, and no message is ever put in, taken out or counted again. The witness is
  the shortest use of the program: create a consumer on the empty queue and kill it. \<open>main\<close> then
  blocks in \<open>pthread_mutex_lock\<close> for good.
\<close>

theorem cond_killed_waiter_keeps_mutex:
  assumes "reachable (step2 rnd) (initial_csys mem) s" and "i < length (threads2 s)"
    and "at2 (threads2 s ! i) \<in> {DP_dead_locked, DC_dead_locked}" and "reachable (step2 rnd) s t"
  shows "mutex2 t = 0 \<and> glob2 t = glob2 s \<and> accepted2 t = accepted2 s \<and> delivered2 t = delivered2 s"
proof -
  have inv: "queue_inv2 s" using cond_queue.inv_reachable [OF assms(1)] by simp
  note d = dead_lock_forever [OF assms(4) inv assms(2,3)]
  then have "in_crit2 (pcs2 t ! i)" using assms(3) by (auto simp: pcs2_nth)
  then have "0 < cnt in_crit2 (pcs2 t)" using d by (intro cnt_pos [of i]) simp_all
  then show ?thesis using queue_inv2D(3) [of t] d by simp
qed

theorem cond_killed_waiter_keeps_mutex_witness:
  "\<exists>s. reachable (step2 (\<lambda>_ _. 5)) (initial_csys (\<lambda>_. sample_message)) s \<and>
     main2_at s = M2_lock (Dec_consumers 0) \<and> mutex2 s = 0 \<and> (\<forall>a. step2 (\<lambda>_ _. 5) s a = None)"
proof -
  obtain s p where r: "reachable (step2 (\<lambda>_ _. 5)) (initial_csys (\<lambda>_. sample_message)) s"
    and p: "threads2 s = [p]" "at2 p = DC_dead_locked" and m: "main2_at s = M2_lock (Dec_consumers 0)"
    using kill_waiting_result [of "\<lambda>_ _. 5" "\<lambda>_. sample_message"] by (blast intro: run_reachable)
  have z: "mutex2 s = 0" using cond_killed_waiter_keeps_mutex [OF r _ _ reach_start, of 0] p by simp
  have "step2 (\<lambda>_ _. 5) s a = None" for a
    using p m z by (cases a) (auto simp: step2_def consumer2_def wake2_def cancel2_def cancelled_to_def
        main2_step_def lock2_def)
  with r m z show ?thesis by blast
qed

text \<open>
  C28 (Lab5 parent2, boundary): with \<open>current_queue_size = FIXED_SIZE\<close> the producers' check never
  blocks, because the indices cannot tell a full ring from an empty one. The state with
  \<open>FIXED_SIZE\<close> messages put in and none taken out is reachable and counts as empty, and from then
  on at least \<open>FIXED_SIZE\<close> messages are never consumed, whatever happens.
\<close>

theorem cond_full_ring_loses_messages:
  "\<exists>s. reachable (step2 rnd) (initial_csys mem) s \<and> current_queue_size (glob2 s) = FIXED_SIZE \<and>
     length (accepted2 s) = FIXED_SIZE \<and> delivered2 s = [] \<and> used2 (glob2 s) = 0 \<and>
     (\<forall>t. reachable (step2 rnd) s t \<longrightarrow> length (delivered2 t) + FIXED_SIZE \<le> length (accepted2 t))"
proof -
  obtain s where r: "reachable (step2 rnd) (initial_csys mem) s" and f: "lone2 FIXED_SIZE FIXED_SIZE s"
    using overfilled_queue by blast
  have inv: "queue_inv2 s" using cond_queue.inv_reachable [OF r] by simp
  have n: "in_queue2 s = FIXED_SIZE" using f by (simp add: lone2_def in_queue2_def)
  have "queue_inv2 t \<and> FIXED_SIZE \<le> in_queue2 t" if "reachable (step2 rnd) s t" for t
    using that
  proof (induction rule: reachable.induct)
    case reach_start
    then show ?case using inv n by simp
  next
    case (reach_step t a u)
    then show ?case using step2_queue_inv wrapped_forever by blast
  qed
  then have "\<forall>t. reachable (step2 rnd) s t \<longrightarrow> length (delivered2 t) + FIXED_SIZE \<le> length (accepted2 t)"
    using queue_inv2D(4) by (fastforce simp: in_queue2_def)
  with r f n used2_eq [OF inv] show ?thesis by (intro exI [of _ s]) (simp add: lone2_def)
qed

theorem cond_full_ring_loses_messages_witness:
  "\<exists>s. length (accepted2 s) = FIXED_SIZE \<and> used2 (glob2 s) = 0 \<and>
     reachable (step2 (\<lambda>_ _. 5)) (initial_csys (\<lambda>_. sample_message)) s"
  using cond_full_ring_loses_messages [of "\<lambda>_ _. 5" "\<lambda>_. sample_message"] by blast

end
