(* ===== verification/Index_Record.thy ===== *)
theory Index_Record
  imports Prelude
begin

text \<open>
  What the programs of Lab6 share: the record \<open>index_s\<close>, the comparison \<open>compare_index\<close> of its
  double-precision time marks, the routine \<open>merge\<close>, the contract of the library's \<open>qsort\<close>, and the
  bytes of an index file. The laws of a comparison routine are the locale \<open>comparator\<close>.
\<close>

section \<open>Comparison routines\<close>

text \<open>The values a comparison routine is consistent on are those that satisfy \<open>ok\<close>.\<close>

locale comparator =
  fixes cmp :: "'a \<Rightarrow> 'a \<Rightarrow> int"
    and ok :: "'a \<Rightarrow> bool"
  assumes cmp_swap: "ok a \<Longrightarrow> ok b \<Longrightarrow> cmp a b < 0 \<longleftrightarrow> 0 < cmp b a"
    and cmp_trans: "ok a \<Longrightarrow> ok b \<Longrightarrow> ok c \<Longrightarrow> cmp a b \<le> 0 \<Longrightarrow> cmp b c \<le> 0 \<Longrightarrow> cmp a c \<le> 0"

definition ordered_by :: "('a \<Rightarrow> 'a \<Rightarrow> int) \<Rightarrow> 'a list \<Rightarrow> bool" where
  "ordered_by cmp xs \<longleftrightarrow> sorted_wrt (\<lambda>a b. cmp a b \<le> 0) xs"

lemma ordered_by_Nil [simp]: "ordered_by cmp []"
  and ordered_by_Cons [simp]: "ordered_by cmp (x # xs) \<longleftrightarrow> (\<forall>y \<in> set xs. cmp x y \<le> 0) \<and> ordered_by cmp xs"
  by (simp_all add: ordered_by_def)

lemma ordered_by_subseq: "subseq xs ys \<Longrightarrow> ordered_by cmp ys \<Longrightarrow> ordered_by cmp xs"
proof (induction rule: list_emb.induct)
  case (list_emb_Cons2 x y xs ys)
  then show ?case by (auto dest: list_emb_set)
qed auto

text \<open>
  The three loops of \<open>merge\<close>: the smaller head is taken from the first run when they compare equal,
  and what remains of one run is copied when the other is used up.
\<close>

fun merge_by :: "('a \<Rightarrow> 'a \<Rightarrow> int) \<Rightarrow> 'a list \<Rightarrow> 'a list \<Rightarrow> 'a list" where
  "merge_by cmp (a # as) (b # bs) =
     (if cmp a b \<le> 0 then a # merge_by cmp as (b # bs) else b # merge_by cmp (a # as) bs)"
| "merge_by cmp as [] = as"
| "merge_by cmp [] bs = bs"

lemma merge_by_Nil [simp]: "merge_by cmp [] bs = bs"
  by (cases bs) simp_all

lemma mset_merge_by [simp]: "mset (merge_by cmp as bs) = mset as + mset bs"
  by (induction cmp as bs rule: merge_by.induct) auto

lemma set_merge_by [simp]: "set (merge_by cmp as bs) = set as \<union> set bs"
  by (metis mset_merge_by set_mset_mset set_mset_union)

lemma length_merge_by [simp]: "length (merge_by cmp as bs) = length as + length bs"
  by (metis mset_merge_by size_mset size_union)

lemma subseq_merge_by: "subseq as (merge_by cmp as bs) \<and> subseq bs (merge_by cmp as bs)"
  by (induction cmp as bs rule: merge_by.induct) (auto intro: subseq_Cons')

fun insert_by :: "('a \<Rightarrow> 'a \<Rightarrow> int) \<Rightarrow> 'a \<Rightarrow> 'a list \<Rightarrow> 'a list" where
  "insert_by cmp x [] = [x]"
| "insert_by cmp x (y # ys) = (if cmp x y \<le> 0 then x # y # ys else y # insert_by cmp x ys)"

definition insertion_sort :: "('a \<Rightarrow> 'a \<Rightarrow> int) \<Rightarrow> 'a list \<Rightarrow> 'a list" where
  "insertion_sort cmp xs = foldr (insert_by cmp) xs []"

lemma mset_insert_by [simp]: "mset (insert_by cmp x ys) = add_mset x (mset ys)"
  by (induction ys) auto

lemma set_insert_by [simp]: "set (insert_by cmp x ys) = insert x (set ys)"
  by (metis mset_insert_by set_mset_add_mset_insert set_mset_mset)

lemma mset_insertion_sort [simp]: "mset (insertion_sort cmp xs) = mset xs"
  by (induction xs) (simp_all add: insertion_sort_def)

lemma set_insertion_sort [simp]: "set (insertion_sort cmp xs) = set xs"
  by (metis mset_insertion_sort set_mset_mset)

context comparator
begin

lemma cmp_total: "ok a \<Longrightarrow> ok b \<Longrightarrow> \<not> cmp a b \<le> 0 \<Longrightarrow> cmp b a \<le> 0"
  using cmp_swap [of b a] by simp

lemma ordered_merge:
  "ordered_by cmp as \<Longrightarrow> ordered_by cmp bs \<Longrightarrow> \<forall>x \<in> set as \<union> set bs. ok x \<Longrightarrow>
     ordered_by cmp (merge_by cmp as bs)"
proof (induction as arbitrary: bs)
  case (Cons a as)
  note outer = Cons
  show ?case using Cons.prems
  proof (induction bs)
    case (Cons b bs)
    show ?case
    proof (cases "cmp a b \<le> 0")
      case True
      then have "\<forall>y \<in> set bs. cmp a y \<le> 0" using Cons.prems cmp_trans [of a b] by auto
      then show ?thesis using True Cons.prems outer(1) [of "b # bs"] by auto
    next
      case False
      then have ba: "cmp b a \<le> 0" using Cons.prems by (intro cmp_total) auto
      then have "\<forall>y \<in> set as. cmp b y \<le> 0" using Cons.prems cmp_trans [of b a] by auto
      then show ?thesis using False ba Cons by auto
    qed
  qed simp
qed simp

lemma ordered_insert:
  "ordered_by cmp ys \<Longrightarrow> \<forall>y \<in> insert x (set ys). ok y \<Longrightarrow> ordered_by cmp (insert_by cmp x ys)"
proof (induction ys)
  case (Cons y ys)
  show ?case
  proof (cases "cmp x y \<le> 0")
    case True
    then have "\<forall>z \<in> set ys. cmp x z \<le> 0" using Cons.prems cmp_trans [of x y] by auto
    then show ?thesis using True Cons.prems by auto
  next
    case False
    then have "cmp y x \<le> 0" using Cons.prems by (intro cmp_total) auto
    then show ?thesis using False Cons by auto
  qed
qed simp

lemma ordered_insertion_sort: "\<forall>x \<in> set xs. ok x \<Longrightarrow> ordered_by cmp (insertion_sort cmp xs)"
proof (induction xs)
  case (Cons x xs)
  have "insertion_sort cmp (x # xs) = insert_by cmp x (insertion_sort cmp xs)"
    by (simp add: insertion_sort_def)
  then show ?case using Cons by (simp add: ordered_insert)
qed (simp add: insertion_sort_def)

end

section \<open>Time marks\<close>

text \<open>
  A \<open>double\<close> is its 64 bits. NaN compares with nothing; otherwise the order is that of the magnitudes
  with the sign applied, so that the two zeros are equal.
\<close>

definition is_nan :: "64 word \<Rightarrow> bool" where
  "is_nan d \<longleftrightarrow> take_bit 11 (drop_bit 52 d) = 2047 \<and> take_bit 52 d \<noteq> 0"

definition double_key :: "64 word \<Rightarrow> int" where
  "double_key d = (if bit d 63 then - uint (take_bit 63 d) else uint (take_bit 63 d))"

definition double_less :: "64 word \<Rightarrow> 64 word \<Rightarrow> bool" where
  "double_less a b \<longleftrightarrow> \<not> is_nan a \<and> \<not> is_nan b \<and> double_key a < double_key b"

record index_s =
  time_mark :: "64 word"
  recno :: "64 word"

definition compare_index :: "index_s \<Rightarrow> index_s \<Rightarrow> int" where
  "compare_index a b =
     (if double_less (time_mark a) (time_mark b) then - 1
      else if double_less (time_mark b) (time_mark a) then 1 else 0)"

abbreviation has_time :: "index_s \<Rightarrow> bool" where
  "has_time r \<equiv> \<not> is_nan (time_mark r)"

interpretation index: comparator compare_index has_time
  by unfold_locales (auto simp: compare_index_def double_less_def split: if_splits)

abbreviation ordered :: "index_s list \<Rightarrow> bool" where
  "ordered \<equiv> ordered_by compare_index"

definition merge :: "index_s list \<Rightarrow> index_s list \<Rightarrow> index_s list" where
  "merge = merge_by compare_index"

text \<open>
  What the programs rely on in \<open>qsort\<close> with \<open>compare_index\<close>: the array is permuted, and it is in order
  when no time mark is NaN. Which permutation equal marks get is the library's choice.
\<close>

definition qsort_contract :: "(index_s list \<Rightarrow> index_s list) \<Rightarrow> bool" where
  "qsort_contract qs \<longleftrightarrow>
     (\<forall>xs. mset (qs xs) = mset xs \<and> ((\<forall>x \<in> set xs. has_time x) \<longrightarrow> ordered (qs xs)))"

lemma qsort_contract_insertion_sort: "qsort_contract (insertion_sort compare_index)"
  by (simp add: qsort_contract_def index.ordered_insertion_sort)

lemma qsort_facts:
  assumes "qsort_contract qs"
  shows "mset (qs xs) = mset xs" and "length (qs xs) = length xs" and "set (qs xs) = set xs"
    and "\<forall>x \<in> set xs. has_time x \<Longrightarrow> ordered (qs xs)"
proof -
  show m: "mset (qs xs) = mset xs" using assms by (simp add: qsort_contract_def)
  then show "length (qs xs) = length xs" "set (qs xs) = set xs"
    by (metis size_mset, metis set_mset_mset)
  show "\<forall>x \<in> set xs. has_time x \<Longrightarrow> ordered (qs xs)" using assms by (simp add: qsort_contract_def)
qed

end
