(* ===== verification/Blocks.thy ===== *)
theory Blocks
  imports Prelude
begin

text \<open>
  An array cut into blocks of equal length: the block at an index, a block overwritten in place, and
  the equality of two arrays from that of their blocks.
\<close>

definition block :: "nat \<Rightarrow> nat \<Rightarrow> 'a list \<Rightarrow> 'a list" where
  "block L i xs = take L (drop (i * L) xs)"

text \<open>A run of entries written from an index on.\<close>

definition splice :: "nat \<Rightarrow> 'a list \<Rightarrow> 'a list \<Rightarrow> 'a list" where
  "splice k new xs = take k xs @ new @ drop (k + length new) xs"

lemma length_splice [simp]: "k + length new \<le> length xs \<Longrightarrow> length (splice k new xs) = length xs"
  by (simp add: splice_def)

lemma block_in_range:
  fixes L i n :: nat
  assumes "i < n"
  shows "i * L + L \<le> n * L"
proof -
  have "Suc i * L \<le> n * L" using assms by (intro mult_le_mono1) simp
  then show ?thesis by simp
qed

lemma length_block [simp]: "i < n \<Longrightarrow> n * L \<le> length xs \<Longrightarrow> length (block L i xs) = L"
  using block_in_range [of i n L] by (simp add: block_def)

lemma nth_splice:
  "k + length new \<le> length xs \<Longrightarrow> j < length xs \<Longrightarrow>
     splice k new xs ! j = (if k \<le> j \<and> j < k + length new then new ! (j - k) else xs ! j)"
  by (auto simp: splice_def nth_append min_def)

lemma nth_block: "i * L + j < length xs \<Longrightarrow> j < L \<Longrightarrow> block L i xs ! j = xs ! (i * L + j)"
  by (simp add: block_def)

lemma block_splice:
  assumes "i < n" and "j < n" and "n * L \<le> length xs" and "length new = L"
  shows "block L i (splice (j * L) new xs) = (if i = j then new else block L i xs)"
proof (rule nth_equalityI)
  note r = block_in_range [OF assms(1), of L] block_in_range [OF assms(2), of L]
  have l: "length (splice (j * L) new xs) = length xs" using r assms by simp
  show "length (block L i (splice (j * L) new xs)) = length (if i = j then new else block L i xs)"
    using assms l by simp
  fix k assume "k < length (block L i (splice (j * L) new xs))"
  then have k: "k < L" using assms l by simp
  have "i \<noteq> j \<Longrightarrow> \<not> (j * L \<le> i * L + k \<and> i * L + k < j * L + L)"
    using block_in_range [of i j L] block_in_range [of j i L] k by linarith
  then show "block L i (splice (j * L) new xs) ! k = (if i = j then new else block L i xs) ! k"
    using k r assms l by (auto simp: nth_block nth_splice)
qed

lemma drop_splice:
  assumes "j < n" and "n * L \<le> length xs" and "length new = L"
  shows "drop (n * L) (splice (j * L) new xs) = drop (n * L) xs"
  using block_in_range [OF assms(1), of L] assms by (simp add: splice_def)

lemma take_blocks: "n * L \<le> length xs \<Longrightarrow> take (n * L) xs = concat (map (\<lambda>i. block L i xs) [0..<n])"
proof (induction n)
  case (Suc n)
  have "take (Suc n * L) xs = take (n * L) xs @ take L (drop (n * L) xs)"
    by (simp add: take_add [symmetric] add.commute)
  with Suc show ?case by (simp add: block_def)
qed simp

lemma blocks_eqI:
  assumes "length xs = length ys" and "n * L \<le> length xs"
    and "\<And>i. i < n \<Longrightarrow> block L i xs = block L i ys" and "drop (n * L) xs = drop (n * L) ys"
  shows "xs = ys"
proof -
  have "map (\<lambda>i. block L i xs) [0..<n] = map (\<lambda>i. block L i ys) [0..<n]" using assms(3) by simp
  then have "take (n * L) xs = take (n * L) ys"
    using take_blocks [of n L xs] take_blocks [of n L ys] assms(1,2) by metis
  with assms(4) show ?thesis by (metis append_take_drop_id)
qed

lemma length_concat_equal: "\<forall>i < n. length (f i) = L \<Longrightarrow> length (concat (map f [0..<n])) = n * L"
  by (induction n) auto

lemma block_concat:
  assumes "\<forall>i < n. length (f i) = L" and "i < n"
  shows "block L i (concat (map f [0..<n]) @ ys) = f i"
proof -
  have "[0..<n] = [0..<i] @ i # [Suc i..<n]"
    using assms(2) upt_add_eq_append [of 0 i "n - i"] by (simp add: upt_conv_Cons)
  then have "concat (map f [0..<n]) = concat (map f [0..<i]) @ f i @ concat (map f [Suc i..<n])" by simp
  moreover have "length (concat (map f [0..<i])) = i * L"
    using assms by (intro length_concat_equal) simp
  ultimately show ?thesis using assms by (simp add: block_def)
qed

lemma drop_concat: "\<forall>i < n. length (f i) = L \<Longrightarrow> drop (n * L) (concat (map f [0..<n]) @ ys) = ys"
  using length_concat_equal [of n f L] by simp

text \<open>Two neighbouring blocks are one block of twice the length.\<close>

lemma block_double: "block (2 * L) p xs = block L (2 * p) xs @ block L (2 * p + 1) xs"
proof -
  have "block (2 * L) p xs = take (L + L) (drop (2 * p * L) xs)"
    by (simp add: block_def mult_2 [of L, symmetric] mult.commute mult.left_commute)
  also have "\<dots> = take L (drop (2 * p * L) xs) @ take L (drop L (drop (2 * p * L) xs))" by (simp add: take_add)
  finally show ?thesis by (simp add: block_def add.commute)
qed

end
