(* ===== verification/Index_Sort.thy ===== *)
theory Index_Sort
  imports Index_Record Blocks
begin

text \<open>
  The threads of sort_index.c at work on one part of the file: \<open>struct sort_context\<close>, \<open>thread_func\<close> as
  a machine whose steps are the qsort of a block, a critical section under the mutex, a merge into
  \<open>tmp_buf\<close>, a \<open>memcpy\<close> back and the arrival at the barrier, and the sequential function the threads
  compute together.
\<close>

section \<open>State\<close>

record sort_context =
  records_per_part :: nat
  blocks :: nat
  threads :: nat

definition block_records :: "sort_context \<Rightarrow> nat" where
  "block_records c = records_per_part c div blocks c"

text \<open>
  Where a thread is. The numbers of the last four points are \<open>current_block_records\<close> and
  \<open>current_blocks\<close>; at the barrier they are those the thread goes on with.
\<close>

datatype point = Sort_block nat | Mark_block nat | Claim
  | Merge_runs nat nat | Copy_runs nat nat | Arrive nat nat | Waiting nat nat | Returned

record part_sort =
  buffer :: "index_s list"
  tmp_buf :: "index_s list"
  block_map :: "nat list"
  points :: "point list"

definition entry :: "sort_context \<Rightarrow> nat \<Rightarrow> point" where
  "entry c tid = (if tid < blocks c then Sort_block tid else Claim)"

text \<open>The state \<open>main\<close> sets up for a part; \<open>junk\<close> is what \<open>malloc\<close> returned for \<open>tmp_buf\<close>.\<close>

definition start_part :: "sort_context \<Rightarrow> index_s list \<Rightarrow> index_s list \<Rightarrow> part_sort" where
  "start_part c xs junk =
     \<lparr>buffer = xs, tmp_buf = junk, block_map = map (\<lambda>i. if i < threads c then 1 else 0) [0..<blocks c],
      points = map (entry c) [0..<threads c]\<rparr>"

section \<open>The steps of a thread\<close>

definition move :: "nat \<Rightarrow> point \<Rightarrow> part_sort \<Rightarrow> part_sort" where
  "move t p s = s\<lparr>points := (points s)[t := p]\<rparr>"

definition sort_block :: "(index_s list \<Rightarrow> index_s list) \<Rightarrow> sort_context \<Rightarrow> nat \<Rightarrow> nat \<Rightarrow> part_sort \<Rightarrow> part_sort" where
  "sort_block qs c t k s =
     move t (Mark_block k)
       (s\<lparr>buffer := splice (k * block_records c) (qs (block (block_records c) k (buffer s))) (buffer s)\<rparr>)"

definition mark_block :: "nat \<Rightarrow> nat \<Rightarrow> part_sort \<Rightarrow> part_sort" where
  "mark_block t k s = move t Claim (s\<lparr>block_map := (block_map s)[k := 2]\<rparr>)"

definition claim_block :: "sort_context \<Rightarrow> nat \<Rightarrow> part_sort \<Rightarrow> part_sort" where
  "claim_block c t s =
     (case List.find (\<lambda>i. block_map s ! i = 0) [0..<blocks c] of
        Some i \<Rightarrow> move t (Sort_block i) (s\<lparr>block_map := (block_map s)[i := 1]\<rparr>)
      | None \<Rightarrow> move t (Arrive (block_records c) (blocks c)) s)"

definition merge_runs :: "nat \<Rightarrow> nat \<Rightarrow> nat \<Rightarrow> part_sort \<Rightarrow> part_sort" where
  "merge_runs t L C s =
     (let pairs = C div 2; start = 2 * t * L; mid = start + L in
      if t < pairs then
        move t (Copy_runs L C)
          (s\<lparr>tmp_buf := splice start (merge (take L (drop start (buffer s))) (take L (drop mid (buffer s)))) (tmp_buf s)\<rparr>)
      else move t (Arrive (2 * L) ((C + 1) div 2)) s)"

definition copy_runs :: "nat \<Rightarrow> nat \<Rightarrow> nat \<Rightarrow> part_sort \<Rightarrow> part_sort" where
  "copy_runs t L C s =
     (let start = 2 * t * L in
      move t (Arrive (2 * L) ((C + 1) div 2))
        (s\<lparr>buffer := splice start (take (2 * L) (drop start (tmp_buf s))) (buffer s)\<rparr>))"

text \<open>The test of the loop over the runs.\<close>

definition next_round :: "nat \<Rightarrow> nat \<Rightarrow> point" where
  "next_round L C = (if C > 1 then Merge_runs L C else Returned)"

fun is_waiting :: "point \<Rightarrow> bool" where
  "is_waiting (Waiting L C) = True"
| "is_waiting _ = False"

fun resume :: "point \<Rightarrow> point" where
  "resume (Waiting L C) = next_round L C"
| "resume p = p"

text \<open>\<open>pthread_barrier_wait\<close>: the last thread to arrive lets all of them go on.\<close>

definition barrier_wait :: "nat \<Rightarrow> nat \<Rightarrow> nat \<Rightarrow> part_sort \<Rightarrow> part_sort" where
  "barrier_wait t L C s =
     (let s' = move t (Waiting L C) s in
      if \<forall>p \<in> set (points s'). is_waiting p then s'\<lparr>points := map resume (points s')\<rparr> else s')"

definition thread_func :: "(index_s list \<Rightarrow> index_s list) \<Rightarrow> sort_context \<Rightarrow> part_sort \<Rightarrow> nat \<Rightarrow> part_sort option" where
  "thread_func qs c s t =
     (if t < threads c then
        (case points s ! t of
           Sort_block k \<Rightarrow> Some (sort_block qs c t k s)
         | Mark_block k \<Rightarrow> Some (mark_block t k s)
         | Claim \<Rightarrow> Some (claim_block c t s)
         | Merge_runs L C \<Rightarrow> Some (merge_runs t L C s)
         | Copy_runs L C \<Rightarrow> Some (copy_runs t L C s)
         | Arrive L C \<Rightarrow> Some (barrier_wait t L C s)
         | Waiting L C \<Rightarrow> None
         | Returned \<Rightarrow> None)
      else None)"

definition part_done :: "part_sort \<Rightarrow> bool" where
  "part_done s \<longleftrightarrow> (\<forall>p \<in> set (points s). p = Returned)"

section \<open>What the threads compute together\<close>

definition sort_blocks :: "(index_s list \<Rightarrow> index_s list) \<Rightarrow> nat \<Rightarrow> nat \<Rightarrow> index_s list \<Rightarrow> index_s list" where
  "sort_blocks qs b B xs = concat (map (\<lambda>i. qs (block b i xs)) [0..<B]) @ drop (B * b) xs"

text \<open>
  One round of the merge loop: thread \<open>t\<close> merges the pair number \<open>t\<close> of neighbouring runs, and the pairs
  from the number of threads on are left as they are.
\<close>

definition merge_pair :: "nat \<Rightarrow> nat \<Rightarrow> index_s list \<Rightarrow> index_s list" where
  "merge_pair L p xs = merge (block L (2 * p) xs) (block L (2 * p + 1) xs)"

definition merge_round :: "nat \<Rightarrow> nat \<Rightarrow> nat \<Rightarrow> index_s list \<Rightarrow> index_s list" where
  "merge_round T L C xs =
     concat (map (\<lambda>p. if p < T then merge_pair L p xs else block (2 * L) p xs) [0..<C div 2])
       @ drop (C div 2 * (2 * L)) xs"

function merge_rounds :: "nat \<Rightarrow> nat \<Rightarrow> nat \<Rightarrow> index_s list \<Rightarrow> index_s list" where
  "merge_rounds T L C xs =
     (if C > 1 then merge_rounds T (2 * L) ((C + 1) div 2) (merge_round T L C xs) else xs)"
  by pat_completeness auto
termination by (relation "measure (\<lambda>(T, L, C, xs). C)") auto

declare merge_rounds.simps [simp del]

definition sort_part :: "(index_s list \<Rightarrow> index_s list) \<Rightarrow> sort_context \<Rightarrow> index_s list \<Rightarrow> index_s list" where
  "sort_part qs c xs =
     merge_rounds (threads c) (block_records c) (blocks c) (sort_blocks qs (block_records c) (blocks c) xs)"

end
