(* ===== verification/Index_Sort_Correct.thy ===== *)
theory Index_Sort_Correct
  imports Index_Sort
begin

text \<open>
  The threads of a part under every interleaving: the invariant of the two phases (claiming and
  sorting blocks, merging runs round by round), the result when all have returned, and the bound on
  the number of steps.
\<close>

section \<open>The invariant\<close>

text \<open>The block a thread is sorting or has just sorted.\<close>

fun holds :: "point \<Rightarrow> nat \<Rightarrow> bool" where
  "holds (Sort_block k) j = (k = j)"
| "holds (Mark_block k) j = (k = j)"
| "holds _ j = False"

definition sorted_already :: "part_sort \<Rightarrow> nat \<Rightarrow> bool" where
  "sorted_already s k \<longleftrightarrow> block_map s ! k = 2 \<or> Mark_block k \<in> set (points s)"

definition shape :: "sort_context \<Rightarrow> index_s list \<Rightarrow> part_sort \<Rightarrow> bool" where
  "shape c xs s \<longleftrightarrow> length (buffer s) = length xs \<and> length (tmp_buf s) = length xs
     \<and> length (block_map s) = blocks c \<and> length (points s) = threads c"

text \<open>While blocks are claimed, every claimed block has one thread.\<close>

definition block_phase :: "(index_s list \<Rightarrow> index_s list) \<Rightarrow> sort_context \<Rightarrow> index_s list \<Rightarrow> part_sort \<Rightarrow> bool" where
  "block_phase qs c xs s \<longleftrightarrow>
     (\<forall>p \<in> set (points s). p = Claim \<or> (\<exists>k < blocks c. holds p k \<and> block_map s ! k = 1)
        \<or> p \<in> {Arrive (block_records c) (blocks c), Waiting (block_records c) (blocks c)})
   \<and> (\<exists>p \<in> set (points s). \<not> is_waiting p)
   \<and> (\<forall>k < blocks c. cnt (\<lambda>p. holds p k) (points s) = of_bool (block_map s ! k = 1))
   \<and> (\<forall>k < blocks c. block_map s ! k \<in> {0, 1, 2})
   \<and> ((\<exists>p \<in> set (points s). p \<in> {Arrive (block_records c) (blocks c), Waiting (block_records c) (blocks c)})
        \<longrightarrow> (\<forall>k < blocks c. block_map s ! k \<noteq> 0))
   \<and> (\<forall>k < blocks c. block (block_records c) k (buffer s)
        = (if sorted_already s k then qs (block (block_records c) k xs) else block (block_records c) k xs))
   \<and> drop (blocks c * block_records c) (buffer s) = drop (blocks c * block_records c) xs"

text \<open>In a round, the threads that have not yet arrived have their pair still to merge.\<close>

definition merged :: "part_sort \<Rightarrow> nat \<Rightarrow> nat \<Rightarrow> nat \<Rightarrow> bool" where
  "merged s L C p \<longleftrightarrow> p < length (points s) \<and> points s ! p \<in> {Arrive (2 * L) ((C + 1) div 2), Waiting (2 * L) ((C + 1) div 2)}"

definition round_phase :: "(index_s list \<Rightarrow> index_s list) \<Rightarrow> sort_context \<Rightarrow> index_s list \<Rightarrow> nat \<Rightarrow> nat \<Rightarrow> index_s list \<Rightarrow> part_sort \<Rightarrow> bool" where
  "round_phase qs c xs L C ys s \<longleftrightarrow>
     merge_rounds (threads c) L C ys = sort_part qs c xs \<and> (\<exists>n. C = 2 ^ Suc n) \<and> C * L \<le> length ys \<and> length ys = length xs
   \<and> (\<forall>p \<in> set (points s). p \<in> {Merge_runs L C, Copy_runs L C, Arrive (2 * L) ((C + 1) div 2),
        Waiting (2 * L) ((C + 1) div 2)})
   \<and> (\<exists>p \<in> set (points s). \<not> is_waiting p)
   \<and> (\<forall>t < threads c. points s ! t = Copy_runs L C \<longrightarrow>
        t < C div 2 \<and> block (2 * L) t (tmp_buf s) = merge_pair L t ys)
   \<and> (\<forall>p < C div 2. block (2 * L) p (buffer s)
        = (if merged s L C p then merge_pair L p ys else block (2 * L) p ys))
   \<and> drop (C div 2 * (2 * L)) (buffer s) = drop (C div 2 * (2 * L)) ys"

definition sort_inv :: "(index_s list \<Rightarrow> index_s list) \<Rightarrow> sort_context \<Rightarrow> index_s list \<Rightarrow> part_sort \<Rightarrow> bool" where
  "sort_inv qs c xs s \<longleftrightarrow> shape c xs s \<and>
     (block_phase qs c xs s \<or> (\<exists>L C ys. round_phase qs c xs L C ys s)
      \<or> part_done s \<and> buffer s = sort_part qs c xs)"

definition good_context :: "sort_context \<Rightarrow> bool" where
  "good_context c \<longleftrightarrow> 0 < threads c \<and> threads c \<le> blocks c \<and> (\<exists>n. blocks c = 2 ^ n)"

lemma blocks_fit: "blocks c * block_records c \<le> records_per_part c"
  by (simp add: block_records_def)

section \<open>Moving one thread\<close>

lemma move_fields [simp]:
  "buffer (move t p s) = buffer s" "tmp_buf (move t p s) = tmp_buf s"
  "block_map (move t p s) = block_map s" "points (move t p s) = (points s)[t := p]"
  by (simp_all add: move_def)

lemma set_update_iff:
  "t < length ps \<Longrightarrow> x \<in> set (ps[t := y]) \<longleftrightarrow> x = y \<or> (\<exists>i < length ps. i \<noteq> t \<and> ps ! i = x)"
  by (metis in_set_conv_nth length_list_update nth_list_update_eq nth_list_update_neq)

lemma all_update:
  "t < length ps \<Longrightarrow> \<forall>p \<in> set ps. P p \<Longrightarrow> P y \<Longrightarrow> \<forall>p \<in> set (ps[t := y]). P p"
  by (auto dest: set_update_subset_insert [THEN subsetD])

lemma other_member:
  "t < length ps \<Longrightarrow> x \<noteq> ps ! t \<Longrightarrow> x \<noteq> y \<Longrightarrow> x \<in> set (ps[t := y]) \<longleftrightarrow> x \<in> set ps"
  unfolding set_update_iff by (metis in_set_conv_nth)

lemma unique_member:
  "cnt P ps \<le> 1 \<Longrightarrow> t < length ps \<Longrightarrow> P (ps ! t) \<Longrightarrow> x \<in> set ps \<Longrightarrow> P x \<Longrightarrow> x = ps ! t"
  by (metis cnt_le_one_unique in_set_conv_nth)

section \<open>The phase of the blocks\<close>

lemma shape_fields:
  assumes "shape c xs s"
  shows "length (buffer s) = length xs" "length (tmp_buf s) = length xs"
    "length (block_map s) = blocks c" "length (points s) = threads c"
  using assms by (auto simp: shape_def)

lemma block_phase_facts:
  assumes "block_phase qs c xs s"
  shows "\<And>p. p \<in> set (points s) \<Longrightarrow> p = Claim \<or> (\<exists>k < blocks c. holds p k \<and> block_map s ! k = 1)
        \<or> p \<in> {Arrive (block_records c) (blocks c), Waiting (block_records c) (blocks c)}"
    and "\<And>k. k < blocks c \<Longrightarrow> cnt (\<lambda>p. holds p k) (points s) = of_bool (block_map s ! k = 1)"
    and "\<And>k. k < blocks c \<Longrightarrow> block_map s ! k \<in> {0, 1, 2}"
    and "\<And>p k. p \<in> set (points s) \<Longrightarrow> p \<in> {Arrive (block_records c) (blocks c), Waiting (block_records c) (blocks c)}
        \<Longrightarrow> k < blocks c \<Longrightarrow> block_map s ! k \<noteq> 0"
    and "\<And>k. k < blocks c \<Longrightarrow> block (block_records c) k (buffer s)
        = (if sorted_already s k then qs (block (block_records c) k xs) else block (block_records c) k xs)"
    and "drop (blocks c * block_records c) (buffer s) = drop (blocks c * block_records c) xs"
  using assms unfolding block_phase_def by (blast, blast, blast, blast, blast, blast)

lemma block_phase_sort:
  assumes "qsort_contract qs" and "blocks c * block_records c \<le> length xs"
    and sh: "shape c xs s" and bp: "block_phase qs c xs s"
    and t: "t < threads c" "points s ! t = Sort_block k"
  shows "shape c xs (sort_block qs c t k s) \<and> block_phase qs c xs (sort_block qs c t k s)"
proof -
  define b where "b = block_records c"
  note f = block_phase_facts [OF bp, folded b_def]
  note sf = shape_fields [OF sh]
  have tl: "t < length (points s)" using t sf by simp
  have tm: "Sort_block k \<in> set (points s)" using nth_mem [OF tl] t by simp
  from f(1) [OF tm] have k: "k < blocks c" "block_map s ! k = 1" by auto
  have only: "Mark_block k \<notin> set (points s)"
    using unique_member [of "\<lambda>p. holds p k" "points s" t "Mark_block k"] f(2) [OF k(1)] k(2) t tl by auto
  have lb: "length (block b k (buffer s)) = b" using k(1) assms(2) sf b_def by simp
  define w where "w = sort_block qs c t k s"
  have w: "buffer w = splice (k * b) (qs (block b k (buffer s))) (buffer s)" "tmp_buf w = tmp_buf s"
    "block_map w = block_map s" "points w = (points s)[t := Mark_block k]"
    by (simp_all add: w_def sort_block_def b_def)
  have ln: "length (qs (block b k (buffer s))) = b" using lb qsort_facts(2) [OF assms(1)] by simp
  have fit: "blocks c * b \<le> length (buffer s)" using assms(2) sf b_def by simp
  have l: "length (buffer w) = length xs"
    unfolding w using block_in_range [OF k(1), of b] fit sf ln by simp
  have sa: "sorted_already w j \<longleftrightarrow> j = k \<or> sorted_already s j" for j
    using t other_member [OF tl, of "Mark_block j" "Mark_block k"] set_update_memI [OF tl]
    by (cases "j = k") (auto simp: sorted_already_def w)
  have nk: "\<not> sorted_already s k" using only k by (simp add: sorted_already_def)
  have "block b j (buffer w) = (if sorted_already w j then qs (block b j xs) else block b j xs)" if "j < blocks c" for j
    unfolding w(1) block_splice [OF that k(1) fit ln] using f(5) [OF that] f(5) [OF k(1)] nk sa by auto
  moreover have "drop (blocks c * b) (buffer w) = drop (blocks c * b) xs"
    unfolding w(1) drop_splice [OF k(1) fit ln] by (rule f(6))
  moreover have "cnt (\<lambda>p. holds p j) (points w) = of_bool (block_map w ! j = 1)" if "j < blocks c" for j
    using f(2) [OF that] tl t by (simp add: w)
  moreover have "\<forall>p \<in> set (points w). p = Claim \<or> (\<exists>k < blocks c. holds p k \<and> block_map s ! k = 1)
        \<or> p \<in> {Arrive b (blocks c), Waiting b (blocks c)}"
    unfolding w using f(1) k tl by (intro all_update) auto
  moreover have "\<exists>p \<in> set (points w). \<not> is_waiting p"
    using tl by (intro bexI [of _ "Mark_block k"]) (simp_all add: w set_update_memI)
  moreover have "block_map w ! j \<noteq> 0" if "p \<in> set (points w)" "p \<in> {Arrive b (blocks c), Waiting b (blocks c)}" "j < blocks c" for p j
  proof -
    have "p \<in> set (points s)" using that(1,2) other_member [OF tl, of p "Mark_block k"] t by (auto simp: w)
    then show ?thesis using f(4) that w(3) by simp
  qed
  moreover have "\<forall>k < blocks c. block_map w ! k \<in> {0, 1, 2}" using f(3) w(3) by simp
  ultimately have "block_phase qs c xs w"
    unfolding block_phase_def b_def [symmetric] w(3) by blast
  moreover have "shape c xs w" using l sf by (simp add: shape_def w)
  ultimately show ?thesis by (simp add: w_def)
qed

lemma block_phase_mark:
  assumes sh: "shape c xs s" and bp: "block_phase qs c xs s"
    and t: "t < threads c" "points s ! t = Mark_block k"
  shows "shape c xs (mark_block t k s) \<and> block_phase qs c xs (mark_block t k s)"
proof -
  define b where "b = block_records c"
  note f = block_phase_facts [OF bp, folded b_def]
  note sf = shape_fields [OF sh]
  have tl: "t < length (points s)" using t sf by simp
  have tm: "Mark_block k \<in> set (points s)" using nth_mem [OF tl] t by simp
  from f(1) [OF tm] have k: "k < blocks c" "block_map s ! k = 1" by auto
  define w where "w = mark_block t k s"
  have w: "buffer w = buffer s" "tmp_buf w = tmp_buf s"
    "block_map w = (block_map s)[k := 2]" "points w = (points s)[t := Claim]"
    by (simp_all add: w_def mark_block_def)
  have kl: "k < length (block_map s)" using k sf by simp
  have mm: "block_map w ! j = (if j = k then 2 else block_map s ! j)" if "j < blocks c" for j
    using that sf by (simp add: w)
  have sa: "sorted_already w j \<longleftrightarrow> sorted_already s j" if "j < blocks c" for j
    using tl tm t mm [OF that] other_member [OF tl, of "Mark_block j" Claim]
    by (cases "j = k") (auto simp: sorted_already_def w)
  have unk: "\<not> holds p k" if "p \<in> set (points w)" for p
  proof -
    have "cnt (\<lambda>p. holds p k) (points w) = 0"
      using f(2) [OF k(1)] k(2) tl t by (simp add: w)
    then show ?thesis using that by (auto simp: cnt_def filter_empty_conv)
  qed
  have "block b j (buffer w) = (if sorted_already w j then qs (block b j xs) else block b j xs)" if "j < blocks c" for j
    using f(5) [OF that] sa [OF that] by (simp add: w)
  moreover have "drop (blocks c * b) (buffer w) = drop (blocks c * b) xs"
    unfolding w(1) by (rule f(6))
  moreover have "cnt (\<lambda>p. holds p j) (points w) = of_bool (block_map w ! j = 1)" if "j < blocks c" for j
    using f(2) [OF that] tl t k(2) mm [OF that] by (auto simp: w)
  moreover have "p = Claim \<or> (\<exists>k < blocks c. holds p k \<and> block_map w ! k = 1)
        \<or> p \<in> {Arrive b (blocks c), Waiting b (blocks c)}" if "p \<in> set (points w)" for p
  proof -
    from that have "p = Claim \<or> p \<in> set (points s)"
      using set_update_subset_insert [of "points s" t Claim] by (auto simp: w)
    then show ?thesis
    proof
      assume "p \<in> set (points s)"
      have "block_map w ! j = block_map s ! j" if "holds p j" "j < blocks c" for j
        using unk [OF \<open>p \<in> set (points w)\<close>] mm that by (cases "j = k") auto
      with f(1) [OF \<open>p \<in> set (points s)\<close>] show ?thesis by metis
    qed simp
  qed
  moreover have "\<exists>p \<in> set (points w). \<not> is_waiting p"
    using tl by (intro bexI [of _ "Claim"]) (simp_all add: w set_update_memI)
  moreover have "block_map w ! j \<noteq> 0" if "p \<in> set (points w)" "p \<in> {Arrive b (blocks c), Waiting b (blocks c)}" "j < blocks c" for p j
  proof -
    have "p \<in> set (points s)" using that(1,2) other_member [OF tl, of p Claim] t by (auto simp: w)
    then show ?thesis using f(4) that mm by simp
  qed
  moreover have "\<forall>k < blocks c. block_map w ! k \<in> {0, 1, 2}" using f(3) mm by simp
  ultimately have "block_phase qs c xs w"
    unfolding block_phase_def b_def [symmetric] by blast
  moreover have "shape c xs w" using sf by (simp add: shape_def w)
  ultimately show ?thesis by (simp add: w_def)
qed

lemma block_phase_claim:
  assumes sh: "shape c xs s" and bp: "block_phase qs c xs s"
    and t: "t < threads c" "points s ! t = Claim"
  shows "shape c xs (claim_block c t s) \<and> block_phase qs c xs (claim_block c t s)"
proof -
  define b where "b = block_records c"
  define at_barrier where "at_barrier = {Arrive b (blocks c), Waiting b (blocks c)}"
  note f = block_phase_facts [OF bp, folded b_def, folded at_barrier_def]
  note sf = shape_fields [OF sh]
  have tl: "t < length (points s)" using t sf by simp
  define w where "w = claim_block c t s"
  show ?thesis
  proof (cases "List.find (\<lambda>i. block_map s ! i = 0) [0..<blocks c]")
    case None
    have w: "buffer w = buffer s" "tmp_buf w = tmp_buf s" "block_map w = block_map s"
      "points w = (points s)[t := Arrive b (blocks c)]"
      using None by (simp_all add: w_def claim_block_def b_def)
    have z: "\<forall>k < blocks c. block_map s ! k \<noteq> 0" using None by (auto simp: find_None_iff)
    have sa: "sorted_already w j \<longleftrightarrow> sorted_already s j" for j
      using tl t other_member [OF tl, of "Mark_block j" "Arrive b (blocks c)"] by (simp add: sorted_already_def w)
    have "block b j (buffer w) = (if sorted_already w j then qs (block b j xs) else block b j xs)" if "j < blocks c" for j
      using f(5) [OF that] sa by (simp add: w)
    moreover have "drop (blocks c * b) (buffer w) = drop (blocks c * b) xs"
      unfolding w(1) by (rule f(6))
    moreover have "cnt (\<lambda>p. holds p j) (points w) = of_bool (block_map w ! j = 1)" if "j < blocks c" for j
      using f(2) [OF that] tl t by (simp add: w)
    moreover have "\<forall>p \<in> set (points w). p = Claim \<or> (\<exists>k < blocks c. holds p k \<and> block_map s ! k = 1)
        \<or> p \<in> at_barrier"
      unfolding w using f(1) tl by (intro all_update) (auto simp: at_barrier_def)
    moreover have "\<exists>p \<in> set (points w). \<not> is_waiting p"
      using tl by (intro bexI [of _ "Arrive b (blocks c)"]) (simp_all add: w set_update_memI)
    moreover have "\<forall>k < blocks c. block_map w ! k \<in> {0, 1, 2}" using f(3) w(3) by simp
    moreover have "\<forall>k < blocks c. block_map w ! k \<noteq> 0" using z w(3) by simp
    ultimately have "block_phase qs c xs w"
      unfolding block_phase_def b_def [symmetric] at_barrier_def [symmetric] w(3) by blast
    moreover have "shape c xs w" using sf by (simp add: shape_def w)
    ultimately show ?thesis by (simp add: w_def)
  next
    case (Some i)
    then have i: "i < blocks c" "block_map s ! i = 0" by (auto simp: find_Some_iff)
    have w: "buffer w = buffer s" "tmp_buf w = tmp_buf s" "block_map w = (block_map s)[i := 1]"
      "points w = (points s)[t := Sort_block i]"
      using Some by (simp_all add: w_def claim_block_def)
    have mm: "block_map w ! j = (if j = i then 1 else block_map s ! j)" if "j < blocks c" for j
      using that sf by (simp add: w)
    have none: "\<not> holds p i" if "p \<in> set (points s)" for p
      using f(2) [OF i(1)] i(2) that by (auto simp: cnt_def filter_empty_conv)
    have nm: "Mark_block i \<notin> set (points s)" using none [of "Mark_block i"] by auto
    have sa: "sorted_already w j \<longleftrightarrow> sorted_already s j" if "j < blocks c" for j
      using tl t nm i mm [OF that] other_member [OF tl, of "Mark_block j" "Sort_block i"]
      by (auto simp: sorted_already_def w)
    have "block b j (buffer w) = (if sorted_already w j then qs (block b j xs) else block b j xs)" if "j < blocks c" for j
      using f(5) [OF that] sa [OF that] by (simp add: w)
    moreover have "drop (blocks c * b) (buffer w) = drop (blocks c * b) xs"
      unfolding w(1) by (rule f(6))
    moreover have "cnt (\<lambda>p. holds p j) (points w) = of_bool (block_map w ! j = 1)" if "j < blocks c" for j
      using f(2) [OF that] tl t i(2) mm [OF that] by (auto simp: w)
    moreover have "p = Claim \<or> (\<exists>k < blocks c. holds p k \<and> block_map w ! k = 1) \<or> p \<in> at_barrier"
      if "p \<in> set (points w)" for p
    proof -
      from that have "p = Sort_block i \<or> p \<in> set (points s)"
        using set_update_subset_insert [of "points s" t "Sort_block i"] by (auto simp: w)
      then show ?thesis
      proof
        assume "p \<in> set (points s)"
        from f(1) [OF this] show ?thesis using none [OF \<open>p \<in> set (points s)\<close>] mm by force
      next
        assume "p = Sort_block i"
        then show ?thesis using i(1) mm [OF i(1)] by auto
      qed
    qed
    moreover have "\<exists>p \<in> set (points w). \<not> is_waiting p"
      using tl by (intro bexI [of _ "Sort_block i"]) (simp_all add: w set_update_memI)
    moreover have "p \<notin> at_barrier" if "p \<in> set (points w)" for p
    proof
      assume p: "p \<in> at_barrier"
      then have "p \<in> set (points s)"
        using that other_member [OF tl, of p "Sort_block i"] t by (auto simp: w at_barrier_def)
      from f(4) [OF this p i(1)] show False using i(2) by simp
    qed
    moreover have "\<forall>k < blocks c. block_map w ! k \<in> {0, 1, 2}" using f(3) mm by simp
    ultimately have "block_phase qs c xs w"
      unfolding block_phase_def b_def [symmetric] at_barrier_def [symmetric] by blast
    moreover have "shape c xs w" using sf by (simp add: shape_def w)
    ultimately show ?thesis by (simp add: w_def)
  qed
qed

section \<open>The barrier\<close>

lemma merge_rounds_1 [simp]: "merge_rounds T L (Suc 0) xs = xs"
  by (subst merge_rounds.simps) simp

lemma half_power: "(2 ^ Suc n + 1) div 2 = (2 ^ n :: nat)"
  by simp

lemma everybody_resumes:
  assumes sh: "shape c xs s" and T: "0 < threads c"
    and all: "\<forall>p \<in> set (points s). p = Waiting L C"
    and C: "C = 2 ^ n" "C * L \<le> length xs"
    and mr: "merge_rounds (threads c) L C (buffer s) = sort_part qs c xs"
  shows "sort_inv qs c xs (s\<lparr>points := map resume (points s)\<rparr>)"
proof -
  define w where "w = s\<lparr>points := map resume (points s)\<rparr>"
  have w: "buffer w = buffer s" "tmp_buf w = tmp_buf s" "block_map w = block_map s"
    "points w = map resume (points s)" by (simp_all add: w_def)
  note sf = shape_fields [OF sh]
  have shw: "shape c xs w" using sf by (simp add: shape_def w)
  have pts: "points w ! t = next_round L C" if "t < threads c" for t
  proof -
    have tl: "t < length (points s)" using that sf by simp
    then have "points s ! t = Waiting L C" using all nth_mem by blast
    then show ?thesis using tl by (simp add: w)
  qed
  have pset: "p = next_round L C" if "p \<in> set (points w)" for p
    using all that by (auto simp: w)
  show ?thesis
  proof (cases n)
    case 0
    then have "part_done w" using pset C by (simp add: part_done_def next_round_def)
    moreover have "buffer w = sort_part qs c xs" using mr 0 C w by simp
    ultimately show ?thesis using shw by (simp add: sort_inv_def w_def)
  next
    case (Suc m)
    have "(1::nat) < 2 ^ Suc m" by (rule one_less_power) simp_all
    then have nr: "next_round L C = Merge_runs L C" using C Suc by (simp add: next_round_def)
    have lp: "length (points w) = threads c" using sf w by simp
    have nm: "\<not> merged w L C p" for p using pts nr lp by (simp add: merged_def)
    have ex: "\<exists>p \<in> set (points w). \<not> is_waiting p"
      using pts [OF T] nr nth_mem [of 0 "points w"] lp T by (intro bexI [of _ "points w ! 0"]) auto
    have "round_phase qs c xs L C (buffer w) w"
      unfolding round_phase_def
    proof (intro conjI)
      show "merge_rounds (threads c) L C (buffer w) = sort_part qs c xs" using mr w by simp
      show "\<exists>n. C = 2 ^ Suc n" using C Suc by blast
      show "C * L \<le> length (buffer w)" "length (buffer w) = length xs" using C sf w by simp_all
    qed (use pset pts nr nm ex in auto)
    then show ?thesis using shw by (auto simp: sort_inv_def w_def)
  qed
qed

lemma all_blocks_sorted:
  assumes "qsort_contract qs" and "blocks c * block_records c \<le> length xs"
    and "length ys = length xs"
    and "\<And>k. k < blocks c \<Longrightarrow> block (block_records c) k ys = qs (block (block_records c) k xs)"
    and "drop (blocks c * block_records c) ys = drop (blocks c * block_records c) xs"
  shows "ys = sort_blocks qs (block_records c) (blocks c) xs"
proof -
  have l: "\<forall>i < blocks c. length (qs (block (block_records c) i xs)) = block_records c"
    using assms(2) by (simp add: qsort_facts(2) [OF assms(1)])
  show ?thesis
  proof (rule blocks_eqI [where n = "blocks c" and L = "block_records c"])
    have "length (drop (blocks c * block_records c) ys) = length (drop (blocks c * block_records c) xs)" using assms(5) by simp
    show "length ys = length (sort_blocks qs (block_records c) (blocks c) xs)"
      unfolding sort_blocks_def length_append length_concat_equal [OF l] using assms(2,3) by simp
    show "blocks c * block_records c \<le> length ys" using assms by simp
    show "drop (blocks c * block_records c) ys = drop (blocks c * block_records c) (sort_blocks qs (block_records c) (blocks c) xs)"
      unfolding sort_blocks_def drop_concat [OF l] by (rule assms(5))
    show "block (block_records c) i ys = block (block_records c) i (sort_blocks qs (block_records c) (blocks c) xs)"
      if "i < blocks c" for i
      unfolding sort_blocks_def block_concat [OF l that] by (rule assms(4) [OF that])
  qed
qed

lemma block_phase_arrive:
  assumes "qsort_contract qs" and "blocks c * block_records c \<le> length xs" and g: "good_context c"
    and sh: "shape c xs s" and bp: "block_phase qs c xs s"
    and t: "t < threads c" "points s ! t = Arrive L C"
  shows "sort_inv qs c xs (barrier_wait t L C s)"
proof -
  define b where "b = block_records c"
  define at_barrier where "at_barrier = {Arrive b (blocks c), Waiting b (blocks c)}"
  note f = block_phase_facts [OF bp, folded b_def, folded at_barrier_def]
  note sf = shape_fields [OF sh]
  have tl: "t < length (points s)" using t sf by simp
  have tm: "Arrive L C \<in> set (points s)" using nth_mem [OF tl] t by simp
  from f(1) [OF this] have LC: "L = b" "C = blocks c" by (auto simp: at_barrier_def)
  have z: "block_map s ! k \<noteq> 0" if "k < blocks c" for k
    using f(4) [OF tm _ that] LC by (simp add: at_barrier_def)
  define w where "w = move t (Waiting L C) s"
  have w: "buffer w = buffer s" "tmp_buf w = tmp_buf s" "block_map w = block_map s"
    "points w = (points s)[t := Waiting b (blocks c)]"
    by (simp_all add: w_def LC)
  have sa: "sorted_already w j \<longleftrightarrow> sorted_already s j" for j
    using tl t other_member [OF tl, of "Mark_block j" "Waiting b (blocks c)"] by (simp add: sorted_already_def w)
  have cn: "cnt (\<lambda>p. holds p j) (points w) = of_bool (block_map w ! j = 1)" if "j < blocks c" for j
    using f(2) [OF that] tl t by (simp add: w)
  have al: "\<forall>p \<in> set (points w). p = Claim \<or> (\<exists>k < blocks c. holds p k \<and> block_map s ! k = 1)
        \<or> p \<in> at_barrier"
    unfolding w using f(1) tl by (intro all_update) (auto simp: at_barrier_def)
  have shw: "shape c xs w" using sf by (simp add: shape_def w)
  show ?thesis
  proof (cases "\<forall>p \<in> set (points w). is_waiting p")
    case True
    have "\<forall>p \<in> set (points w). p = Waiting L C"
    proof
      fix p assume "p \<in> set (points w)"
      then have "is_waiting p" "p = Claim \<or> (\<exists>k < blocks c. holds p k \<and> block_map s ! k = 1) \<or> p \<in> at_barrier"
        using True al by auto
      then show "p = Waiting L C" by (cases p) (auto simp: at_barrier_def LC)
    qed
    moreover have "buffer w = sort_blocks qs b (blocks c) xs"
      unfolding b_def
    proof (rule all_blocks_sorted [OF assms(1,2)])
      fix k assume k: "k < blocks c"
      have "cnt (\<lambda>p. holds p k) (points w) = 0"
        using True by (intro cnt_none) (metis holds.simps is_waiting.elims(2) nth_mem)
      then have "block_map s ! k = 2" using cn [OF k] f(3) [OF k] z [OF k] w(3) by auto
      then show "block (block_records c) k (buffer w) = qs (block (block_records c) k xs)"
        using f(5) [OF k] by (simp add: w b_def sorted_already_def)
    qed (use f(6) sf in \<open>simp_all add: w b_def\<close>)
    then have "merge_rounds (threads c) L C (buffer w) = sort_part qs c xs"
      by (simp add: sort_part_def LC b_def)
    moreover obtain n where "C = 2 ^ n" using g LC by (auto simp: good_context_def)
    moreover have "C * L \<le> length xs" using assms(2) LC b_def by simp
    ultimately have "sort_inv qs c xs (w\<lparr>points := map resume (points w)\<rparr>)"
      using everybody_resumes [OF shw, of L C n qs] g by (simp add: good_context_def)
    then show ?thesis using True by (simp add: barrier_wait_def w_def Let_def)
  next
    case False
    have "block_phase qs c xs w"
      unfolding block_phase_def b_def [symmetric] at_barrier_def [symmetric] w(3)
    proof (intro conjI)
      show "\<exists>p\<in>set (points w). \<not> is_waiting p" using False by blast
      show "(\<exists>p\<in>set (points w). p \<in> at_barrier) \<longrightarrow> (\<forall>k<blocks c. block_map s ! k \<noteq> 0)" using z by blast
      show "\<forall>k<blocks c. block b k (buffer w) = (if sorted_already w k then qs (block b k xs) else block b k xs)"
        using f(5) sa w(1) by simp
    qed (use al cn f(3,6) w in auto)
    then have "sort_inv qs c xs w" using shw by (simp add: sort_inv_def)
    then show ?thesis using False by (auto simp: barrier_wait_def w_def [symmetric] Let_def)
  qed
qed

section \<open>The rounds\<close>

lemma length_merge_pair:
  "p < C div 2 \<Longrightarrow> C * L \<le> length ys \<Longrightarrow> length (merge_pair L p ys) = 2 * L"
  by (simp add: merge_pair_def merge_def length_block [of _ C])

lemma pair_fits: "C * L \<le> n \<Longrightarrow> C div 2 * (2 * L) \<le> (n :: nat)"
  by (metis div_times_less_eq_dividend le_trans mult.assoc mult_le_mono1)

lemma same_pair:
  assumes "block (2 * L) p us = block (2 * L) p vs" and "p < C div 2" and "C * L \<le> length us" and "C * L \<le> length vs"
  shows "merge_pair L p us = merge_pair L p vs"
proof -
  have "2 * p < C" "2 * p + 1 < C" using assms(2) by simp_all
  then have "length (block L (2 * p) us) = length (block L (2 * p) vs)"
    using assms(3,4) by (simp only: length_block [OF \<open>2 * p < C\<close>])
  with assms(1) show ?thesis by (simp add: block_double merge_pair_def)
qed

lemma round_done:
  assumes "length zs = length ys" and "C * L \<le> length ys"
    and "\<And>p. p < C div 2 \<Longrightarrow> block (2 * L) p zs = (if p < T then merge_pair L p ys else block (2 * L) p ys)"
    and "drop (C div 2 * (2 * L)) zs = drop (C div 2 * (2 * L)) ys"
  shows "zs = merge_round T L C ys"
proof -
  define f where "f = (\<lambda>p. if p < T then merge_pair L p ys else block (2 * L) p ys)"
  have fit: "C div 2 * (2 * L) \<le> length ys" using assms(2) by (rule pair_fits)
  have l: "\<forall>i < C div 2. length (f i) = 2 * L"
    using length_merge_pair [OF _ assms(2)] length_block [OF _ fit] by (simp add: f_def)
  have m: "merge_round T L C ys = concat (map f [0..<C div 2]) @ drop (C div 2 * (2 * L)) ys"
    by (simp add: merge_round_def f_def)
  show ?thesis
  proof (rule blocks_eqI [where n = "C div 2" and L = "2 * L"])
    show "length zs = length (merge_round T L C ys)"
      unfolding m length_append length_concat_equal [OF l] using fit assms(1) by simp
    show "drop (C div 2 * (2 * L)) zs = drop (C div 2 * (2 * L)) (merge_round T L C ys)"
      unfolding m drop_concat [OF l] by (rule assms(4))
    show "block (2 * L) i zs = block (2 * L) i (merge_round T L C ys)" if "i < C div 2" for i
      unfolding m block_concat [OF l that] using assms(3) [OF that] by (simp add: f_def)
  qed (use fit assms(1) in simp)
qed

lemma round_phase_facts:
  assumes "round_phase qs c xs L C ys s"
  shows "merge_rounds (threads c) L C ys = sort_part qs c xs" and "\<exists>n. C = 2 ^ Suc n"
    and "C * L \<le> length ys" and "length ys = length xs"
    and "\<And>p. p \<in> set (points s) \<Longrightarrow> p \<in> {Merge_runs L C, Copy_runs L C, Arrive (2 * L) ((C + 1) div 2),
        Waiting (2 * L) ((C + 1) div 2)}"
    and "\<And>t. t < threads c \<Longrightarrow> points s ! t = Copy_runs L C \<Longrightarrow>
        t < C div 2 \<and> block (2 * L) t (tmp_buf s) = merge_pair L t ys"
    and "\<And>p. p < C div 2 \<Longrightarrow> block (2 * L) p (buffer s)
        = (if merged s L C p then merge_pair L p ys else block (2 * L) p ys)"
    and "drop (C div 2 * (2 * L)) (buffer s) = drop (C div 2 * (2 * L)) ys"
  using assms unfolding round_phase_def by (blast, blast, blast, blast, blast, blast, blast, blast)

lemma merged_update:
  assumes "t < length (points s)" and "points w = (points s)[t := q]"
  shows "merged w L C p \<longleftrightarrow> (if p = t then q \<in> {Arrive (2 * L) ((C + 1) div 2), Waiting (2 * L) ((C + 1) div 2)}
    else merged s L C p)"
  using assms by (auto simp: merged_def)

lemma round_phase_merge:
  assumes sh: "shape c xs s" and rp: "round_phase qs c xs L C ys s"
    and t: "t < threads c" "points s ! t = Merge_runs L C"
  shows "shape c xs (merge_runs t L C s) \<and> round_phase qs c xs L C ys (merge_runs t L C s)"
proof -
  note f = round_phase_facts [OF rp]
  note sf = shape_fields [OF sh]
  have tl: "t < length (points s)" using t sf by simp
  define w where "w = merge_runs t L C s"
  show ?thesis
  proof (cases "t < C div 2")
    case True
    define new where "new = merge_pair L t (buffer s)"
    have w: "buffer w = buffer s" "tmp_buf w = splice (t * (2 * L)) new (tmp_buf s)" "block_map w = block_map s"
      "points w = (points s)[t := Copy_runs L C]"
      using True by (simp_all add: w_def merge_runs_def Let_def new_def merge_pair_def block_def algebra_simps)
    have fit: "C div 2 * (2 * L) \<le> length (tmp_buf s)" using pair_fits f(3,4) sf by simp
    have nm: "\<not> merged s L C t" using t by (simp add: merged_def)
    have ln: "length new = 2 * L" using length_merge_pair [OF True] f(3,4) sf by (simp add: new_def)
    have new: "new = merge_pair L t ys"
      unfolding new_def by (rule same_pair [OF _ True]) (use f(3,4) f(7) [OF True] nm sf in simp_all)
    have mg: "merged w L C p \<longleftrightarrow> merged s L C p" for p
      using merged_update [OF tl w(4), of L C p] nm by (cases "p = t") simp_all
    have lw: "length (tmp_buf w) = length xs"
      unfolding w(2) using block_in_range [OF True, of "2 * L"] fit ln sf by simp
    have cp: "t' < C div 2 \<and> block (2 * L) t' (tmp_buf w) = merge_pair L t' ys"
      if "t' < threads c" "points w ! t' = Copy_runs L C" for t'
    proof (cases "t' = t")
      case True
      then show ?thesis using \<open>t < C div 2\<close> block_splice [OF \<open>t < C div 2\<close> \<open>t < C div 2\<close> fit ln] new by (simp add: w)
    next
      case False
      then have "points s ! t' = Copy_runs L C" using that sf by (simp add: w)
      from f(6) [OF that(1) this] False show ?thesis
        using block_splice [OF _ True fit ln, of t'] by (simp add: w)
    qed
    have "round_phase qs c xs L C ys w"
      unfolding round_phase_def
    proof (intro conjI)
      show "\<forall>p\<in>set (points w). p \<in> {Merge_runs L C, Copy_runs L C, Arrive (2 * L) ((C + 1) div 2),
        Waiting (2 * L) ((C + 1) div 2)}"
        unfolding w using f(5) tl by (intro all_update) auto
      show "\<exists>p\<in>set (points w). \<not> is_waiting p"
        using tl by (intro bexI [of _ "Copy_runs L C"]) (simp_all add: w set_update_memI)
      show "\<forall>t<threads c. points w ! t = Copy_runs L C \<longrightarrow> t < C div 2 \<and> block (2 * L) t (tmp_buf w) = merge_pair L t ys"
        using cp by blast
    qed (use f(1,2,3,4,7,8) mg w(1) in auto)
    moreover have "shape c xs w" using sf lw by (simp add: shape_def w(1,3,4))
    ultimately show ?thesis by (simp add: w_def)
  next
    case False
    have w: "buffer w = buffer s" "tmp_buf w = tmp_buf s" "block_map w = block_map s"
      "points w = (points s)[t := Arrive (2 * L) ((C + 1) div 2)]"
      using False by (simp_all add: w_def merge_runs_def Let_def)
    have mg: "merged w L C p \<longleftrightarrow> merged s L C p" if "p < C div 2" for p
      using merged_update [OF tl w(4), of L C p] that False by auto
    have cp: "points w ! t' = Copy_runs L C \<longleftrightarrow> points s ! t' = Copy_runs L C" if "t' < threads c" for t'
      using that t sf by (cases "t' = t") (simp_all add: w)
    have "round_phase qs c xs L C ys w"
      unfolding round_phase_def
    proof (intro conjI)
      show "\<forall>p\<in>set (points w). p \<in> {Merge_runs L C, Copy_runs L C, Arrive (2 * L) ((C + 1) div 2),
        Waiting (2 * L) ((C + 1) div 2)}"
        unfolding w using f(5) tl by (intro all_update) auto
      show "\<exists>p\<in>set (points w). \<not> is_waiting p"
        using tl by (intro bexI [of _ "Arrive (2 * L) ((C + 1) div 2)"]) (simp_all add: w set_update_memI)
      show "\<forall>t<threads c. points w ! t = Copy_runs L C \<longrightarrow> t < C div 2 \<and> block (2 * L) t (tmp_buf w) = merge_pair L t ys"
        using cp f(6) w(2) by simp
    qed (use f(1,2,3,4,7,8) mg w(1) in auto)
    moreover have "shape c xs w" using sf by (simp add: shape_def w)
    ultimately show ?thesis by (simp add: w_def)
  qed
qed

lemma round_phase_copy:
  assumes sh: "shape c xs s" and rp: "round_phase qs c xs L C ys s"
    and t: "t < threads c" "points s ! t = Copy_runs L C"
  shows "shape c xs (copy_runs t L C s) \<and> round_phase qs c xs L C ys (copy_runs t L C s)"
proof -
  note f = round_phase_facts [OF rp]
  note sf = shape_fields [OF sh]
  have tl: "t < length (points s)" using t sf by simp
  have tC: "t < C div 2" and tmp: "block (2 * L) t (tmp_buf s) = merge_pair L t ys" using f(6) [OF t] by auto
  define w where "w = copy_runs t L C s"
  have w: "buffer w = splice (t * (2 * L)) (merge_pair L t ys) (buffer s)" "tmp_buf w = tmp_buf s"
    "block_map w = block_map s" "points w = (points s)[t := Arrive (2 * L) ((C + 1) div 2)]"
    using tmp by (simp_all add: w_def copy_runs_def Let_def block_def mult.commute mult.left_commute)
  have fit: "C div 2 * (2 * L) \<le> length (buffer s)" using pair_fits f(3,4) sf by simp
  have ln: "length (merge_pair L t ys) = 2 * L" using length_merge_pair [OF tC f(3)] .
  have mg: "merged w L C p \<longleftrightarrow> p = t \<or> merged s L C p" for p
    using merged_update [OF tl w(4), of L C p] by simp
  have lw: "length (buffer w) = length xs"
    unfolding w(1) using block_in_range [OF tC, of "2 * L"] fit ln sf by simp
  have cp: "points w ! t' = Copy_runs L C \<Longrightarrow> points s ! t' = Copy_runs L C" if "t' < threads c" for t'
    using that t sf by (cases "t' = t") (simp_all add: w)
  have "round_phase qs c xs L C ys w"
    unfolding round_phase_def
  proof (intro conjI)
    show "\<forall>p\<in>set (points w). p \<in> {Merge_runs L C, Copy_runs L C, Arrive (2 * L) ((C + 1) div 2),
        Waiting (2 * L) ((C + 1) div 2)}"
      unfolding w using f(5) tl by (intro all_update) auto
    show "\<exists>p\<in>set (points w). \<not> is_waiting p"
      using tl by (intro bexI [of _ "Arrive (2 * L) ((C + 1) div 2)"]) (simp_all add: w set_update_memI)
    show "\<forall>t<threads c. points w ! t = Copy_runs L C \<longrightarrow> t < C div 2 \<and> block (2 * L) t (tmp_buf w) = merge_pair L t ys"
      using cp f(6) w(2) by simp
    show "\<forall>p<C div 2. block (2 * L) p (buffer w) = (if merged w L C p then merge_pair L p ys else block (2 * L) p ys)"
      using block_splice [OF _ tC fit ln] f(7) mg w(1) by simp
    show "drop (C div 2 * (2 * L)) (buffer w) = drop (C div 2 * (2 * L)) ys"
      unfolding w(1) drop_splice [OF tC fit ln] by (rule f(8))
  qed (use f(1,2,3,4) in auto)
  moreover have "shape c xs w" using sf lw by (simp add: shape_def w(2,3,4))
  ultimately show ?thesis by (simp add: w_def)
qed

lemma round_phase_arrive:
  assumes T: "0 < threads c" and sh: "shape c xs s" and rp: "round_phase qs c xs L C ys s"
    and t: "t < threads c" "points s ! t = Arrive L' C'"
  shows "sort_inv qs c xs (barrier_wait t L' C' s)"
proof -
  note f = round_phase_facts [OF rp]
  note sf = shape_fields [OF sh]
  have tl: "t < length (points s)" using t sf by simp
  have tm: "Arrive L' C' \<in> set (points s)" using nth_mem [OF tl] t by simp
  from f(5) [OF this] have LC: "L' = 2 * L" "C' = (C + 1) div 2" by auto
  define w where "w = move t (Waiting L' C') s"
  have w: "buffer w = buffer s" "tmp_buf w = tmp_buf s" "block_map w = block_map s"
    "points w = (points s)[t := Waiting (2 * L) ((C + 1) div 2)]"
    by (simp_all add: w_def LC)
  have mg: "merged w L C p \<longleftrightarrow> merged s L C p" for p
    using merged_update [OF tl w(4), of L C p] t tl by (cases "p = t") (simp_all add: merged_def LC)
  have al: "\<forall>p\<in>set (points w). p \<in> {Merge_runs L C, Copy_runs L C, Arrive (2 * L) ((C + 1) div 2),
        Waiting (2 * L) ((C + 1) div 2)}"
    unfolding w using f(5) tl by (intro all_update) auto
  have shw: "shape c xs w" using sf by (simp add: shape_def w)
  show ?thesis
  proof (cases "\<forall>p \<in> set (points w). is_waiting p")
    case True
    have allw: "\<forall>p \<in> set (points w). p = Waiting L' C'"
    proof
      fix p assume "p \<in> set (points w)"
      with True al have "is_waiting p" "p \<in> {Merge_runs L C, Copy_runs L C, Arrive (2 * L) ((C + 1) div 2),
        Waiting (2 * L) ((C + 1) div 2)}" by auto
      then show "p = Waiting L' C'" by (auto simp: LC)
    qed
    have lp: "length (points w) = threads c" using sf by (simp add: w)
    have mt: "merged w L C p \<longleftrightarrow> p < threads c" for p
      using allw nth_mem [of p "points w"] lp by (auto simp: merged_def LC)
    obtain n where n: "C = 2 ^ Suc n" using f(2) by blast
    have buf: "buffer w = merge_round (threads c) L C ys"
    proof (rule round_done)
      show "length (buffer w) = length ys" using f(4) sf w by simp
      show "block (2 * L) p (buffer w) = (if p < threads c then merge_pair L p ys else block (2 * L) p ys)"
        if "p < C div 2" for p
        using f(7) [OF that] mg mt w(1) by simp
    qed (use f(3,8) w in simp_all)
    have "1 < C" unfolding n by (rule one_less_power) simp_all
    then have "merge_rounds (threads c) L' C' (buffer w) = sort_part qs c xs"
      using f(1) by (subst (asm) merge_rounds.simps) (simp add: buf LC)
    moreover have Cn: "C' = 2 ^ n" unfolding LC n by (rule half_power)
    moreover have "C' * L' \<le> length xs" using f(3,4) Cn n LC(1) by simp
    ultimately have "sort_inv qs c xs (w\<lparr>points := map resume (points w)\<rparr>)"
      using everybody_resumes [OF shw T allw] by blast
    then show ?thesis using True by (simp add: barrier_wait_def w_def Let_def)
  next
    case False
    have cp: "points w ! t' = Copy_runs L C \<Longrightarrow> points s ! t' = Copy_runs L C" if "t' < threads c" for t'
      using that t sf by (cases "t' = t") (simp_all add: w)
    have "round_phase qs c xs L C ys w"
      unfolding round_phase_def
    proof (intro conjI)
      show "\<exists>p\<in>set (points w). \<not> is_waiting p" using False by blast
      show "\<forall>t<threads c. points w ! t = Copy_runs L C \<longrightarrow> t < C div 2 \<and> block (2 * L) t (tmp_buf w) = merge_pair L t ys"
        using cp f(6) w(2) by simp
    qed (use f(1,2,3,4,7,8) mg al w(1) in auto)
    then have "sort_inv qs c xs w" using shw by (auto simp: sort_inv_def)
    then show ?thesis using False by (auto simp: barrier_wait_def w_def [symmetric] Let_def)
  qed
qed

section \<open>The invariant holds throughout\<close>

lemma sort_inv_start:
  assumes g: "good_context c" and l: "length xs = records_per_part c" "length junk = length xs"
  shows "sort_inv qs c xs (start_part c xs junk)"
proof -
  define s where "s = start_part c xs junk"
  have s: "buffer s = xs" "tmp_buf s = junk" "block_map s = map (\<lambda>i. if i < threads c then 1 else 0) [0..<blocks c]"
    "points s = map Sort_block [0..<threads c]"
    using g by (auto simp: s_def start_part_def entry_def good_context_def)
  have T: "0 < threads c" "threads c \<le> blocks c" using g by (auto simp: good_context_def)
  have "shape c xs s" using l by (simp add: shape_def s)
  moreover have "block_phase qs c xs s"
    unfolding block_phase_def
  proof (intro conjI)
    show "\<forall>p\<in>set (points s). p = Claim \<or> (\<exists>k<blocks c. holds p k \<and> block_map s ! k = 1) \<or>
        p \<in> {Arrive (block_records c) (blocks c), Waiting (block_records c) (blocks c)}"
      using T by (auto simp: s)
    show "\<exists>p\<in>set (points s). \<not> is_waiting p" using T by (auto simp: s)
    show "\<forall>k<blocks c. cnt (\<lambda>p. holds p k) (points s) = of_bool (block_map s ! k = 1)"
    proof (intro allI impI)
      fix k assume k: "k < blocks c"
      have "filter (\<lambda>i. i = k) [0..<n] = (if k < n then [k] else [])" for n by (induction n) auto
      then show "cnt (\<lambda>p. holds p k) (points s) = of_bool (block_map s ! k = 1)"
        using k by (simp add: s cnt_def filter_map comp_def)
    qed
  qed (auto simp: s sorted_already_def)
  ultimately show ?thesis by (simp add: sort_inv_def s_def)
qed

lemma sort_inv_step:
  assumes qs: "qsort_contract qs" and g: "good_context c" and l: "length xs = records_per_part c"
    and inv: "sort_inv qs c xs s" and step: "thread_func qs c s t = Some u"
  shows "sort_inv qs c xs u"
proof -
  have t: "t < threads c" using step by (simp add: thread_func_def split: if_splits)
  have fit: "blocks c * block_records c \<le> length xs" using blocks_fit l by simp
  have T: "0 < threads c" using g by (simp add: good_context_def)
  from inv have sh: "shape c xs s" by (simp add: sort_inv_def)
  have tm: "points s ! t \<in> set (points s)" using t shape_fields(4) [OF sh] by simp
  from inv consider (blocks) "block_phase qs c xs s" | (rounds) L C ys where "round_phase qs c xs L C ys s"
    | (finished) "part_done s" by (auto simp: sort_inv_def)
  then show ?thesis
  proof cases
    case blocks
    show ?thesis
    proof (cases "points s ! t")
      case (Sort_block k)
      with step t have "u = sort_block qs c t k s" by (simp add: thread_func_def)
      with block_phase_sort [OF qs fit sh blocks t Sort_block] show ?thesis by (simp add: sort_inv_def)
    next
      case (Mark_block k)
      with step t have "u = mark_block t k s" by (simp add: thread_func_def)
      with block_phase_mark [OF sh blocks t Mark_block] show ?thesis by (simp add: sort_inv_def)
    next
      case Claim
      with step t have "u = claim_block c t s" by (simp add: thread_func_def)
      with block_phase_claim [OF sh blocks t Claim] show ?thesis by (simp add: sort_inv_def)
    next
      case (Arrive L C)
      with step t have "u = barrier_wait t L C s" by (simp add: thread_func_def)
      with block_phase_arrive [OF qs fit g sh blocks t Arrive] show ?thesis by simp
    qed (use step t block_phase_facts(1) [OF blocks tm] in \<open>auto simp: thread_func_def\<close>)
  next
    case rounds
    note pt = round_phase_facts(5) [OF rounds tm]
    show ?thesis
    proof (cases "points s ! t")
      case (Merge_runs L' C')
      with pt step t have "u = merge_runs t L C s" "points s ! t = Merge_runs L C" by (auto simp: thread_func_def)
      with round_phase_merge [OF sh rounds t] show ?thesis by (auto simp: sort_inv_def)
    next
      case (Copy_runs L' C')
      with pt step t have "u = copy_runs t L C s" "points s ! t = Copy_runs L C" by (auto simp: thread_func_def)
      with round_phase_copy [OF sh rounds t] show ?thesis by (auto simp: sort_inv_def)
    next
      case (Arrive L' C')
      with step t have "u = barrier_wait t L' C' s" by (simp add: thread_func_def)
      with round_phase_arrive [OF T sh rounds t Arrive] show ?thesis by simp
    qed (use step t pt in \<open>auto simp: thread_func_def\<close>)
  next
    case finished
    then have "points s ! t = Returned" using tm by (simp add: part_done_def)
    then show ?thesis using step t by (simp add: thread_func_def)
  qed
qed

text \<open>The part of the hypotheses of the theorems on a part of the file that does not change.\<close>

definition part_setup :: "(index_s list \<Rightarrow> index_s list) \<Rightarrow> sort_context \<Rightarrow> index_s list \<Rightarrow> index_s list \<Rightarrow> bool" where
  "part_setup qs c xs junk \<longleftrightarrow> qsort_contract qs \<and> good_context c
     \<and> length xs = records_per_part c \<and> length junk = length xs"

interpretation sorting: invariant_machine "thread_func qs c" "start_part c xs junk"
  "\<lambda>s. part_setup qs c xs junk \<longrightarrow> sort_inv qs c xs s" for qs c xs junk
  by unfold_locales (auto simp: part_setup_def intro: sort_inv_start sort_inv_step)

lemma sort_inv_reachable:
  "part_setup qs c xs junk \<Longrightarrow> reachable (thread_func qs c) (start_part c xs junk) s \<Longrightarrow> sort_inv qs c xs s"
  using sorting.inv_reachable by blast

lemma unfinished_moves:
  assumes "0 < threads c" and "sort_inv qs c xs s" and "\<not> part_done s"
  shows "\<exists>t < threads c. \<exists>u. thread_func qs c s t = Some u"
proof -
  from assms have sh: "shape c xs s" by (simp add: sort_inv_def)
  have "\<exists>p \<in> set (points s). \<not> is_waiting p \<and> p \<noteq> Returned"
  proof -
    from assms consider (blocks) "block_phase qs c xs s" | (rounds) L C ys where "round_phase qs c xs L C ys s"
      by (auto simp: sort_inv_def)
    then show ?thesis
    proof cases
      case blocks
      then obtain p where p: "p \<in> set (points s)" "\<not> is_waiting p" by (auto simp: block_phase_def)
      from block_phase_facts(1) [OF blocks p(1)] have "p \<noteq> Returned" by auto
      with p show ?thesis by blast
    next
      case rounds
      then obtain p where p: "p \<in> set (points s)" "\<not> is_waiting p" by (auto simp: round_phase_def)
      from round_phase_facts(5) [OF rounds p(1)] have "p \<noteq> Returned" by auto
      with p show ?thesis by blast
    qed
  qed
  then obtain t where t: "t < threads c" "\<not> is_waiting (points s ! t)" "points s ! t \<noteq> Returned"
    using shape_fields(4) [OF sh] by (auto simp: in_set_conv_nth)
  then show ?thesis by (intro exI [of _ t]) (cases "points s ! t"; simp add: thread_func_def)
qed

section \<open>The number of steps\<close>

function rounds_left :: "nat \<Rightarrow> nat" where
  "rounds_left C = (if C > 1 then Suc (rounds_left ((C + 1) div 2)) else 0)"
  by pat_completeness auto
termination by (relation "measure id") auto

declare rounds_left.simps [simp del]

fun steps_left :: "nat \<Rightarrow> point \<Rightarrow> nat" where
  "steps_left R (Sort_block k) = 4 * R + 5"
| "steps_left R (Mark_block k) = 4 * R + 4"
| "steps_left R Claim = 4 * R + 3"
| "steps_left R (Merge_runs L C) = 4 * rounds_left C"
| "steps_left R (Copy_runs L C) = 4 * rounds_left C - 1"
| "steps_left R (Arrive L C) = 4 * rounds_left C + 2"
| "steps_left R (Waiting L C) = 4 * rounds_left C + 1"
| "steps_left R Returned = 0"

definition steps_bound :: "sort_context \<Rightarrow> part_sort \<Rightarrow> nat" where
  "steps_bound c s = sum_list (map (steps_left (rounds_left (blocks c))) (points s)) + 3 * cnt (\<lambda>m. m = 0) (block_map s)"

lemma sum_list_update_less:
  "t < length ps \<Longrightarrow> (f y :: nat) < f (ps ! t) \<Longrightarrow> sum_list (map f (ps[t := y])) < sum_list (map f ps)"
proof (induction ps arbitrary: t)
  case (Cons p ps)
  then show ?case by (cases t) auto
qed simp

lemma sum_list_update_diff:
  "t < length ps \<Longrightarrow> sum_list (map f (ps[t := y])) + (f (ps ! t) :: nat) = sum_list (map f ps) + f y"
proof (induction ps arbitrary: t)
  case (Cons p ps)
  then show ?case by (cases t) auto
qed simp

lemma resume_steps: "steps_left R (resume p) \<le> steps_left R p"
  by (cases p) (auto simp: next_round_def)

lemma sum_list_resume:
  "sum_list (map (steps_left R) (map resume ps)) \<le> sum_list (map (steps_left R) ps)"
  by (induction ps) (auto simp: add_mono resume_steps)

text \<open>Every step of a thread leaves fewer steps to do, whatever the others have done.\<close>

lemma thread_func_decreases:
  assumes "sort_inv qs c xs s" and "thread_func qs c s t = Some u"
  shows "steps_bound c u < steps_bound c s"
proof -
  define R where "R = rounds_left (blocks c)"
  from assms have sh: "shape c xs s" by (simp add: sort_inv_def)
  note sf = shape_fields [OF sh]
  have t: "t < threads c" using assms(2) by (simp add: thread_func_def split: if_splits)
  then have tl: "t < length (points s)" using sf by simp
  have down: "steps_bound c w < steps_bound c s"
    if "points w = (points s)[t := q]" "block_map w = block_map s" "steps_left R q < steps_left R (points s ! t)" for w q
    using sum_list_update_less [OF tl, of "steps_left R"] that by (simp add: steps_bound_def R_def)
  have run: "1 < C" if "points s ! t \<in> {Merge_runs L C, Copy_runs L C}" for L C
  proof -
    have tm: "points s ! t \<in> set (points s)" using tl by simp
    have "\<not> block_phase qs c xs s" using that block_phase_facts(1) [of qs c xs s, OF _ tm] by auto
    moreover have "\<not> part_done s" using that tm by (auto simp: part_done_def)
    ultimately obtain L' C' ys where rp: "round_phase qs c xs L' C' ys s" using assms(1) by (auto simp: sort_inv_def)
    obtain n where "C' = 2 ^ Suc n" using round_phase_facts(2) [OF rp] by blast
    moreover have "C = C'" using round_phase_facts(5) [OF rp tm] that by auto
    moreover have "(1::nat) < 2 ^ Suc n" by (rule one_less_power) simp_all
    ultimately show ?thesis by simp
  qed
  have rl: "rounds_left C = Suc (rounds_left ((C + 1) div 2))" if "1 < C" for C
    using that by (subst rounds_left.simps) simp
  show ?thesis
  proof (cases "points s ! t")
    case (Sort_block k)
    with assms(2) t have "u = sort_block qs c t k s" by (simp add: thread_func_def)
    then show ?thesis using Sort_block by (intro down [of _ "Mark_block k"]) (simp_all add: sort_block_def)
  next
    case (Mark_block k)
    with assms(2) t have u: "u = mark_block t k s" by (simp add: thread_func_def)
    have "cnt (\<lambda>m. m = 0) ((block_map s)[k := 2]) \<le> cnt (\<lambda>m. m = 0) (block_map s)"
      using cnt_update [of k "block_map s" "\<lambda>m. m = 0" 2] by (cases "k < length (block_map s)") (simp_all add: list_update_beyond)
    then show ?thesis
      using sum_list_update_less [OF tl, of "steps_left R" Claim] Mark_block
      by (simp add: steps_bound_def R_def u mark_block_def)
  next
    case Claim
    with assms(2) t have u: "u = claim_block c t s" by (simp add: thread_func_def)
    show ?thesis
    proof (cases "List.find (\<lambda>i. block_map s ! i = 0) [0..<blocks c]")
      case None
      then show ?thesis using Claim u
        by (intro down [of _ "Arrive (block_records c) (blocks c)"]) (simp_all add: claim_block_def R_def)
    next
      case (Some i)
      then have "i < length (block_map s)" "block_map s ! i = 0" using sf by (auto simp: find_Some_iff)
      then have "cnt (\<lambda>m. m = 0) ((block_map s)[i := 1]) + 1 = cnt (\<lambda>m. m = 0) (block_map s)"
        using cnt_update [of i "block_map s" "\<lambda>m. m = 0" 1] by simp
      then show ?thesis
        using sum_list_update_diff [OF tl, of "steps_left R" "Sort_block i"] Claim Some
        by (simp add: steps_bound_def R_def u claim_block_def)
    qed
  next
    case (Merge_runs L C)
    with assms(2) t have u: "u = merge_runs t L C s" by (simp add: thread_func_def)
    have C: "1 < C" using run Merge_runs by blast
    show ?thesis
    proof (cases "t < C div 2")
      case True
      then show ?thesis using Merge_runs u rl [OF C]
        by (intro down [of _ "Copy_runs L C"]) (simp_all add: merge_runs_def Let_def)
    next
      case False
      then show ?thesis using Merge_runs u rl [OF C]
        by (intro down [of _ "Arrive (2 * L) ((C + 1) div 2)"]) (simp_all add: merge_runs_def Let_def)
    qed
  next
    case (Copy_runs L C)
    with assms(2) t have u: "u = copy_runs t L C s" by (simp add: thread_func_def)
    have C: "1 < C" using run Copy_runs by blast
    show ?thesis using Copy_runs u rl [OF C]
      by (intro down [of _ "Arrive (2 * L) ((C + 1) div 2)"]) (simp_all add: copy_runs_def Let_def)
  next
    case (Arrive L C)
    with assms(2) t have u: "u = barrier_wait t L C s" by (simp add: thread_func_def)
    define w where "w = move t (Waiting L C) s"
    have "steps_bound c w < steps_bound c s"
      using Arrive by (intro down [of _ "Waiting L C"]) (simp_all add: w_def)
    moreover have "steps_bound c u \<le> steps_bound c w"
      using sum_list_resume [of R "points w"]
      by (auto simp: u barrier_wait_def w_def [symmetric] Let_def steps_bound_def R_def)
    ultimately show ?thesis by simp
  qed (use assms(2) t in \<open>auto simp: thread_func_def\<close>)
qed

lemma run_is_bounded:
  assumes "part_setup qs c xs junk" and "run (thread_func qs c) (start_part c xs junk) ts = Some s"
  shows "length ts + steps_bound c s \<le> steps_bound c (start_part c xs junk)"
  using assms(2)
proof (induction ts arbitrary: s rule: rev_induct)
  case (snoc t ts)
  then obtain r where r: "run (thread_func qs c) (start_part c xs junk) ts = Some r"
    "thread_func qs c r t = Some s" by (auto simp: run_append split: option.splits)
  have "sort_inv qs c xs r" by (rule sort_inv_reachable [OF assms(1) run_reachable [OF r(1)]])
  from thread_func_decreases [OF this r(2)] snoc.IH [OF r(1)] show ?case by simp
qed simp

end
