(* ===== verification/Index_Sort_Props.thy ===== *)
theory Index_Sort_Props
  imports Index_Sort_Correct
begin

text \<open>
  What the sorting of a part guarantees: the threads compute \<open>sort_part\<close> under every interleaving and
  always come to an end; the part is sorted when each round has a thread per pair of runs, and it is
  left unsorted when there are fewer threads than pairs, which \<open>main\<close> enforces.
\<close>

section \<open>All interleavings\<close>

text \<open>
  C4 Whatever the scheduler does, no two threads of a part ever have the same block in their hands,
  and when all threads have returned the buffer is the one the sequential \<open>sort_part\<close> computes.
\<close>

theorem part_threads_refine_sort_part:
  assumes "part_setup qs c xs junk" and "reachable (thread_func qs c) (start_part c xs junk) s"
  shows "(\<forall>t < threads c. \<forall>t' < threads c. \<forall>k. holds (points s ! t) k \<and> holds (points s ! t') k \<longrightarrow> t = t')
    \<and> (part_done s \<longrightarrow> buffer s = sort_part qs c xs)"
proof -
  have inv: "sort_inv qs c xs s" by (rule sort_inv_reachable [OF assms])
  then have sh: "shape c xs s" by (simp add: sort_inv_def)
  note lp = shape_fields(4) [OF sh]
  have T: "0 < threads c" using assms(1) by (simp add: part_setup_def good_context_def)
  have "t = t'" if t: "t < threads c" "t' < threads c" "holds (points s ! t) k" "holds (points s ! t') k" for t t' k
  proof (cases "block_phase qs c xs s")
    case True
    have mem: "points s ! t \<in> set (points s)" using t(1) lp by simp
    have "holds p j \<Longrightarrow> holds p k \<Longrightarrow> j = k" for p j by (cases p) auto
    then have k: "k < blocks c" using block_phase_facts(1) [OF True mem] t(3) by (cases "points s ! t") auto
    then have "cnt (\<lambda>p. holds p k) (points s) \<le> 1" using block_phase_facts(2) [OF True k] by simp
    then show ?thesis using cnt_le_one_unique t lp by metis
  next
    case False
    have mem: "points s ! t \<in> set (points s)" using t(1) lp by simp
    from False inv consider L C ys where "round_phase qs c xs L C ys s" | "part_done s" by (auto simp: sort_inv_def)
    then have "\<not> holds (points s ! t) k"
    proof cases
      case 1
      from round_phase_facts(5) [OF 1 mem] show ?thesis by auto
    next
      case 2
      then have "points s ! t = Returned" using mem by (simp add: part_done_def)
      then show ?thesis by simp
    qed
    then show ?thesis using t by simp
  qed
  moreover have "buffer s = sort_part qs c xs" if "part_done s"
  proof -
    have all: "p = Returned" if "p \<in> set (points s)" for p using \<open>part_done s\<close> that by (simp add: part_done_def)
    have mem: "points s ! 0 \<in> set (points s)" using T lp by simp
    have "\<not> block_phase qs c xs s" using block_phase_facts(1) [OF _ mem] all [OF mem] by auto
    moreover have "\<not> round_phase qs c xs L C ys s" for L C ys using round_phase_facts(5) [OF _ mem] all [OF mem] by auto
    ultimately show ?thesis using inv by (auto simp: sort_inv_def)
  qed
  ultimately show ?thesis by blast
qed

text \<open>A part of two records for one thread and two blocks, and the schedule that sorts it.\<close>

definition small_context :: sort_context where
  "small_context = \<lparr>records_per_part = 2, blocks = 2, threads = 1\<rparr>"

definition small_part :: "index_s list" where
  "small_part = [\<lparr>time_mark = 4607182418800017408, recno = 1\<rparr>, \<lparr>time_mark = 0, recno = 2\<rparr>]"

definition library_sort :: "index_s list \<Rightarrow> index_s list" where
  "library_sort = insertion_sort compare_index"

lemma small_setup: "part_setup library_sort small_context small_part small_part"
  unfolding part_setup_def library_sort_def good_context_def
  by (auto simp: small_context_def small_part_def qsort_contract_insertion_sort intro: exI [of _ 1])

lemma small_part_run:
  "map_option (\<lambda>s. (part_done s, buffer s))
     (run (thread_func library_sort small_context) (start_part small_context small_part small_part) (replicate 10 0))
     = Some (True, rev small_part)"
  by code_simp

lemma part_threads_refine_sort_part_witness:
  "\<exists>s. reachable (thread_func library_sort small_context) (start_part small_context small_part small_part) s
     \<and> part_done s \<and> sort_part library_sort small_context small_part = rev small_part"
proof -
  from small_part_run obtain s where s: "run (thread_func library_sort small_context)
      (start_part small_context small_part small_part) (replicate 10 0) = Some s"
    "part_done s" "buffer s = rev small_part" by auto
  note r = run_reachable [OF s(1)]
  from part_threads_refine_sort_part [OF small_setup r] s r show ?thesis by metis
qed

text \<open>
  C21 The threads of a part never deadlock and never run for ever: from every reachable state some
  schedule lets all of them return, and no schedule at all has more steps than \<open>steps_bound\<close> of the
  initial state.
\<close>

theorem part_threads_terminate:
  assumes "part_setup qs c xs junk" and "run (thread_func qs c) (start_part c xs junk) ts = Some s"
  shows "length ts \<le> steps_bound c (start_part c xs junk)
    \<and> (\<exists>us r. run (thread_func qs c) s us = Some r \<and> part_done r)"
proof -
  have "\<exists>us r. run (thread_func qs c) s us = Some r \<and> part_done r"
    if "reachable (thread_func qs c) (start_part c xs junk) s" for s
    using that
  proof (induction "steps_bound c s" arbitrary: s rule: less_induct)
    case less
    have inv: "sort_inv qs c xs s" by (rule sort_inv_reachable [OF assms(1) less.prems])
    show ?case
    proof (cases "part_done s")
      case True
      then show ?thesis by (intro exI [of _ "[]"] exI [of _ s]) simp
    next
      case False
      have "0 < threads c" using assms(1) by (simp add: part_setup_def good_context_def)
      from unfinished_moves [OF this inv False] obtain t u where tu: "thread_func qs c s t = Some u" by blast
      from less.hyps [OF thread_func_decreases [OF inv tu] reach_step [OF less.prems tu]]
      obtain us r where "run (thread_func qs c) u us = Some r" "part_done r" by blast
      then show ?thesis using tu by (intro exI [of _ "t # us"] exI [of _ r]) simp
    qed
  qed
  with run_is_bounded [OF assms] run_reachable [OF assms(2)] show ?thesis by fastforce
qed

lemma part_threads_terminate_witness:
  "\<exists>us r. run (thread_func library_sort small_context) (start_part small_context small_part small_part) us = Some r
     \<and> part_done r"
  using part_threads_terminate [OF small_setup, of "[]" "start_part small_context small_part small_part"] by simp

section \<open>The result of a part\<close>

lemma mset_concat_map:
  "(\<And>i. i < n \<Longrightarrow> mset (f i) = mset (g i)) \<Longrightarrow> mset (concat (map f [0..<n])) = mset (concat (map g [0..<n]))"
  by (induction n) auto

lemma mset_take_drop: "mset (take k xs) + mset (drop k xs) = mset xs"
  by (simp flip: mset_append)

lemma mset_sort_blocks:
  assumes "qsort_contract qs" and "B * b \<le> length xs"
  shows "mset (sort_blocks qs b B xs) = mset xs"
proof -
  have "mset (concat (map (\<lambda>i. qs (block b i xs)) [0..<B])) = mset (take (B * b) xs)"
    unfolding take_blocks [OF assms(2)] by (rule mset_concat_map) (rule qsort_facts(1) [OF assms(1)])
  then show ?thesis unfolding sort_blocks_def mset_append by (simp only: mset_take_drop)
qed

lemma mset_merge_round:
  assumes "C * L \<le> length xs"
  shows "mset (merge_round T L C xs) = mset xs"
proof -
  have "mset (concat (map (\<lambda>p. if p < T then merge_pair L p xs else block (2 * L) p xs) [0..<C div 2]))
      = mset (take (C div 2 * (2 * L)) xs)"
    unfolding take_blocks [OF pair_fits [OF assms]]
    by (rule mset_concat_map) (simp add: merge_pair_def merge_def block_double)
  then show ?thesis unfolding merge_round_def mset_append by (simp only: mset_take_drop)
qed

lemma length_merge_round: "C * L \<le> length xs \<Longrightarrow> length (merge_round T L C xs) = length xs"
  by (metis mset_merge_round size_mset)

lemma rounds_induct:
  assumes "C = 2 ^ n" and "C * L \<le> length xs"
    and "\<And>L xs. L \<le> length xs \<Longrightarrow> P L 1 xs xs"
    and "\<And>L C xs zs n. C = 2 ^ Suc n \<Longrightarrow> C * L \<le> length xs \<Longrightarrow> C div 2 * (2 * L) \<le> length xs \<Longrightarrow>
        P (2 * L) (C div 2) (merge_round T L C xs) zs \<Longrightarrow> P L C xs zs"
  shows "P L C xs (merge_rounds T L C xs)"
  using assms(1,2)
proof (induction n arbitrary: L C xs)
  case 0
  then show ?case using assms(3) [of L xs] by simp
next
  case (Suc n)
  have fit: "C div 2 * (2 * L) \<le> length xs" using Suc.prems by simp
  have h: "(C + 1) div 2 = C div 2" "C div 2 = 2 ^ n" using Suc.prems by simp_all
  have "(1::nat) < 2 ^ Suc n" by (rule one_less_power) simp_all
  then have "merge_rounds T L C xs = merge_rounds T (2 * L) (C div 2) (merge_round T L C xs)"
    using Suc.prems(1) h(1) by (subst merge_rounds.simps) simp
  moreover have "P (2 * L) (C div 2) (merge_round T L C xs) (merge_rounds T (2 * L) (C div 2) (merge_round T L C xs))"
    using Suc.IH [OF h(2), of "2 * L"] fit length_merge_round [OF Suc.prems(2)] by simp
  ultimately show ?case using assms(4) [OF Suc.prems fit] by simp
qed

lemma mset_merge_rounds:
  assumes "C = 2 ^ n" and "C * L \<le> length xs"
  shows "mset (merge_rounds T L C xs) = mset xs"
  using assms by (rule rounds_induct [where P = "\<lambda>L C xs zs. mset zs = mset xs"]) (simp_all add: mset_merge_round)

lemma mset_sort_part:
  assumes "qsort_contract qs" and "good_context c" and "records_per_part c \<le> length xs"
  shows "mset (sort_part qs c xs) = mset xs"
proof -
  obtain n where n: "blocks c = 2 ^ n" using assms(2) by (auto simp: good_context_def)
  have fit: "blocks c * block_records c \<le> length xs" using blocks_fit [of c] assms(3) by simp
  have l: "length (sort_blocks qs (block_records c) (blocks c) xs) = length xs"
    by (metis mset_sort_blocks [OF assms(1) fit] size_mset)
  then show ?thesis
    unfolding sort_part_def
    by (simp add: mset_merge_rounds [OF n] fit mset_sort_blocks [OF assms(1) fit])
qed

lemma block_merge_round:
  assumes "p < C div 2" and "C * L \<le> length xs"
  shows "block (2 * L) p (merge_round T L C xs) = (if p < T then merge_pair L p xs else block (2 * L) p xs)"
proof -
  have "\<forall>i < C div 2. length (if i < T then merge_pair L i xs else block (2 * L) i xs) = 2 * L"
    using length_merge_pair [OF _ assms(2)] length_block [OF _ pair_fits [OF assms(2)]] by simp
  from block_concat [OF this assms(1)] show ?thesis by (simp add: merge_round_def)
qed

lemma set_block: "set (block L p xs) \<subseteq> set xs"
  by (metis block_def dual_order.trans set_drop_subset set_take_subset)

text \<open>With a thread for every pair the runs stay in order, twice as long each round.\<close>

lemma merge_rounds_ordered:
  assumes "C = 2 ^ n" and "C * L \<le> length xs" and "C \<le> 2 * T"
    and "\<forall>x \<in> set xs. has_time x" and "\<forall>p < C. ordered (block L p xs)"
  shows "ordered (take (C * L) (merge_rounds T L C xs))"
proof -
  have "C \<le> 2 * T \<and> (\<forall>x \<in> set xs. has_time x) \<and> (\<forall>p < C. ordered (block L p xs)) \<longrightarrow>
    ordered (take (C * L) (merge_rounds T L C xs))"
    using assms(1,2)
  proof (rule rounds_induct [where P = "\<lambda>L C xs zs. C \<le> 2 * T \<and> (\<forall>x \<in> set xs. has_time x)
      \<and> (\<forall>p < C. ordered (block L p xs)) \<longrightarrow> ordered (take (C * L) zs)"], goal_cases)
    case (1 L xs)
    then show ?case by (simp add: block_def)
  next
    case (2 L C xs zs n)
    show ?case
    proof
      assume h: "C \<le> 2 * T \<and> (\<forall>x \<in> set xs. has_time x) \<and> (\<forall>p < C. ordered (block L p xs))"
      have "ordered (block (2 * L) p (merge_round T L C xs))" if "p < C div 2" for p
      proof -
        have "C \<le> 2 * T" using h by blast
        then have "p < T" using that by linarith
        then have "block (2 * L) p (merge_round T L C xs) = merge_pair L p xs"
          using block_merge_round [OF that 2(2)] by simp
        moreover have "ordered (merge_pair L p xs)"
          unfolding merge_pair_def merge_def
          using h that set_block [of L _ xs] by (intro index.ordered_merge) auto
        ultimately show ?thesis by simp
      qed
      moreover have "set (merge_round T L C xs) = set xs"
        by (metis mset_merge_round [OF 2(2)] set_mset_mset)
      moreover have "C div 2 \<le> 2 * T" using h by linarith
      ultimately have "ordered (take (C div 2 * (2 * L)) zs)" using 2(4) h by simp
      moreover have "C div 2 * (2 * L) = C * L" using 2(1) by (simp add: mult.assoc mult.left_commute)
      ultimately show "ordered (take (C * L) zs)" by simp
    qed
  qed
  then show ?thesis using assms(3-5) by blast
qed

lemma block_sort_blocks:
  assumes "qsort_contract qs" and "B * b \<le> length xs" and "i < B"
  shows "block b i (sort_blocks qs b B xs) = qs (block b i xs)"
proof -
  have "\<forall>i < B. length (qs (block b i xs)) = b" using assms(2) by (simp add: qsort_facts(2) [OF assms(1)])
  from block_concat [OF this assms(3)] show ?thesis by (simp add: sort_blocks_def)
qed

text \<open>
  C34 With a thread for every pair of blocks (twice as many threads as \<open>main\<close> would ever start for the
  number of blocks) and blocks that divide the part evenly, the part is sorted: \<open>sort_part\<close> is an
  ordered permutation of a part without NaN marks. A permutation it is with any number of threads.
\<close>

theorem part_sorted_with_enough_threads:
  assumes "qsort_contract qs" and "good_context c" and "length xs = records_per_part c"
  shows "mset (sort_part qs c xs) = mset xs
    \<and> (blocks c \<le> 2 * threads c \<and> blocks c dvd records_per_part c \<and> (\<forall>x \<in> set xs. has_time x)
        \<longrightarrow> ordered (sort_part qs c xs))"
proof -
  define ys where "ys = sort_blocks qs (block_records c) (blocks c) xs"
  obtain n where n: "blocks c = 2 ^ n" using assms(2) by (auto simp: good_context_def)
  have fit: "blocks c * block_records c \<le> length xs" using blocks_fit [of c] assms(3) by simp
  have m: "mset ys = mset xs" unfolding ys_def by (rule mset_sort_blocks [OF assms(1) fit])
  then have l: "length ys = length xs" and st: "set ys = set xs" by (metis size_mset, metis set_mset_mset)
  have "ordered (sort_part qs c xs)"
    if T: "blocks c \<le> 2 * threads c" "blocks c dvd records_per_part c" "\<forall>x \<in> set xs. has_time x"
  proof -
    have "\<forall>p < blocks c. ordered (block (block_records c) p ys)"
      using block_sort_blocks [OF assms(1) fit] T(3) set_block [of "block_records c" _ xs]
      by (auto simp: ys_def intro!: qsort_facts(4) [OF assms(1)])
    then have "ordered (take (blocks c * block_records c) (merge_rounds (threads c) (block_records c) (blocks c) ys))"
      using T fit l st by (intro merge_rounds_ordered [OF n]) auto
    moreover have "blocks c * block_records c = length (sort_part qs c xs)"
      using T(2) assms(3) mset_sort_part [OF assms(1,2), of xs] by (simp add: block_records_def flip: size_mset)
    ultimately show ?thesis by (simp add: sort_part_def ys_def)
  qed
  then show ?thesis using mset_sort_part [OF assms(1,2), of xs] assms(3) by simp
qed

lemma part_sorted_with_enough_threads_witness: "ordered (sort_part library_sort small_context small_part)"
proof -
  have "qsort_contract library_sort" "good_context small_context" "length small_part = records_per_part small_context"
    using small_setup by (simp_all add: part_setup_def)
  from part_sorted_with_enough_threads [OF this] show ?thesis
    by (simp add: small_context_def small_part_def is_nan_def)
qed

text \<open>
  A pair without a thread: what stands in its left block stays before what stands in its right
  block, through the first round and all later ones.
\<close>

lemma subseq_block_round:
  assumes "subseq zs (block L p xs)" and "p < 2 * (C div 2)" and "C * L \<le> length xs"
  shows "subseq zs (block (2 * L) (p div 2) (merge_round T L C xs))"
proof -
  have p: "p div 2 < C div 2" using assms(2) by simp
  have c: "p = 2 * (p div 2) \<or> p = 2 * (p div 2) + 1" by presburger
  then have "subseq zs (block L (2 * (p div 2)) xs) \<or> subseq zs (block L (2 * (p div 2) + 1) xs)"
    using assms(1) by auto
  then have "subseq zs (merge_pair L (p div 2) xs)" "subseq zs (block (2 * L) (p div 2) xs)"
    unfolding block_double merge_pair_def merge_def
    using subseq_merge_by [of "block L (2 * (p div 2)) xs" compare_index "block L (2 * (p div 2) + 1) xs"]
    by (auto intro: subseq_order.order_trans simp: list_emb_append2 list_emb_prefix)
  then show ?thesis using block_merge_round [OF p assms(3)] by simp
qed

lemma subseq_merge_rounds:
  assumes "C = 2 ^ n" and "C * L \<le> length xs" and "subseq zs (block L p xs)" and "p < C"
  shows "subseq zs (merge_rounds T L C xs)"
proof -
  have "(\<exists>p < C. subseq zs (block L p xs)) \<longrightarrow> subseq zs (merge_rounds T L C xs)"
    using assms(1,2)
  proof (rule rounds_induct [where P = "\<lambda>L C xs ys. (\<exists>p < C. subseq zs (block L p xs)) \<longrightarrow> subseq zs ys"], goal_cases)
    case (1 L xs)
    have "subseq (take L xs) xs" by (metis append_take_drop_id list_emb_prefix subseq_order.order_refl)
    then show ?case by (auto simp: block_def intro: subseq_order.order_trans)
  next
    case (2 L C xs ys n)
    have even: "2 * (C div 2) = C" using 2(1) by simp
    show ?case
    proof
      assume "\<exists>p < C. subseq zs (block L p xs)"
      then obtain p where p: "p < C" "subseq zs (block L p xs)" by blast
      have "p div 2 < C div 2" using p(1) even by linarith
      with subseq_block_round [OF p(2) _ 2(2)] p(1) even 2(4) show "subseq zs ys" by auto
    qed
  qed
  then show ?thesis using assms by blast
qed

lemma unmerged_pair_keeps_order:
  assumes "qsort_contract qs" and "good_context c" and "records_per_part c \<le> length xs"
    and p: "threads c \<le> p" "p < blocks c div 2"
    and x: "x \<in> set (block (block_records c) (2 * p) xs)" and y: "y \<in> set (block (block_records c) (2 * p + 1) xs)"
  shows "subseq [x, y] (sort_part qs c xs)"
proof -
  define b B where "b = block_records c" and "B = blocks c"
  define ys where "ys = sort_blocks qs b B xs"
  obtain n where n: "B = 2 ^ n" using assms(2) by (auto simp: good_context_def B_def)
  have fit: "B * b \<le> length xs" using blocks_fit [of c] assms(3) by (simp add: b_def B_def)
  have l: "length ys = length xs" unfolding ys_def by (metis mset_sort_blocks [OF assms(1) fit] size_mset)
  obtain m where m: "n = Suc m" using p(2) n by (cases n) (auto simp: B_def)
  have B: "B = 2 ^ Suc m" using n m by simp
  have half: "(B + 1) div 2 = 2 ^ m" "B div 2 = 2 ^ m" unfolding B by simp_all
  have pB: "2 * p < B" "2 * p + 1 < B" using p(2) by (simp_all add: B_def)
  have "x \<in> set (block b (2 * p) ys)" "y \<in> set (block b (2 * p + 1) ys)"
    using x y block_sort_blocks [OF assms(1) fit pB(1)] block_sort_blocks [OF assms(1) fit pB(2)]
    by (simp_all add: ys_def b_def qsort_facts(3) [OF assms(1)])
  then have "subseq [x] (block b (2 * p) ys)" "subseq [y] (block b (2 * p + 1) ys)"
    by (simp_all add: subseq_singleton_left)
  then have "subseq ([x] @ [y]) (block (2 * b) p ys)"
    unfolding block_double by (rule list_emb_append_mono)
  moreover have "block (2 * b) p (merge_round (threads c) b B ys) = block (2 * b) p ys"
    using block_merge_round [of p B b ys "threads c"] p fit l by (simp add: B_def)
  ultimately have "subseq [x, y] (block (2 * b) p (merge_round (threads c) b B ys))" by simp
  moreover have "2 ^ m * (2 * b) \<le> length (merge_round (threads c) b B ys)"
    using fit l length_merge_round [of B b ys] B by simp
  ultimately have "subseq [x, y] (merge_rounds (threads c) (2 * b) (2 ^ m) (merge_round (threads c) b B ys))"
    using p(2) half by (intro subseq_merge_rounds [OF refl]) (simp_all add: B_def)
  moreover have "1 < B" unfolding B by (rule one_less_power) simp_all
  ultimately show ?thesis
    unfolding sort_part_def B_def [symmetric] b_def [symmetric] ys_def [symmetric]
    by (subst merge_rounds.simps) (simp only: half if_True)
qed

text \<open>
  With the number of threads \<open>main\<close> insists on (at most a quarter of the number of blocks) the
  sorting of a part does not sort: for every accepted setting with at least one record per block
  there is a part, without NaN marks, that comes out of \<open>thread_func\<close> unordered, because the pairs
  numbered from \<open>threads\<close> on are never merged.
\<close>

lemma part_left_unsorted:
  assumes "qsort_contract qs" and "good_context c" and "4 * threads c \<le> blocks c" and "blocks c \<le> records_per_part c"
  shows "\<exists>xs. length xs = records_per_part c \<and> (\<forall>x \<in> set xs. has_time x) \<and> \<not> ordered (sort_part qs c xs)"
proof -
  define b where "b = block_records c"
  define T where "T = threads c"
  have T: "0 < T" "T < blocks c div 2" "2 * T + 1 < blocks c" using assms(2,3) by (auto simp: good_context_def T_def)
  have b: "0 < b" using assms(4) T(3) by (simp add: b_def block_records_def div_greater_zero_iff)
  have fit: "blocks c * b \<le> records_per_part c" using blocks_fit by (simp add: b_def)
  define late early :: index_s where "late = \<lparr>time_mark = 1, recno = 1\<rparr>" and "early = \<lparr>time_mark = 0, recno = 2\<rparr>"
  define xs where "xs = map (\<lambda>i. if i < (2 * T + 1) * b then late else early) [0..<records_per_part c]"
  have l: "length xs = records_per_part c" by (simp add: xs_def)
  have ok: "has_time late" "has_time early" by (simp_all add: late_def early_def is_nan_def)
  have r: "2 * T * b + b \<le> records_per_part c" "(2 * T + 1) * b + b \<le> records_per_part c"
    using block_in_range [of "2 * T" "blocks c" b] block_in_range [OF T(3), of b] T fit by linarith+
  have "block b (2 * T) xs ! 0 = late" "block b (2 * T + 1) xs ! 0 = early"
    using r b l by (simp_all add: nth_block xs_def)
  moreover have "0 < length (block b (2 * T) xs)" "0 < length (block b (2 * T + 1) xs)"
    using r b l by (simp_all add: block_def)
  ultimately have "late \<in> set (block b (2 * T) xs)" "early \<in> set (block b (2 * T + 1) xs)"
    by (metis nth_mem)+
  then have "subseq [late, early] (sort_part qs c xs)"
    using T l by (intro unmerged_pair_keeps_order [OF assms(1,2)]) (simp_all add: b_def T_def)
  then have "ordered (sort_part qs c xs) \<Longrightarrow> ordered [late, early]" by (rule ordered_by_subseq)
  moreover have "\<not> ordered [late, early]"
    by (simp add: late_def early_def compare_index_def double_less_def double_key_def is_nan_def)
  moreover have "\<forall>x \<in> set xs. has_time x" using ok by (auto simp: xs_def)
  ultimately show ?thesis using l by blast
qed

end
