(* ===== verification/Index_Merge.thy ===== *)
theory Index_Merge
  imports Index_Record Blocks
begin

text \<open>
  The bytes of an index file and \<open>merge_parts\<close> of sort_index.c: the header, the state of each part
  (\<open>struct merge_state\<close>), the choice of the smallest current record, and the loop that writes
  \<open>tmp.sorted\<close>.
\<close>

section \<open>Bytes\<close>

definition le_bytes :: "64 word \<Rightarrow> 8 word list" where
  "le_bytes w = map (\<lambda>i. ucast (drop_bit (8 * i) w)) [0..<8]"

definition of_le_bytes :: "8 word list \<Rightarrow> 64 word" where
  "of_le_bytes bs = foldr (\<lambda>b w. or (ucast b) (push_bit 8 w)) bs 0"

lemma length_le_bytes [simp]: "length (le_bytes w) = 8"
  by (simp add: le_bytes_def)

lemma bit_of_le_bytes:
  "n < 64 \<Longrightarrow> bit (of_le_bytes bs) n \<longleftrightarrow> n div 8 < length bs \<and> bit (bs ! (n div 8)) (n mod 8)"
proof (induction bs arbitrary: n)
  case Nil
  then show ?case by (simp add: of_le_bytes_def)
next
  case (Cons b bs)
  have "bit (of_le_bytes (b # bs)) n \<longleftrightarrow> n < 8 \<and> bit b n \<or> 8 \<le> n \<and> bit (of_le_bytes bs) (n - 8)"
    using Cons.prems by (auto simp: of_le_bytes_def bit_or_iff bit_push_bit_iff bit_ucast_iff dest: bit_imp_le_length)
  also have "\<dots> \<longleftrightarrow> n div 8 < length (b # bs) \<and> bit ((b # bs) ! (n div 8)) (n mod 8)"
    using Cons.IH [of "n - 8"] Cons.prems by (cases "n < 8") (auto simp: le_div_geq le_mod_geq)
  finally show ?case .
qed

lemma of_le_bytes_le_bytes [simp]: "of_le_bytes (le_bytes w) = w"
proof (rule bit_word_eqI)
  fix n assume "n < LENGTH(64)"
  then have n: "n < 64" by simp
  then have "n div 8 < 8" by simp
  then show "bit (of_le_bytes (le_bytes w)) n = bit w n"
    using n by (simp add: bit_of_le_bytes) (simp add: le_bytes_def bit_ucast_iff bit_drop_bit_eq)
qed

definition rec_bytes :: "index_s \<Rightarrow> 8 word list" where
  "rec_bytes r = le_bytes (time_mark r) @ le_bytes (recno r)"

definition bytes_rec :: "8 word list \<Rightarrow> index_s" where
  "bytes_rec bs = \<lparr>time_mark = of_le_bytes (take 8 bs), recno = of_le_bytes (take 8 (drop 8 bs))\<rparr>"

lemma length_rec_bytes [simp]: "length (rec_bytes r) = 16"
  by (simp add: rec_bytes_def)

lemma bytes_rec_rec_bytes [simp]: "bytes_rec (rec_bytes r) = r"
  by (simp add: bytes_rec_def rec_bytes_def)

definition recs_bytes :: "index_s list \<Rightarrow> 8 word list" where
  "recs_bytes rs = concat (map rec_bytes rs)"

lemma length_recs_bytes [simp]: "length (recs_bytes rs) = length rs * 16"
  by (induction rs) (simp_all add: recs_bytes_def)

lemma recs_bytes_append: "recs_bytes (xs @ ys) = recs_bytes xs @ recs_bytes ys"
  by (simp add: recs_bytes_def)

definition file_bytes :: "64 word \<Rightarrow> index_s list \<Rightarrow> 8 word list" where
  "file_bytes n rs = le_bytes n @ recs_bytes rs"

text \<open>\<open>read(fd, &rec, 16)\<close> at a position: what a short read does not reach stays as it was.\<close>

definition read_rec :: "8 word list \<Rightarrow> nat \<Rightarrow> index_s \<Rightarrow> index_s" where
  "read_rec file k old =
     (let got = take 16 (drop k file) in bytes_rec (got @ drop (length got) (rec_bytes old)))"

lemma take_drop_recs:
  assumes "k < length rs"
  shows "take 16 (drop (k * 16) (recs_bytes rs)) = rec_bytes (rs ! k)"
proof -
  have "recs_bytes rs = recs_bytes (take k rs) @ rec_bytes (rs ! k) @ recs_bytes (drop (Suc k) rs)"
    using id_take_nth_drop [OF assms] by (simp add: recs_bytes_def flip: concat.simps map_append)
      (metis concat.simps(2) concat_append list.simps(9) map_append)
  moreover have "length (recs_bytes (take k rs)) = k * 16" using assms by simp
  ultimately show ?thesis by simp
qed

lemma read_rec_file:
  "k < length rs \<Longrightarrow> read_rec (file_bytes n rs) (8 + 16 * k) old = rs ! k"
  using take_drop_recs [of k rs] by (simp add: read_rec_def file_bytes_def Let_def mult.commute)

section \<open>The states of the parts\<close>

record merge_state =
  current :: index_s
  pos :: nat
  end_pos :: nat
  active :: bool

text \<open>\<open>junk\<close> is what \<open>malloc\<close> left in the state.\<close>

definition open_part :: "8 word list \<Rightarrow> nat \<Rightarrow> index_s \<Rightarrow> nat \<Rightarrow> merge_state" where
  "open_part file records_per_part junk i =
     (let start = 8 + i * records_per_part * 16 in
      \<lparr>current = read_rec file start junk, pos = start + 16, end_pos = start + records_per_part * 16, active = True\<rparr>)"

definition advance :: "8 word list \<Rightarrow> merge_state \<Rightarrow> merge_state" where
  "advance file s =
     (if pos s < end_pos s then s\<lparr>current := read_rec file (pos s) (current s), pos := pos s + 16\<rparr>
      else s\<lparr>active := False\<rparr>)"

text \<open>One round of the search for \<open>min_idx\<close>, and the search over the first states.\<close>

definition better :: "merge_state list \<Rightarrow> nat option \<Rightarrow> nat \<Rightarrow> nat option" where
  "better states min_idx i =
     (if active (states ! i) then
        (case min_idx of None \<Rightarrow> Some i
         | Some j \<Rightarrow> if compare_index (current (states ! i)) (current (states ! j)) < 0 then Some i else min_idx)
      else min_idx)"

definition min_index :: "merge_state list \<Rightarrow> nat \<Rightarrow> nat option" where
  "min_index states n = foldl (better states) None [0..<n]"

lemma min_index_0 [simp]: "min_index states 0 = None"
  and min_index_Suc: "min_index states (Suc n) = better states (min_index states n) n"
  by (simp_all add: min_index_def)

lemma min_index_active: "min_index states n = Some i \<Longrightarrow> i < n \<and> active (states ! i)"
proof (induction n arbitrary: i)
  case (Suc n)
  then show ?case
    by (auto simp: min_index_Suc better_def less_Suc_eq split: if_splits option.splits)
qed simp

lemma min_index_None: "min_index states n = None \<longleftrightarrow> (\<forall>i < n. \<not> active (states ! i))"
proof (induction n)
  case (Suc n)
  then show ?case by (auto simp: min_index_Suc better_def less_Suc_eq split: if_splits option.splits)
qed simp

definition ahead :: "merge_state \<Rightarrow> nat" where
  "ahead s = (if active s then Suc (end_pos s - pos s) else 0)"

lemma advance_ahead: "active s \<Longrightarrow> ahead (advance file s) < ahead s"
  by (auto simp: ahead_def advance_def)

lemma sum_list_update_smaller:
  "t < length ps \<Longrightarrow> (f y :: nat) < f (ps ! t) \<Longrightarrow> sum_list (map f (ps[t := y])) < sum_list (map f ps)"
proof (induction ps arbitrary: t)
  case (Cons p ps)
  then show ?case by (cases t) auto
qed simp

text \<open>The records written, in order.\<close>

function merge_loop :: "8 word list \<Rightarrow> merge_state list \<Rightarrow> index_s list" where
  "merge_loop file states =
     (case min_index states (length states) of
        None \<Rightarrow> []
      | Some i \<Rightarrow> current (states ! i) # merge_loop file (states[i := advance file (states ! i)]))"
  by pat_completeness auto
termination
proof (relation "measure (\<lambda>(file, states). sum_list (map ahead states))", goal_cases)
  case (2 bytes states i)
  then have "i < length states" "active (states ! i)" using min_index_active by blast+
  then show ?case using advance_ahead by (simp add: sum_list_update_smaller)
qed simp

declare merge_loop.simps [simp del]

definition merge_parts :: "8 word list \<Rightarrow> int \<Rightarrow> nat \<Rightarrow> (nat \<Rightarrow> index_s) \<Rightarrow> 8 word list" where
  "merge_parts file num_parts records_per_part junk =
     le_bytes (word_of_int num_parts * word_of_nat records_per_part)
       @ recs_bytes (merge_loop file
           (map (\<lambda>i. open_part file records_per_part (junk i) i) [0..<nat num_parts]))"

section \<open>What the loop writes\<close>

text \<open>The records a state still has to deliver.\<close>

definition part_at :: "index_s list \<Rightarrow> merge_state \<Rightarrow> index_s list \<Rightarrow> bool" where
  "part_at rs s xs \<longleftrightarrow>
     (if active s then
        (\<exists>k e. pos s = 8 + 16 * Suc k \<and> end_pos s = 8 + 16 * e \<and> k < e \<and> e \<le> length rs
          \<and> current s = rs ! k \<and> xs = drop k (take e rs))
      else xs = [])"

lemma part_at_active: "part_at rs s xs \<Longrightarrow> active s \<longleftrightarrow> xs \<noteq> []"
  by (cases "active s") (auto simp: part_at_def)

lemma part_at_current:
  assumes "part_at rs s (x # xs)"
  shows "current s = x"
proof -
  from assms obtain k e where ke: "k < e" "e \<le> length rs" "current s = rs ! k" "x # xs = drop k (take e rs)"
    by (cases "active s") (auto simp: part_at_def)
  have "hd (drop k (take e rs)) = rs ! k" using ke(1,2) by (simp add: hd_drop_conv_nth)
  then show ?thesis using ke(3) by (simp add: ke(4) [symmetric])
qed

lemma part_at_advance:
  assumes "part_at rs s (x # xs)"
  shows "part_at rs (advance (file_bytes n rs) s) xs"
proof -
  from assms have a: "active s" by (simp add: part_at_active)
  then obtain k e where ke: "pos s = 8 + 16 * Suc k" "end_pos s = 8 + 16 * e" "k < e" "e \<le> length rs"
    "current s = rs ! k" "x # xs = drop k (take e rs)" using assms by (auto simp: part_at_def)
  have xs: "xs = drop (Suc k) (take e rs)" using ke(6) by (metis drop_Suc list.sel(3) tl_drop)
  show ?thesis
  proof (cases "Suc k < e")
    case True
    define w where "w = advance (file_bytes n rs) s"
    have "active w" "pos w = 8 + 16 * Suc (Suc k)" "end_pos w = 8 + 16 * e" "current w = rs ! Suc k"
      using True ke(1,2,4) a read_rec_file [of "Suc k" rs n] by (simp_all add: w_def advance_def)
    then show ?thesis using True ke(4) xs unfolding w_def [symmetric] part_at_def
      by (simp only: if_True) blast
  next
    case False
    then have "xs = []" using xs ke by simp
    then show ?thesis using False ke by (simp add: part_at_def advance_def)
  qed
qed

lemma better_least:
  assumes ok: "has_time (current (states ! i))" "has_time (current (states ! m))"
  shows "compare_index (current (states ! i)) (current (states ! m)) < 0 \<Longrightarrow>
      compare_index (current (states ! m)) z \<le> 0 \<Longrightarrow> has_time z \<Longrightarrow> compare_index (current (states ! i)) z \<le> 0"
    and "\<not> compare_index (current (states ! i)) (current (states ! m)) < 0 \<Longrightarrow>
      compare_index (current (states ! m)) (current (states ! i)) \<le> 0"
  using index.cmp_trans [OF ok, of z] index.cmp_swap [OF ok] by auto

lemma compare_self [simp]: "compare_index r r = 0"
  by (simp add: compare_index_def double_less_def)

lemma min_index_least:
  assumes "\<forall>i < n. active (states ! i) \<longrightarrow> has_time (current (states ! i))"
    and "min_index states n = Some i"
  shows "\<forall>j < n. active (states ! j) \<longrightarrow> compare_index (current (states ! i)) (current (states ! j)) \<le> 0"
  using assms
proof (induction n arbitrary: i)
  case (Suc n)
  have ok: "has_time (current (states ! j))" if "j < Suc n" "active (states ! j)" for j
    using Suc.prems(1) that by blast
  show ?case
  proof (cases "min_index states n")
    case None
    then have no: "\<not> active (states ! k)" if "k < n" for k using that by (simp add: min_index_None)
    have "i = n" using Suc.prems(2) None by (simp add: min_index_Suc better_def split: if_splits)
    then show ?thesis using no by (simp add: less_Suc_eq)
  next
    case (Some m)
    note m = min_index_active [OF Some]
    have IH: "compare_index (current (states ! m)) (current (states ! k)) \<le> 0" if "k < n" "active (states ! k)" for k
      using Suc.IH [OF _ Some] ok that by simp
    show ?thesis
    proof (cases "active (states ! n)")
      case False
      then have "i = m" using Suc.prems(2) Some by (simp add: min_index_Suc better_def)
      then show ?thesis using IH False by (simp add: less_Suc_eq)
    next
      case True
      note b = better_least [OF ok [OF lessI True] ok [OF less_SucI [OF conjunct1 [OF m]] conjunct2 [OF m]]]
      show ?thesis
      proof (cases "compare_index (current (states ! n)) (current (states ! m)) < 0")
        case less: True
        then have i: "i = n" using Suc.prems(2) Some True by (simp add: min_index_Suc better_def)
        show ?thesis using b(1) [OF less IH] ok by (simp add: i less_Suc_eq)
      next
        case False
        then have i: "i = m" using Suc.prems(2) Some True by (simp add: min_index_Suc better_def)
        show ?thesis using b(2) [OF False] IH by (auto simp: i less_Suc_eq)
      qed
    qed
  qed
qed simp

lemma merge_loop_correct:
  "list_all2 (part_at rs) states xss \<Longrightarrow>
     mset (merge_loop (file_bytes n rs) states) = mset (concat xss)
     \<and> ((\<forall>xs \<in> set xss. ordered xs) \<and> (\<forall>x \<in> set (concat xss). has_time x)
        \<longrightarrow> ordered (merge_loop (file_bytes n rs) states))"
proof (induction "sum_list (map ahead states)" arbitrary: states xss rule: less_induct)
  case less
  have len: "length states = length xss" using less.prems by (rule list_all2_lengthD)
  have at: "part_at rs (states ! i) (xss ! i)" if "i < length states" for i
    using less.prems that by (rule list_all2_nthD)
  show ?case
  proof (cases "min_index states (length states)")
    case None
    then have "xss ! i = []" if "i < length xss" for i
      using part_at_active [OF at [of i]] that len by (simp add: min_index_None)
    then have "concat xss = []" by (auto simp: in_set_conv_nth)
    moreover have "merge_loop (file_bytes n rs) states = []" using None by (subst merge_loop.simps) simp
    ultimately show ?thesis by simp
  next
    case (Some i)
    then have i: "i < length states" "active (states ! i)" using min_index_active by blast+
    then obtain x xs where xs: "xss ! i = x # xs" using part_at_active [OF at [OF i(1)]] by (cases "xss ! i") auto
    have x: "current (states ! i) = x" using part_at_current at [OF i(1)] xs by simp
    define states' where "states' = states[i := advance (file_bytes n rs) (states ! i)]"
    define xss' where "xss' = xss[i := xs]"
    have l2: "list_all2 (part_at rs) states' xss'"
      using less.prems part_at_advance [of rs "states ! i" x xs n] at [OF i(1)] xs
      by (simp add: states'_def xss'_def list_all2_update_cong)
    have "sum_list (map ahead states') < sum_list (map ahead states)"
      using i advance_ahead by (simp add: states'_def sum_list_update_smaller)
    note IH = less.hyps [OF this l2]
    have ml: "merge_loop (file_bytes n rs) states = x # merge_loop (file_bytes n rs) states'"
      using Some x by (subst merge_loop.simps) (simp add: states'_def)
    have split: "xss = take i xss @ (x # xs) # drop (Suc i) xss" "xss' = take i xss @ xs # drop (Suc i) xss"
      using id_take_nth_drop [of i xss] i(1) len xs by (simp_all add: xss'_def upd_conv_take_nth_drop)
    have m: "mset (concat xss) = add_mset x (mset (concat xss'))"
      by (subst split(1), subst split(2)) simp
    then have st: "set (concat xss) = insert x (set (concat xss'))" by (metis set_mset_add_mset_insert set_mset_mset)
    have "ordered (merge_loop (file_bytes n rs) states)"
      if o: "\<forall>ys \<in> set xss. ordered ys" and ok: "\<forall>y \<in> set (concat xss). has_time y"
    proof -
      have "\<forall>ys \<in> set xss'. ordered ys"
        using o xs i(1) len nth_mem [of i xss] by (auto simp: xss'_def dest!: set_update_subset_insert [THEN subsetD])
      moreover have "\<forall>y \<in> set (concat xss'). has_time y" using ok st by blast
      ultimately have rest: "ordered (merge_loop (file_bytes n rs) states')" using IH by blast
      have heads: "has_time (current (states ! j))" if jl: "j < length states" and ja: "active (states ! j)" for j
      proof -
        obtain y ys where y: "xss ! j = y # ys" using part_at_active [OF at [OF jl]] ja by (cases "xss ! j") auto
        then have "y \<in> set (concat xss)" using jl len nth_mem [of j xss] by force
        then have "has_time y" using ok by blast
        then show ?thesis using part_at_current [of rs "states ! j" y ys] at [OF jl] y by simp
      qed
      have "compare_index x z \<le> 0" if zin: "z \<in> set (concat xss)" for z
      proof -
        from zin obtain zs where "zs \<in> set xss" "z \<in> set zs" by auto
        then obtain j where j: "j < length xss" "z \<in> set (xss ! j)" by (metis in_set_conv_nth)
        then obtain y ys where y: "xss ! j = y # ys" by (cases "xss ! j") auto
        have pj: "part_at rs (states ! j) (y # ys)" using at [of j] j(1) len y by simp
        then have aj: "active (states ! j)" "current (states ! j) = y"
          using part_at_active [OF pj] part_at_current [OF pj] by simp_all
        have xy: "compare_index x y \<le> 0"
          using min_index_least [OF _ Some] heads j(1) len x aj by fastforce
        have "y = z \<or> compare_index y z \<le> 0"
          using o nth_mem [OF j(1)] y j(2) by auto
        then show ?thesis
        proof
          assume "compare_index y z \<le> 0"
          moreover have "x \<in> set (concat xss)" using st by blast
          then have "has_time x" using ok by blast
          moreover have "y \<in> set (concat xss)" using y nth_mem [OF j(1)] by force
          then have "has_time y" using ok by blast
          moreover have "has_time z" using ok zin by blast
          ultimately show ?thesis using xy index.cmp_trans [of x y z] by blast
        qed (use xy in simp)
      qed
      then show ?thesis
        unfolding ml using rest IH st by (metis insert_iff ordered_by_Cons set_mset_mset)
    qed
    then show ?thesis using IH m ml by simp
  qed
qed

end
