(* ===== verification/Text.thy ===== *)
theory Text
  imports Prelude
begin

text \<open>
  Decimal numbers as the programs print and read them: \<open>%d\<close> and \<open>%02d\<close> of \<open>printf\<close>, and the digits that
  \<open>atoi\<close> reads back.
\<close>

fun decimal :: "nat \<Rightarrow> string" where
  "decimal n = (if n < 10 then [char_of (48 + n)] else decimal (n div 10) @ [char_of (48 + n mod 10)])"

declare decimal.simps [simp del]

definition decimal2 :: "nat \<Rightarrow> string" where
  "decimal2 n = (if n < 10 then ''0'' @ decimal n else decimal n)"

definition decimal_int :: "int \<Rightarrow> string" where
  "decimal_int n = (if n < 0 then ''-'' @ decimal (nat (- n)) else decimal (nat n))"

definition is_digit :: "char \<Rightarrow> bool" where
  "is_digit c \<longleftrightarrow> 48 \<le> (of_char c :: nat) \<and> (of_char c :: nat) \<le> 57"

definition digits_value :: "string \<Rightarrow> nat" where
  "digits_value cs = foldl (\<lambda>n c. n * 10 + (of_char c - 48)) 0 cs"

lemma decimal_nonempty [simp]: "decimal n \<noteq> []"
  by (subst decimal.simps) simp

lemma decimal_digits: "\<forall>c \<in> set (decimal n). is_digit c"
proof (induction n rule: decimal.induct)
  case (1 n)
  then show ?case
    by (subst decimal.simps) (auto simp: is_digit_def)
qed

lemma digits_value_decimal [simp]: "digits_value (decimal n) = n"
proof (induction n rule: decimal.induct)
  case (1 n)
  then show ?case
    by (subst decimal.simps) (auto simp: digits_value_def)
qed

lemma decimal_inject [simp]: "decimal m = decimal n \<longleftrightarrow> m = n"
  by (metis digits_value_decimal)

lemma digits_value_decimal2 [simp]: "digits_value (decimal2 n) = n"
  using digits_value_decimal [of n] by (simp add: decimal2_def digits_value_def)

lemma length_decimal2: "n < 100 \<Longrightarrow> length (decimal2 n) = 2"
  by (auto simp: decimal2_def decimal.simps)

text \<open>
  \<open>atoi\<close> and \<open>atoll\<close>: white space, an optional sign and digits, up to the first other character. The
  value is the mathematical one; a caller converts it to the width of its variable.
\<close>

definition is_space :: "char \<Rightarrow> bool" where
  "is_space c \<longleftrightarrow> (of_char c :: nat) = 32 \<or> (9 \<le> (of_char c :: nat) \<and> (of_char c :: nat) \<le> 13)"

definition atoi :: "string \<Rightarrow> int" where
  "atoi s =
     (let t = dropWhile is_space s;
          signed = t \<noteq> [] \<and> (hd t = CHR ''-'' \<or> hd t = CHR ''+'');
          v = int (digits_value (takeWhile is_digit (if signed then tl t else t))) in
      if t \<noteq> [] \<and> hd t = CHR ''-'' then - v else v)"

lemma atoi_decimal [simp]: "atoi (decimal n) = int n"
proof -
  obtain c cs where d: "decimal n = c # cs" by (cases "decimal n") simp_all
  then have "is_digit c" using decimal_digits [of n] by simp
  then have c: "\<not> is_space c" "c \<noteq> CHR ''-''" "c \<noteq> CHR ''+''" by (auto simp: is_digit_def is_space_def)
  have "takeWhile is_digit (decimal n) = decimal n" using decimal_digits [of n] by (simp add: takeWhile_eq_all_conv)
  then show ?thesis using c digits_value_decimal [of n] by (simp add: atoi_def d)
qed

section \<open>C strings and lines\<close>

definition cstr :: "string \<Rightarrow> string" where
  "cstr s = takeWhile (\<lambda>c. (of_char c :: nat) \<noteq> 0) s"

definition line_break :: char where
  "line_break = CHR 0x0A"

text \<open>\<open>snprintf\<close> into a buffer of \<open>n\<close> bytes\<close>

definition snprintf :: "nat \<Rightarrow> string \<Rightarrow> string" where
  "snprintf n s = take (n - 1) s"

text \<open>
  \<open>fgets\<close> into a buffer of \<open>n\<close> bytes followed by \<open>line[strcspn(line, "\n")] = 0\<close>: the line and what is left
  of the input, or nothing at the end of the input.
\<close>

definition fgets_line :: "nat \<Rightarrow> string \<Rightarrow> (string \<times> string) option" where
  "fgets_line n s =
     (if s = [] then None
      else
        (let window = take (n - 1) s;
             k = length (takeWhile (\<lambda>c. c \<noteq> line_break) window)
         in Some (cstr (take k window), drop (length (take (k + 1) window)) s)))"

lemma fgets_line_shorter: "fgets_line n s = Some (l, r) \<Longrightarrow> 1 < n \<Longrightarrow> length r < length s"
  by (cases s) (auto simp: fgets_line_def Let_def split: if_splits)

function read_lines :: "nat \<Rightarrow> string \<Rightarrow> string list" where
  "read_lines n s =
     (if n \<le> 1 then [] else (case fgets_line n s of None \<Rightarrow> [] | Some (l, r) \<Rightarrow> l # read_lines n r))"
  by pat_completeness auto
termination
  by (relation "measure (\<lambda>(n, s). length s)") (auto intro: fgets_line_shorter)

declare read_lines.simps [simp del]

lemma snprintf_short [simp]: "length s < n \<Longrightarrow> snprintf n s = s"
  by (simp add: snprintf_def)

lemma length_snprintf: "0 < n \<Longrightarrow> length (snprintf n s) < n"
  by (simp add: snprintf_def)

section \<open>Directories\<close>

text \<open>
  What the operating system answers on a path: the entries of a directory in the order of \<open>readdir\<close>, when
  \<open>opendir\<close> succeeds, and the kind of file \<open>lstat\<close> finds.
\<close>

datatype kind = Directory | Regular | Link | Other

record directories =
  opendir :: "string \<Rightarrow> string list option"
  lstat :: "string \<Rightarrow> kind option"

end
