(* ===== verification/Index_Main.thy ===== *)
theory Index_Main
  imports Index_Sort_Props Index_Merge Text
begin

text \<open>
  The \<open>main\<close> of sort_index.c: the checks on its arguments at the width of their variables, the parts of
  the file that it maps, sorts and unmaps one after the other, and the merge of the parts. What the
  system may refuse (\<open>mmap\<close>, \<open>malloc\<close>, the temporary file) is an environment.
\<close>

section \<open>Arguments\<close>

datatype sort_exit = Usage | Bad_memsize | Bad_blocks | Few_blocks | Bad_threads
  | Open_failed | Short_header | Bad_record_size | Division_by_zero | Bad_records
  | Mmap_failed "8 word list" | Past_end "8 word list" | Freed_garbage "8 word list"
  | Tmp_failed "8 word list" | Rename_failed "8 word list" | Sorted "8 word list"

record sort_env =
  page_size :: nat
  mmap_ok :: "nat \<Rightarrow> bool"
  malloc_ok :: "nat \<Rightarrow> bool"
  tmp_ok :: bool
  rename_ok :: bool
  junk_rec :: "nat \<Rightarrow> index_s"

definition check_settings :: "nat \<Rightarrow> 64 word \<Rightarrow> 32 word \<Rightarrow> 32 word \<Rightarrow> sort_exit option" where
  "check_settings page memsize nblocks nthreads =
     (if unat memsize mod page \<noteq> 0 then Some Bad_memsize
      else if and nblocks (nblocks - 1) \<noteq> 0 then Some Bad_blocks
      else if sint nblocks < sint (4 * nthreads) then Some Few_blocks
      else if sint nthreads < 1 \<or> sint nthreads > 8192 then Some Bad_threads
      else None)"

section \<open>Parts\<close>

definition recs_of :: "nat \<Rightarrow> 8 word list \<Rightarrow> index_s list" where
  "recs_of n bs = map (\<lambda>i. bytes_rec (take 16 (drop (i * 16) bs))) [0..<n]"

text \<open>
  The file with one part sorted: the mapping starts at a page boundary and the records at \<open>skip_bytes\<close>
  into it. The threads of the part are summed up by \<open>sort_part\<close>, which is what every run of them
  computes.
\<close>

definition sort_mapped_part :: "(index_s list \<Rightarrow> index_s list) \<Rightarrow> sort_context \<Rightarrow> nat \<Rightarrow> nat \<Rightarrow> 8 word list \<Rightarrow> nat \<Rightarrow> 8 word list" where
  "sort_mapped_part qs c page memsize file part =
     (let data_offset = 8 + part * memsize;
          aligned_offset = data_offset div page * page;
          skip_bytes = data_offset - aligned_offset;
          map_size = memsize + skip_bytes;
          mmap_buf = take map_size (drop aligned_offset file);
          buffer = recs_of (records_per_part c) (drop skip_bytes mmap_buf)
      in splice aligned_offset (splice skip_bytes (recs_bytes (sort_part qs c buffer)) mmap_buf) file)"

text \<open>
  Reading a mapping past the end of the file is a bus error, or zeros up to the end of the page: the
  model stops there. Without memory for \<open>tmp_buf\<close> the code frees pointers that it never set.
\<close>

fun sort_parts :: "(index_s list \<Rightarrow> index_s list) \<Rightarrow> sort_env \<Rightarrow> sort_context \<Rightarrow> nat \<Rightarrow> 8 word list \<Rightarrow> nat list \<Rightarrow> sort_exit + 8 word list" where
  "sort_parts qs env c memsize file [] = Inr file"
| "sort_parts qs env c memsize file (part # parts) =
     (if \<not> mmap_ok env part then Inl (Mmap_failed file)
      else if length file < 8 + part * memsize + memsize then Inl (Past_end file)
      else if \<not> malloc_ok env part then Inl (Freed_garbage file)
      else sort_parts qs env c memsize (sort_mapped_part qs c (page_size env) memsize file part) parts)"

definition sort_file :: "(index_s list \<Rightarrow> index_s list) \<Rightarrow> sort_env \<Rightarrow> 64 word \<Rightarrow> 32 word \<Rightarrow> 32 word \<Rightarrow> 8 word list \<Rightarrow> sort_exit" where
  "sort_file qs env memsize nblocks nthreads file =
     (if length file < 8 then Short_header
      else
        (let records = of_le_bytes (take 8 file); rpp = unat memsize div 16 in
         if unat memsize mod 16 \<noteq> 0 then Bad_record_size
         else if rpp = 0 then Division_by_zero
         else if unat records mod rpp \<noteq> 0 then Bad_records
         else
           (let num_parts = sint (word_of_nat (unat records div rpp) :: 32 word);
                c = \<lparr>records_per_part = rpp, blocks = nat (sint nblocks), threads = nat (sint nthreads)\<rparr>
            in case sort_parts qs env c (unat memsize) file [0..<nat num_parts] of
                 Inl e \<Rightarrow> e
               | Inr file' \<Rightarrow>
                   (if \<not> tmp_ok env then Tmp_failed file'
                    else if \<not> rename_ok env then Rename_failed file'
                    else Sorted (merge_parts file' num_parts rpp (junk_rec env))))))"

text \<open>The arguments after the name of the program, and the file if it can be opened.\<close>

definition sort_main :: "(index_s list \<Rightarrow> index_s list) \<Rightarrow> sort_env \<Rightarrow> string list \<Rightarrow> 8 word list option \<Rightarrow> sort_exit" where
  "sort_main qs env args disk =
     (if length args \<noteq> 4 then Usage
      else
        (let memsize = word_of_int (atoi (args ! 0)); nblocks = word_of_int (atoi (args ! 1));
             nthreads = word_of_int (atoi (args ! 2))
         in case check_settings (page_size env) memsize nblocks nthreads of
              Some e \<Rightarrow> e
            | None \<Rightarrow> (case disk of None \<Rightarrow> Open_failed | Some file \<Rightarrow> sort_file qs env memsize nblocks nthreads file)))"

section \<open>The checks\<close>

lemma power_of_two_nat: "and n (n - 1) = (0::nat) \<Longrightarrow> 0 < n \<Longrightarrow> \<exists>k. n = 2 ^ k"
proof (induction n rule: less_induct)
  case (less n)
  show ?case
  proof (cases "even n")
    case True
    then obtain m where m: "n = 2 * m" by blast
    obtain l where l: "m = Suc l" using less.prems(2) m by (cases m) auto
    have "and (2 * m) (2 * m - 1) = 2 * and m (m - 1)"
      by (subst and_nat_rec) (simp add: l)
    then have "and m (m - 1) = 0" using less.prems(1) m by simp
    from less.IH [OF _ this] less.prems(2) m obtain k where "m = 2 ^ k" by auto
    then show ?thesis using m by (intro exI [of _ "Suc k"]) simp
  next
    case False
    then obtain m where m: "n = Suc (2 * m)" by (auto elim: oddE)
    have "and (Suc (2 * m)) (2 * m) = 2 * m" by (subst and_nat_rec) simp
    then have "m = 0" using less.prems(1) m by simp
    then show ?thesis using m by (intro exI [of _ 0]) simp
  qed
qed

lemma sint_positive:
  fixes w :: "32 word"
  assumes "0 < sint w"
  shows "sint w = int (unat w)"
proof -
  have l: "uint w < 4294967296" using uint_lt2p [of w] by simp
  moreover have "take_bit 32 (uint w) = uint w" using l by (intro take_bit_int_eq_self) simp_all
  then have "sint w = uint w - 4294967296 * of_bool (bit (uint w) 31)"
    by (simp add: sint_uint signed_take_bit_eq_take_bit_minus)
  ultimately show ?thesis using assms by (cases "bit (uint w) 31") simp_all
qed

lemma settings_facts:
  assumes "check_settings page memsize nblocks nthreads = None"
  shows "1 \<le> sint nthreads \<and> sint nthreads \<le> 8192 \<and> 4 * sint nthreads \<le> sint nblocks
    \<and> (\<exists>k. sint nblocks = 2 ^ k) \<and> unat memsize mod page = 0"
proof -
  have t: "1 \<le> sint nthreads" "sint nthreads \<le> 8192" and b: "sint (4 * nthreads) \<le> sint nblocks"
    and p: "and nblocks (nblocks - 1) = 0" and m: "unat memsize mod page = 0"
    using assms by (auto simp: check_settings_def split: if_splits)
  have "sint (4 * nthreads) = 4 * sint nthreads"
    using t by (simp add: sint_word_ariths signed_take_bit_int_eq_self)
  then have 4: "4 * sint nthreads \<le> sint nblocks" using b by simp
  then have pos: "0 < sint nblocks" using t by simp
  then have u: "sint nblocks = int (unat nblocks)" by (rule sint_positive)
  then have "0 < unat nblocks" using pos by linarith
  moreover from this have "1 \<le> nblocks" by (simp add: word_le_nat_alt)
  then have "unat (nblocks - 1) = unat nblocks - 1" by (simp add: unat_sub)
  then have "and (unat nblocks) (unat nblocks - 1) = 0" using p by (metis unat_0 unsigned_and_eq)
  ultimately obtain k where "unat nblocks = 2 ^ k" using power_of_two_nat by blast
  then have "sint nblocks = 2 ^ k" using u by simp
  then show ?thesis using t 4 m by blast
qed

text \<open>
  What \<open>main\<close> accepts: between 1 and 8192 threads and a power of two of blocks, at least four for
  each thread, the multiplication by four not having wrapped around.
\<close>

theorem accepted_settings:
  assumes "check_settings page memsize nblocks nthreads = None"
  shows "1 \<le> sint nthreads \<and> sint nthreads \<le> 8192 \<and> 4 * sint nthreads \<le> sint nblocks
    \<and> (\<exists>k. sint nblocks = 2 ^ k) \<and> unat memsize mod page = 0"
  using assms by (rule settings_facts)

lemma accepted_settings_witness: "sint (4 :: 32 word) = 2 ^ 2 \<and> check_settings 4096 4096 4 1 = None"
proof -
  have c: "check_settings 4096 4096 4 1 = None" by code_simp
  from accepted_settings [OF c] c show ?thesis by simp
qed

section \<open>The file as records\<close>

text \<open>Finding of the layout: the records of a part lie inside its mapping, wherever the pages begin.\<close>

lemma splice_splice:
  assumes "a + k + length new \<le> length xs" and "k + length new \<le> m"
  shows "splice a (splice k new (take m (drop a xs))) xs = splice (a + k) new xs"
proof -
  define ys where "ys = drop a xs"
  have front: "take a xs @ take k (take m ys) = take (a + k) xs"
    using assms(2) by (simp add: ys_def take_add min_absorb1)
  have "drop (k + length new) (take m ys) @ drop (length (take m ys)) ys = drop (k + length new) ys"
  proof -
    have "ys = take m ys @ drop (length (take m ys)) ys" by (cases "m \<le> length ys") simp_all
    moreover have "k + length new \<le> length (take m ys)" using assms by (simp add: ys_def)
    ultimately show ?thesis by (metis append_Nil diff_is_0_eq drop_0 drop_append)
  qed
  moreover have "length (splice k new (take m ys)) = length (take m ys)"
    using assms by (simp add: ys_def)
  ultimately show ?thesis
    using front unfolding ys_def [symmetric] splice_def [of a] splice_def [of "a + k"]
    by (simp add: splice_def [of k] ys_def add.assoc add.commute add.left_commute)
qed

lemma sort_mapped_part_direct:
  assumes "8 + part * memsize + memsize \<le> length bytes" and "memsize = 16 * records_per_part c"
    and "\<And>xs. length xs = records_per_part c \<Longrightarrow> length (sort_part qs c xs) = length xs"
  shows "sort_mapped_part qs c page memsize bytes part
     = splice (8 + part * memsize)
         (recs_bytes (sort_part qs c (recs_of (records_per_part c) (drop (8 + part * memsize) bytes)))) bytes"
proof -
  define off where "off = 8 + part * memsize"
  define al where "al = off div page * page"
  have al: "al \<le> off" by (simp add: al_def)
  have same: "recs_of (records_per_part c) (drop (off - al) (take (memsize + (off - al)) (drop al bytes)))
      = recs_of (records_per_part c) (drop off bytes)"
    using al assms(2) by (auto simp: recs_of_def drop_take min_def add.commute intro!: arg_cong [where f = bytes_rec])
  define new where "new = recs_bytes (sort_part qs c (recs_of (records_per_part c) (drop off bytes)))"
  have ln: "length new = memsize" using assms(2,3) by (simp add: new_def recs_of_def)
  have "sort_mapped_part qs c page memsize bytes part
      = splice al (splice (off - al) new (take (memsize + (off - al)) (drop al bytes))) bytes"
    unfolding sort_mapped_part_def Let_def off_def [symmetric] al_def [symmetric] same new_def ..
  also have "\<dots> = splice off new bytes"
    using splice_splice [of al "off - al" new bytes "memsize + (off - al)"] ln al assms(1) by (simp add: off_def)
  finally show ?thesis by (simp add: off_def new_def)
qed

lemma recs_of_recs_bytes:
  "length rs = n \<Longrightarrow> recs_of n (recs_bytes rs @ rest) = rs"
  by (rule nth_equalityI) (simp_all add: recs_of_def take_drop_recs)

lemma recs_bytes_take_drop: "k \<le> length rs \<Longrightarrow> drop (16 * k) (recs_bytes rs) = recs_bytes (drop k rs)"
  using recs_bytes_append [of "take k rs" "drop k rs"] by (simp add: mult.commute)

lemma recs_bytes_take: "k \<le> length rs \<Longrightarrow> take (16 * k) (recs_bytes rs) = recs_bytes (take k rs)"
  using recs_bytes_append [of "take k rs" "drop k rs"] by (simp add: mult.commute)

lemma recs_of_file:
  assumes "k + n \<le> length rs"
  shows "recs_of n (drop (8 + 16 * k) (file_bytes w rs)) = take n (drop k rs)"
proof -
  have "drop (8 + 16 * k) (file_bytes w rs) = recs_bytes (take n (drop k rs)) @ recs_bytes (drop n (drop k rs))"
    unfolding recs_bytes_append [symmetric] append_take_drop_id
    using assms by (simp add: file_bytes_def recs_bytes_take_drop)
  then show ?thesis using assms by (simp add: recs_of_recs_bytes)
qed

lemma splice_file:
  assumes "k + length new \<le> length rs"
  shows "splice (8 + 16 * k) (recs_bytes new) (file_bytes w rs) = file_bytes w (splice k new rs)"
proof -
  have "drop (8 + 16 * k + length (recs_bytes new)) (file_bytes w rs) = recs_bytes (drop (k + length new) rs)"
    using recs_bytes_take_drop [of "k + length new" rs] assms by (simp add: file_bytes_def algebra_simps)
  moreover have "take (8 + 16 * k) (file_bytes w rs) = le_bytes w @ recs_bytes (take k rs)"
    using assms by (simp add: file_bytes_def recs_bytes_take)
  ultimately show ?thesis by (simp add: splice_def file_bytes_def recs_bytes_append)
qed

section \<open>Sorting and merging the parts\<close>

lemma mset_splice:
  assumes "k + length new \<le> length rs" and "mset new = mset (take (length new) (drop k rs))"
  shows "mset (splice k new rs) = mset rs"
proof -
  have "rs = take k rs @ take (length new) (drop k rs) @ drop (k + length new) rs"
    by (metis append_take_drop_id drop_drop add.commute)
  then have "mset rs = mset (take k rs) + mset new + mset (drop (k + length new) rs)"
    using assms(2) by (metis add.assoc mset_append)
  then show ?thesis by (simp add: splice_def)
qed

lemma sort_one_part:
  assumes qs: "qsort_contract qs" "good_context c" and m: "memsize = 16 * records_per_part c"
    and l: "length rs = n * records_per_part c" and p: "part < n"
  defines "new \<equiv> sort_part qs c (block (records_per_part c) part rs)"
  shows "8 + part * memsize + memsize \<le> length (file_bytes w rs)"
    and "sort_mapped_part qs c page memsize (file_bytes w rs) part
      = file_bytes w (splice (part * records_per_part c) new rs)"
    and "mset (splice (part * records_per_part c) new rs) = mset rs"
proof -
  let ?r = "records_per_part c"
  have fit: "part * ?r + ?r \<le> length rs" using block_in_range [OF p, of ?r] l by simp
  have lb: "length (block ?r part rs) = ?r" using p l by simp
  have sp: "mset (sort_part qs c xs) = mset xs" if "length xs = ?r" for xs
    using mset_sort_part [OF qs, of xs] that by simp
  have spl: "length (sort_part qs c xs) = length xs" if "length xs = ?r" for xs
    using sp [OF that] by (metis size_mset)
  have ln: "length new = ?r" using spl [OF lb] lb by (simp add: new_def)
  have off: "8 + part * memsize = 8 + 16 * (part * ?r)" using m by simp
  show size: "8 + part * memsize + memsize \<le> length (file_bytes w rs)"
    using fit m by (simp add: file_bytes_def)
  have recs: "recs_of ?r (drop (8 + part * memsize) (file_bytes w rs)) = block ?r part rs"
    unfolding off using fit recs_of_file [of "part * ?r" ?r rs w] by (simp add: block_def)
  have "sort_mapped_part qs c page memsize (file_bytes w rs) part
      = splice (8 + part * memsize) (recs_bytes new) (file_bytes w rs)"
    unfolding new_def recs [symmetric] using size m spl by (rule sort_mapped_part_direct)
  then show "sort_mapped_part qs c page memsize (file_bytes w rs) part
      = file_bytes w (splice (part * ?r) new rs)"
    unfolding off using splice_file [of "part * ?r" new rs w] fit ln by simp
  show "mset (splice (part * ?r) new rs) = mset rs"
    using mset_splice [of "part * ?r" new rs] fit ln sp [OF lb] by (simp add: new_def block_def)
qed

definition allows :: "sort_env \<Rightarrow> bool" where
  "allows env \<longleftrightarrow> (\<forall>p. mmap_ok env p \<and> malloc_ok env p) \<and> tmp_ok env \<and> rename_ok env"


lemma merge_parts_result:
  assumes "length rs = n * rpp" and "0 < rpp"
  shows "\<exists>out. merge_parts (file_bytes w rs) (int n) rpp junk = file_bytes (word_of_nat (length rs)) out
    \<and> mset out = mset rs
    \<and> ((\<forall>p < n. ordered (block rpp p rs)) \<and> (\<forall>r \<in> set rs. has_time r) \<longrightarrow> ordered out)"
proof -
  define states where "states = map (\<lambda>i. open_part (file_bytes w rs) rpp (junk i) i) [0..<n]"
  define xss where "xss = map (\<lambda>i. block rpp i rs) [0..<n]"
  have "part_at rs (open_part (file_bytes w rs) rpp (junk i) i) (block rpp i rs)" if "i < n" for i
  proof -
    have fit: "i * rpp + rpp \<le> length rs" using block_in_range [OF that, of rpp] assms(1) by simp
    define s where "s = open_part (file_bytes w rs) rpp (junk i) i"
    have "read_rec (file_bytes w rs) (8 + 16 * (i * rpp)) (junk i) = rs ! (i * rpp)"
      using fit assms(2) by (intro read_rec_file) linarith
    then have s: "active s" "current s = rs ! (i * rpp)" "pos s = 8 + 16 * Suc (i * rpp)"
        "end_pos s = 8 + 16 * (i * rpp + rpp)"
      by (simp_all add: s_def open_part_def Let_def algebra_simps)
    moreover have "block rpp i rs = drop (i * rpp) (take (i * rpp + rpp) rs)"
      by (simp add: block_def drop_take)
    ultimately show ?thesis
      using fit assms(2) unfolding s_def [symmetric] part_at_def
      by (simp only: if_True) (rule exI [of _ "i * rpp"], rule exI [of _ "i * rpp + rpp"], simp)
  qed
  then have l2: "list_all2 (part_at rs) states xss"
    by (simp add: states_def xss_def list_all2_conv_all_nth)
  define out where "out = merge_loop (file_bytes w rs) states"
  have all: "concat xss = rs" using take_blocks [of n rpp rs] assms(1) by (simp add: xss_def)
  have "merge_parts (file_bytes w rs) (int n) rpp junk = file_bytes (word_of_nat (length rs)) out"
    by (simp add: merge_parts_def file_bytes_def out_def states_def assms(1))
  moreover have "mset out = mset rs" using merge_loop_correct [OF l2, of w] all by (simp add: out_def)
  moreover have "ordered out" if "\<forall>p < n. ordered (block rpp p rs)" "\<forall>r \<in> set rs. has_time r"
  proof -
    have "\<forall>xs \<in> set xss. ordered xs" using that(1) by (auto simp: xss_def)
    moreover have "\<forall>x \<in> set (concat xss). has_time x" using that(2) all by simp
    ultimately show ?thesis using merge_loop_correct [OF l2, of w] by (simp only: out_def)
  qed
  ultimately show ?thesis by blast
qed

text \<open>
  C29 Merging the parts: the header of the new file counts its records, which are those of the old
  file, and they are in order when every part is in order and no time mark is NaN.
\<close>

theorem merge_parts_merges:
  assumes "length rs = n * rpp" and "0 < rpp"
  shows "\<exists>out. merge_parts (file_bytes w rs) (int n) rpp junk = file_bytes (word_of_nat (length rs)) out
    \<and> mset out = mset rs
    \<and> ((\<forall>p < n. ordered (block rpp p rs)) \<and> (\<forall>r \<in> set rs. has_time r) \<longrightarrow> ordered out)"
  using assms by (rule merge_parts_result)

lemma num_parts_fit:
  assumes "n < 2147483648"
  shows "sint (word_of_nat n :: 32 word) = int n"
proof -
  have "uint (word_of_nat n :: 32 word) = int n"
    using assms by (simp add: unsigned_of_nat take_bit_nat_eq_self)
  then show ?thesis using assms by (simp add: sint_uint signed_take_bit_int_eq_self)
qed

lemma sort_file_steps:
  assumes rpp: "rpp = unat memsize div 16" "unat memsize mod 16 = 0" "0 < rpp"
    and n: "length rs = n * rpp" "n < 2147483648" "length rs < 18446744073709551616" and env: "allows env"
    and c: "c = \<lparr>records_per_part = rpp, blocks = nat (sint nblocks), threads = nat (sint nthreads)\<rparr>"
    and parts: "sort_parts qs env c (16 * rpp) (file_bytes (word_of_nat (length rs)) rs) [0..<n] = Inr file'"
  shows "sort_file qs env memsize nblocks nthreads (file_bytes (word_of_nat (length rs)) rs)
    = Sorted (merge_parts file' (int n) rpp (junk_rec env))"
proof -
  have m: "unat memsize = 16 * rpp" using rpp(1,2) div_mult_mod_eq [of "unat memsize" 16] by simp
  have r: "unat (word_of_nat (length rs) :: 64 word) = length rs"
    using n(3) by (simp add: unat_of_nat take_bit_nat_eq_self)
  have d: "length rs div rpp = n" "length rs mod rpp = 0" using n(1) rpp(3) by simp_all
  have t: "take 8 (file_bytes (word_of_nat (length rs)) rs) = le_bytes (word_of_nat (length rs))"
    "\<not> length (file_bytes (word_of_nat (length rs)) rs) < 8"
    by (simp_all add: file_bytes_def)
  show ?thesis
    using t(2) rpp(3) parts env
    by (simp add: sort_file_def Let_def t(1) m r d num_parts_fit [OF n(2)] c [symmetric] allows_def)
qed

lemma accepted_context:
  assumes "check_settings page memsize nblocks nthreads = None"
  shows "good_context \<lparr>records_per_part = rpp, blocks = nat (sint nblocks), threads = nat (sint nthreads)\<rparr>"
    and "4 * nat (sint nthreads) \<le> nat (sint nblocks)"
proof -
  note a = settings_facts [OF assms]
  show "good_context \<lparr>records_per_part = rpp, blocks = nat (sint nblocks), threads = nat (sint nthreads)\<rparr>"
    using a by (auto simp: good_context_def nat_power_eq intro!: exI)
  show "4 * nat (sint nthreads) \<le> nat (sint nblocks)" using a by linarith
qed


lemma sort_single_part:
  assumes "qsort_contract qs" "good_context c" and "memsize = 16 * records_per_part c" and "allows env"
    and "length rs = records_per_part c"
  shows "sort_parts qs env c memsize (file_bytes w rs) [0..<1] = Inr (file_bytes w (sort_part qs c rs))"
proof -
  have l: "length rs = 1 * records_per_part c" using assms(5) by simp
  note one = sort_one_part [OF assms(1,2,3) l zero_less_one]
  have "length (sort_part qs c rs) = length rs"
    using mset_sort_part [OF assms(1,2), of rs] assms(5) by (metis order_refl size_mset)
  then have "splice 0 (sort_part qs c rs) rs = sort_part qs c rs" by (simp add: splice_def)
  moreover have "block (records_per_part c) 0 rs = rs" using assms(5) by (simp add: block_def)
  ultimately show ?thesis
    using one(1) [of w] one(2) [of "page_size env" w] assms(4) by (simp add: allows_def)
qed

lemma merge_single_part:
  assumes "0 < length rs"
  shows "merge_loop (file_bytes w rs) [open_part (file_bytes w rs) (length rs) junk 0] = rs"
proof -
  have "merge_loop (file_bytes w rs) [s] = xs" if "part_at rs s xs" for s xs
    using that
  proof (induction xs arbitrary: s)
    case Nil
    then have "\<not> active s" by (simp add: part_at_active)
    then have "min_index [s] (length [s]) = None" by (simp add: min_index_None)
    then show ?case by (subst merge_loop.simps) simp
  next
    case (Cons x xs)
    have "active s" using part_at_active [OF Cons.prems] by simp
    then have "min_index [s] (length [s]) = Some 0" by (simp add: min_index_Suc better_def)
    then show ?case
      using Cons.IH [OF part_at_advance [OF Cons.prems]] part_at_current [OF Cons.prems]
      by (subst merge_loop.simps) simp
  qed
  moreover have "part_at rs (open_part (file_bytes w rs) (length rs) junk 0) rs"
    using assms read_rec_file [of 0 rs w junk]
    by (auto simp: part_at_def open_part_def Let_def intro!: exI [of _ 0] exI [of _ "length rs"])
  ultimately show ?thesis by blast
qed

text \<open>
  C5 \<open>sort_index\<close> does not sort: for every setting \<open>main\<close> accepts with at least one record per block
  there is a file, of one part and without NaN marks, that the program ends on without any error,
  leaving its records out of order.
\<close>

theorem sort_file_leaves_unsorted:
  assumes "qsort_contract qs" and "check_settings (page_size env) memsize nblocks nthreads = None" and "allows env"
    and "unat memsize mod 16 = 0" and "16 * nat (sint nblocks) \<le> unat memsize"
  shows "\<exists>rs out. length rs = unat memsize div 16 \<and> (\<forall>r \<in> set rs. has_time r)
    \<and> sort_file qs env memsize nblocks nthreads (file_bytes (word_of_nat (length rs)) rs)
      = Sorted (file_bytes (word_of_nat (length rs)) out)
    \<and> mset out = mset rs \<and> \<not> ordered out"
proof -
  define rpp where "rpp = unat memsize div 16"
  define c where "c = \<lparr>records_per_part = rpp, blocks = nat (sint nblocks), threads = nat (sint nthreads)\<rparr>"
  have g: "good_context c" "4 * threads c \<le> blocks c"
    using accepted_context [OF assms(2)] by (simp_all add: c_def)
  have b: "blocks c \<le> records_per_part c" using assms(5) by (simp add: c_def rpp_def)
  have pos: "0 < rpp" using g b by (auto simp: good_context_def c_def)
  obtain rs where rs: "length rs = rpp" "\<forall>r \<in> set rs. has_time r" "\<not> ordered (sort_part qs c rs)"
    using part_left_unsorted [OF assms(1) g b] by (auto simp: c_def)
  define out where "out = sort_part qs c rs"
  have m: "mset out = mset rs" using mset_sort_part [OF assms(1) g(1), of rs] rs(1) by (simp add: out_def c_def)
  then have lo: "length out = rpp" using rs(1) by (metis size_mset)
  have parts: "sort_parts qs env c (16 * rpp) (file_bytes (word_of_nat (length rs)) rs) [0..<1]
      = Inr (file_bytes (word_of_nat (length rs)) out)"
    unfolding out_def using sort_single_part [OF assms(1) g(1) _ assms(3), of "16 * rpp" rs] rs(1) by (simp add: c_def)
  have small: "length rs < 18446744073709551616" using rs(1) unsigned_less [of memsize, where 'a = nat] by (simp add: rpp_def)
  have "sort_file qs env memsize nblocks nthreads (file_bytes (word_of_nat (length rs)) rs)
      = Sorted (merge_parts (file_bytes (word_of_nat (length rs)) out) (int 1) rpp (junk_rec env))"
    by (rule sort_file_steps [OF rpp_def assms(4) pos _ _ small assms(3) c_def parts]) (simp_all add: rs(1))
  moreover have "merge_parts (file_bytes (word_of_nat (length rs)) out) (int 1) rpp (junk_rec env)
      = file_bytes (word_of_nat (length rs)) out"
    using merge_single_part [of out "word_of_nat (length rs)" "junk_rec env 0"] lo pos rs(1)
    by (simp add: merge_parts_def file_bytes_def)
  ultimately have "sort_file qs env memsize nblocks nthreads (file_bytes (word_of_nat (length rs)) rs)
      = Sorted (file_bytes (word_of_nat (length rs)) out)" by simp
  moreover have "\<not> ordered out" using rs(3) by (simp add: out_def)
  ultimately show ?thesis using rs(2) m rs(1) [unfolded rpp_def] by blast
qed

text \<open>
  A memory size of 0 passes every check on the arguments, and the program then divides by the
  number of records per part: it is killed on every file that has a header.
\<close>

theorem zero_memsize_divides_by_zero:
  assumes "check_settings (page_size env) 0 (word_of_int (atoi a)) (word_of_int (atoi b)) = None"
    and "8 \<le> length bytes"
  shows "sort_main qs env [''0'', a, b, f] (Some bytes) = Division_by_zero"
proof -
  have "atoi ''0'' = 0" by code_simp
  then show ?thesis using assms by (simp add: sort_main_def sort_file_def Let_def)
qed

section \<open>Concrete runs\<close>

definition linux_env :: sort_env where
  "linux_env = \<lparr>page_size = 4096, mmap_ok = \<lambda>_. True, malloc_ok = \<lambda>_. True, tmp_ok = True, rename_ok = True,
     junk_rec = \<lambda>_. \<lparr>time_mark = 0, recno = 0\<rparr>\<rparr>"

lemma linux_env_facts: "page_size linux_env = 4096" "allows linux_env"
  by (simp_all add: linux_env_def allows_def)

lemma small_settings: "check_settings 4096 4096 4 1 = None" "unat (4096 :: 64 word) mod 16 = 0"
  "unat (4096 :: 64 word) div 16 = 256"
  by (simp_all add: check_settings_def)

lemma merge_parts_merges_witness:
  "\<exists>out. merge_parts (file_bytes 2 small_part) (int 2) 1 (\<lambda>_. hd small_part) = file_bytes 2 out
     \<and> mset out = mset small_part \<and> ordered out"
proof -
  have "ordered (block 1 p small_part)" if "p < 2" for p
    using that by (auto simp: small_part_def block_def less_2_cases_iff)
  moreover have "\<forall>r \<in> set small_part. has_time r" by (simp add: small_part_def is_nan_def)
  moreover have "length small_part = 2 * 1" by (simp add: small_part_def)
  ultimately show ?thesis using merge_parts_merges [of small_part 2 1 2 "\<lambda>_. hd small_part"] by auto
qed


lemma sort_file_leaves_unsorted_witness:
  "\<exists>rs out. length rs = 256 \<and> sort_file library_sort linux_env 4096 4 1 (file_bytes (word_of_nat (length rs)) rs)
      = Sorted (file_bytes (word_of_nat (length rs)) out) \<and> mset out = mset rs \<and> \<not> ordered out"
proof -
  have "16 * nat (sint (4 :: 32 word)) \<le> unat (4096 :: 64 word)" by code_simp
  then show ?thesis
    using sort_file_leaves_unsorted [of library_sort linux_env 4096 4 1]
    unfolding library_sort_def linux_env_facts small_settings
    using qsort_contract_insertion_sort linux_env_facts(2) by blast
qed

lemma zero_memsize_divides_by_zero_witness:
  "sort_main library_sort linux_env [''0'', ''4'', ''1'', ''data''] (Some (file_bytes 0 [])) = Division_by_zero"
proof (rule zero_memsize_divides_by_zero)
  show "check_settings (page_size linux_env) 0 (word_of_int (atoi ''4'')) (word_of_int (atoi ''1'')) = None"
    unfolding linux_env_facts by code_simp
qed (simp add: file_bytes_def)

end
