(* ===== verification/Index_Tools.thy ===== *)
theory Index_Tools
  imports Index_Merge Text
begin

text \<open>
  gen.c, which writes an index file of random time marks, and view.c, which prints one.
\<close>

section \<open>gen\<close>

text \<open>
  The operations on doubles of \<open>gen\<close> and the sequence of values of \<open>rand\<close> are parameters; the
  expression that makes a time mark of two random values is the code's.
\<close>

record doubles =
  fadd :: "64 word \<Rightarrow> 64 word \<Rightarrow> 64 word"
  fsub :: "64 word \<Rightarrow> 64 word \<Rightarrow> 64 word"
  fmul :: "64 word \<Rightarrow> 64 word \<Rightarrow> 64 word"
  fdiv :: "64 word \<Rightarrow> 64 word \<Rightarrow> 64 word"
  of_rand :: "nat \<Rightarrow> 64 word"
  rand_max :: nat

definition mjd_min :: "64 word" where
  "mjd_min = 4669482946653061120"

definition mjd_max :: "64 word" where
  "mjd_max = 4702537863219118080"

definition new_time_mark :: "doubles \<Rightarrow> nat \<Rightarrow> nat \<Rightarrow> 64 word" where
  "new_time_mark d r1 r2 =
     (let integer_part = fadd d mjd_min (fmul d (fdiv d (of_rand d r1) (of_rand d (rand_max d))) (fsub d mjd_max mjd_min));
          fractional_part = fdiv d (of_rand d r2) (of_rand d (rand_max d))
      in fadd d integer_part fractional_part)"

definition gen_record :: "doubles \<Rightarrow> (nat \<Rightarrow> nat) \<Rightarrow> nat \<Rightarrow> index_s" where
  "gen_record d rnd i =
     \<lparr>time_mark = new_time_mark d (rnd (2 * i)) (rnd (2 * i + 1)), recno = word_of_nat (i + 1)\<rparr>"

datatype gen_exit = Gen_usage | Not_multiple | Gen_open_failed | Written "8 word list"

definition gen_main :: "doubles \<Rightarrow> (nat \<Rightarrow> nat) \<Rightarrow> bool \<Rightarrow> string list \<Rightarrow> gen_exit" where
  "gen_main d rnd open_ok args =
     (if length args \<noteq> 2 then Gen_usage
      else
        (let records = word_of_int (atoi (args ! 0)) :: 64 word in
         if unat records mod 256 \<noteq> 0 then Not_multiple
         else if \<not> open_ok then Gen_open_failed
         else Written (le_bytes records @ recs_bytes (map (gen_record d rnd) [0..<unat records]))))"

section \<open>view\<close>

text \<open>
  What \<open>view\<close> prints: the number of records, then the time mark and number of each. Nothing checks how
  much a \<open>read\<close> returned: a short one leaves the rest of the variable as it was, at first
  uninitialised memory, \<open>junk\<close>.
\<close>

datatype view_line = Records "64 word" | Mark "64 word" "64 word"

definition read_header :: "8 word list \<Rightarrow> 64 word \<Rightarrow> 64 word" where
  "read_header file old = (let got = take 8 file in of_le_bytes (got @ drop (length got) (le_bytes old)))"

primrec view_loop :: "8 word list \<Rightarrow> nat \<Rightarrow> index_s \<Rightarrow> nat \<Rightarrow> view_line list" where
  "view_loop file k old 0 = []"
| "view_loop file k old (Suc n) =
     (let r = read_rec file k old in Mark (time_mark r) (recno r) # view_loop file (min (length file) (k + 16)) r n)"

definition view_main :: "string list \<Rightarrow> 8 word list option \<Rightarrow> 64 word \<Rightarrow> index_s \<Rightarrow> view_line list option" where
  "view_main args disk junk_header junk =
     (if length args \<noteq> 1 then None
      else
        (case disk of None \<Rightarrow> None
         | Some file \<Rightarrow>
             (let records = read_header file junk_header in
              Some (Records records # view_loop file (min (length file) 8) junk (unat records)))))"

lemma view_loop_file:
  "k + n \<le> length rs \<Longrightarrow> view_loop (file_bytes w rs) (8 + 16 * k) old n
     = map (\<lambda>r. Mark (time_mark r) (recno r)) (take n (drop k rs))"
proof (induction n arbitrary: k old)
  case (Suc n)
  have "min (length (file_bytes w rs)) (8 + 16 * k + 16) = 8 + 16 * Suc k"
    using Suc.prems by (simp add: file_bytes_def)
  moreover have "take (Suc n) (drop k rs) = rs ! k # take n (drop (Suc k) rs)"
    using Suc.prems by (simp add: Cons_nth_drop_Suc [symmetric] del: Cons_nth_drop_Suc)
  ultimately show ?case
    using Suc.IH [of "Suc k" "rs ! k"] Suc.prems read_rec_file [of k rs w old] by (simp add: Let_def)
qed simp

lemma read_header_file [simp]: "read_header (file_bytes w rs) old = w"
  by (simp add: read_header_def file_bytes_def)

text \<open>
  C38 What \<open>gen\<close> writes \<open>view\<close> prints: for a number of records that is a multiple of 256, the header
  and exactly the generated records in order, their numbers counting from 1.
\<close>

theorem view_prints_what_gen_writes:
  assumes "n mod 256 = 0" and "n < 18446744073709551616"
  shows "\<exists>bytes. gen_main d rnd True [decimal n, f] = Written bytes
    \<and> view_main [f] (Some bytes) jh j
      = Some (Records (word_of_nat n) # map (\<lambda>i. Mark (new_time_mark d (rnd (2 * i)) (rnd (2 * i + 1))) (word_of_nat (i + 1))) [0..<n])"
proof -
  define rs where "rs = map (gen_record d rnd) [0..<n]"
  have l: "length rs = n" by (simp add: rs_def)
  have u: "unat (word_of_nat n :: 64 word) = n" using assms(2) by (simp add: unat_of_nat take_bit_nat_eq_self)
  have "gen_main d rnd True [decimal n, f] = Written (file_bytes (word_of_nat n) rs)"
    using assms(1) by (simp add: gen_main_def Let_def u file_bytes_def rs_def)
  moreover have "view_loop (file_bytes (word_of_nat n) rs) 8 j n = map (\<lambda>r. Mark (time_mark r) (recno r)) rs"
    using view_loop_file [of 0 n rs "word_of_nat n" j] l by simp
  moreover have "min (length (file_bytes (word_of_nat n) rs)) 8 = 8" by (simp add: file_bytes_def)
  ultimately show ?thesis by (simp add: view_main_def Let_def u rs_def gen_record_def comp_def)
qed

lemma view_prints_what_gen_writes_witness:
  "\<exists>bytes. gen_main \<lparr>fadd = (+), fsub = (-), fmul = (*), fdiv = (div), of_rand = word_of_nat, rand_max = 1\<rparr>
      (\<lambda>i. i) True [decimal 256, ''data''] = Written bytes \<and> view_main [''data''] (Some bytes) 0 \<lparr>time_mark = 0, recno = 0\<rparr> \<noteq> None"
  using view_prints_what_gen_writes [of 256 "\<lparr>fadd = (+), fsub = (-), fmul = (*), fdiv = (div), of_rand = word_of_nat, rand_max = 1\<rparr>"
      "\<lambda>i. i" "''data''" 0 "\<lparr>time_mark = 0, recno = 0\<rparr>"] by auto

end
