(* ===== verification/Student_File.thy ===== *)
theory Student_File
  imports Blocks
begin

text \<open>
  Lab7: the program that shows and edits \<open>students.dat\<close>, run by several processes at once. A step is
  one system call on the file, or the dialog with the user. The locks of \<open>fcntl\<close> belong to a process
  and a record, and the process loses them as soon as it closes any descriptor of the file.
\<close>

section \<open>Records\<close>

text \<open>\<open>struct record_s\<close> is its 161 bytes: the name at 0, the address at 80, the semester at 160.\<close>

type_synonym bytes = "8 word list"

definition MAX_NAME :: nat where "MAX_NAME = 80"
definition MAX_ADDRESS :: nat where "MAX_ADDRESS = 80"
definition record_size :: nat where "record_size = 161"

lemmas record_sizes = MAX_NAME_def MAX_ADDRESS_def record_size_def

definition padded :: "nat \<Rightarrow> string \<Rightarrow> bytes" where
  "padded n s = map of_char s @ replicate (n - length s) 0"

definition make_record :: "string \<times> string \<times> 8 word \<Rightarrow> bytes" where
  "make_record r = (case r of (n, a, s) \<Rightarrow> padded MAX_NAME n @ padded MAX_ADDRESS a @ [s])"

definition initial_records :: "(string \<times> string \<times> 8 word) list" where
  "initial_records =
    [(''Ivanov Ivan Ivanovich'', ''Moscow, Lenina 1'', 1),
     (''Petrov Petr Petrovich'', ''St. Petersburg, Nevsky 10'', 2),
     (''Sidorov Sidr Sidorovich'', ''Kazan, Bauman 5'', 3),
     (''Smirnov Alexey Viktorovich'', ''Novosibirsk, Lenin 15'', 4),
     (''Kuznetsov Dmitry Sergeevich'', ''Ekaterinburg, Mira 20'', 5),
     (''Popov Vladimir Alexandrovich'', ''Samara, Soviet 25'', 6),
     (''Vasiliev Sergey Mikhailovich'', ''Rostov, Bolshaya 30'', 7),
     (''Mikhailov Mikhail Pavlovich'', ''Ufa, Lenin 35'', 8),
     (''Fedorov Fedor Fedorovich'', ''Omsk, Marx 40'', 9),
     (''Morozov Nikita Igorevich'', ''Chelyabinsk, Kirov 45'', 10)]"

definition record_at :: "bytes \<Rightarrow> nat \<Rightarrow> bytes" where
  "record_at b rec_no = take record_size (drop ((rec_no - 1) * record_size) b)"

text \<open>\<open>write\<close> at a position; a gap past the end is filled with zeros.\<close>

definition pwrite :: "bytes \<Rightarrow> nat \<Rightarrow> bytes \<Rightarrow> bytes" where
  "pwrite b k new = take k (b @ replicate (k - length b) 0) @ new @ drop (k + length new) b"

definition get_record_count :: "bytes option \<Rightarrow> nat" where
  "get_record_count f = (case f of None \<Rightarrow> 0 | Some b \<Rightarrow> length b div record_size)"

text \<open>A short \<open>read\<close> fills only the front of the variable; without a file it stays as it was.\<close>

definition get_record :: "bytes option \<Rightarrow> nat \<Rightarrow> bytes \<Rightarrow> bytes" where
  "get_record f rec_no old =
     (case f of None \<Rightarrow> old
      | Some b \<Rightarrow> (let got = record_at b rec_no in got @ drop (length got) old))"

definition put_record :: "bytes option \<Rightarrow> nat \<Rightarrow> bytes \<Rightarrow> bytes option" where
  "put_record f rec_no r =
     (case f of None \<Rightarrow> None | Some b \<Rightarrow> Some (pwrite b ((rec_no - 1) * record_size) r))"

section \<open>Standard input\<close>

definition newline :: "8 word" where "newline = 10"

definition byte_space :: "8 word \<Rightarrow> bool" where
  "byte_space c \<longleftrightarrow> c = 32 \<or> (9 \<le> c \<and> c \<le> 13)"

definition byte_digit :: "8 word \<Rightarrow> bool" where
  "byte_digit c \<longleftrightarrow> 48 \<le> c \<and> c \<le> 57"

text \<open>
  \<open>scanf\<close> of a decimal number: what it reads, if it reads one, and the rest of the input. \<open>%d\<close> and \<open>%hhu\<close>
  then keep the low bits.
\<close>

definition scan_number :: "bytes \<Rightarrow> int option \<times> bytes" where
  "scan_number inp =
     (let t = dropWhile byte_space inp;
          signed = t \<noteq> [] \<and> (hd t = 43 \<or> hd t = 45);
          u = (if signed then tl t else t);
          ds = takeWhile byte_digit u;
          v = foldl (\<lambda>n c. n * 10 + (uint c - 48)) 0 ds
      in (if ds = [] then None else Some (if signed \<and> hd t = 45 then - v else v), dropWhile byte_digit u))"

definition scan_int :: "bytes \<Rightarrow> int \<Rightarrow> int \<times> bytes" where
  "scan_int inp old =
     (case scan_number inp of (None, rest) \<Rightarrow> (old, rest) | (Some v, rest) \<Rightarrow> (sint (word_of_int v :: 32 word), rest))"

text \<open>The loop \<open>while (getchar() != '\n');\<close> never ends when the input does first.\<close>

definition skip_line :: "bytes \<Rightarrow> bytes option" where
  "skip_line inp = (let t = dropWhile (\<lambda>c. c \<noteq> newline) inp in if t = [] then None else Some (tl t))"

definition fgets :: "nat \<Rightarrow> nat \<Rightarrow> bytes \<Rightarrow> bytes \<Rightarrow> bytes \<times> bytes" where
  "fgets off n mem inp =
     (if inp = [] then (mem, [])
      else
        (let window = take (n - 1) inp;
             k = length (takeWhile (\<lambda>c. c \<noteq> newline) window);
             line = take (k + 1) window
         in (splice off (line @ [0]) mem, drop (length line) inp)))"

text \<open>
  \<open>rec.name[strcspn(rec.name, "\n")] = 0\<close>: the scan stops at a newline or a 0, past the field if need be;
  past the structure it is undefined.
\<close>

definition cut_line :: "nat \<Rightarrow> bytes \<Rightarrow> bytes option" where
  "cut_line off mem =
     (let k = length (takeWhile (\<lambda>c. c \<noteq> newline \<and> c \<noteq> 0) (drop off mem))
      in if off + k < length mem then Some (mem[off + k := 0]) else None)"

datatype dialog = Edited bytes bytes | No_newline | Overrun

definition edit_record :: "bytes \<Rightarrow> bytes \<Rightarrow> dialog" where
  "edit_record mem inp =
     (case fgets 0 MAX_NAME mem inp of (mem1, inp1) \<Rightarrow>
       (case cut_line 0 mem1 of None \<Rightarrow> Overrun
        | Some mem2 \<Rightarrow>
          (case fgets MAX_NAME MAX_ADDRESS mem2 inp1 of (mem3, inp2) \<Rightarrow>
            (case cut_line MAX_NAME mem3 of None \<Rightarrow> Overrun
             | Some mem4 \<Rightarrow>
               (case scan_number inp2 of (v, inp3) \<Rightarrow>
                 (case skip_line inp3 of None \<Rightarrow> No_newline
                  | Some inp4 \<Rightarrow>
                      Edited (case v of None \<Rightarrow> mem4 | Some s \<Rightarrow> mem4[160 := word_of_int s]) inp4))))))"

section \<open>Processes\<close>

datatype place = Access | Create | Create_write nat | Menu | List_next nat | List_read nat | Ask_get | Show_get
  | Ask_modify | Open_modify | Again | Close_again | Dialog | Check_edit | Lock_record | Read_new
  | Close_new | Check_new | Unlock_conflict | Put | Close_put | Unlock_saved | Close_fd
  | Exited | Hung | Undefined

datatype shown = Listed nat bytes | Got int bytes | Bad_number | Bad_choice | Current bytes
  | Conflict | Saved int bytes | Updated

record session =
  place :: place
  input :: bytes
  choice :: int
  rec_no :: int
  menu_rec :: bytes
  rec :: bytes
  rec_wrk :: bytes
  rec_new :: bytes
  screen :: "shown list"

record world =
  disk :: "bytes option"
  locks :: "(nat \<times> int) list"
  processes :: "session list"

definition go_to :: "place \<Rightarrow> session \<Rightarrow> session" where
  "go_to q p = p\<lparr>place := q\<rparr>"

definition print :: "shown \<Rightarrow> session \<Rightarrow> session" where
  "print x p = p\<lparr>screen := screen p @ [x]\<rparr>"

definition become :: "nat \<Rightarrow> session \<Rightarrow> world \<Rightarrow> world" where
  "become i p w = w\<lparr>processes := (processes w)[i := p]\<rparr>"

text \<open>Closing a descriptor of the file gives up every lock of the process on it.\<close>

definition close_file :: "nat \<Rightarrow> world \<Rightarrow> world" where
  "close_file i w = w\<lparr>locks := filter (\<lambda>(j, r). j \<noteq> i) (locks w)\<rparr>"

definition lock_record :: "nat \<Rightarrow> int \<Rightarrow> world \<Rightarrow> world option" where
  "lock_record i r w =
     (if \<exists>(j, r') \<in> set (locks w). r' = r \<and> j \<noteq> i then None
      else Some (w\<lparr>locks := (i, r) # filter (\<lambda>l. l \<noteq> (i, r)) (locks w)\<rparr>))"

definition unlock_record :: "nat \<Rightarrow> int \<Rightarrow> world \<Rightarrow> world" where
  "unlock_record i r w = w\<lparr>locks := filter (\<lambda>l. l \<noteq> (i, r)) (locks w)\<rparr>"

text \<open>\<open>main\<close> and \<open>init_file\<close>\<close>

definition access_file :: "nat \<Rightarrow> session \<Rightarrow> world \<Rightarrow> world" where
  "access_file i p w = become i (go_to (if disk w = None then Create else Menu) p) w"

definition create_file :: "nat \<Rightarrow> session \<Rightarrow> world \<Rightarrow> world" where
  "create_file i p w = become i (go_to (Create_write 0) p) (w\<lparr>disk := Some []\<rparr>)"

definition create_write :: "nat \<Rightarrow> session \<Rightarrow> nat \<Rightarrow> world \<Rightarrow> world" where
  "create_write i p k w =
     (if k < length initial_records then
        become i (go_to (Create_write (k + 1)) p)
          (w\<lparr>disk := put_record (disk w) (k + 1) (make_record (initial_records ! k))\<rparr>)
      else close_file i (become i (go_to Menu p) w))"

text \<open>\<open>menu\<close>\<close>

definition menu :: "nat \<Rightarrow> session \<Rightarrow> world \<Rightarrow> world" where
  "menu i p w =
     (case scan_int (input p) (choice p) of (c, rest) \<Rightarrow>
       (case skip_line rest of None \<Rightarrow> become i (go_to Hung p) w
        | Some rest' \<Rightarrow>
            (let q = p\<lparr>input := rest', choice := c\<rparr> in
             become i
               (if c = 1 then go_to (List_next 0) q
                else if c = 2 then go_to Ask_get q
                else if c = 3 then go_to Ask_modify q
                else if c = 4 then go_to Exited q
                else go_to Menu (print Bad_choice q)) w)))"

text \<open>\<open>list_records\<close>: the number of records is asked for again in each round.\<close>

definition list_next :: "nat \<Rightarrow> session \<Rightarrow> nat \<Rightarrow> world \<Rightarrow> world" where
  "list_next i p k w =
     (case disk w of None \<Rightarrow> become i (go_to Menu p) w
      | Some b \<Rightarrow>
          close_file i (become i (go_to (if k < get_record_count (disk w) then List_read k else Menu) p) w))"

definition list_read :: "nat \<Rightarrow> session \<Rightarrow> nat \<Rightarrow> world \<Rightarrow> world" where
  "list_read i p k w =
     (let got = (case disk w of None \<Rightarrow> [] | Some b \<Rightarrow> record_at b (k + 1))
      in become i (go_to (List_next (k + 1)) (if length got = record_size then print (Listed (k + 1) got) p else p)) w)"

definition ask_number :: "nat \<Rightarrow> session \<Rightarrow> place \<Rightarrow> world \<Rightarrow> world" where
  "ask_number i p next w =
     (case scan_int (input p) (rec_no p) of (n, rest) \<Rightarrow>
       (case skip_line rest of None \<Rightarrow> become i (go_to Hung p) w
        | Some rest' \<Rightarrow>
            (let q = p\<lparr>input := rest', rec_no := n\<rparr> in
             close_file i (become i
               (if 1 \<le> n \<and> n \<le> int (get_record_count (disk w)) then go_to next q else go_to Menu (print Bad_number q)) w))))"

definition show_get :: "nat \<Rightarrow> session \<Rightarrow> world \<Rightarrow> world" where
  "show_get i p w =
     (let r = get_record (disk w) (nat (rec_no p)) (menu_rec p) in
      close_file i (become i (go_to Menu (print (Got (rec_no p) r) (p\<lparr>menu_rec := r\<rparr>))) w))"

text \<open>\<open>modify_and_save_record\<close>\<close>

definition open_modify :: "nat \<Rightarrow> session \<Rightarrow> world \<Rightarrow> world" where
  "open_modify i p w = become i (go_to (if disk w = None then Menu else Again) p) w"

definition again :: "nat \<Rightarrow> session \<Rightarrow> world \<Rightarrow> world" where
  "again i p w =
     (let r = get_record (disk w) (nat (rec_no p)) (rec p) in
      become i (go_to Close_again (p\<lparr>rec := r, rec_wrk := r\<rparr>)) w)"

definition ask_user :: "nat \<Rightarrow> session \<Rightarrow> world \<Rightarrow> world" where
  "ask_user i p w =
     (let q = print (Current (rec_wrk p)) p in
      (case edit_record (rec_wrk p) (input p) of
         Edited mem rest \<Rightarrow> become i (go_to Check_edit (q\<lparr>rec_wrk := mem, input := rest\<rparr>)) w
       | No_newline \<Rightarrow> become i (go_to Hung q) w
       | Overrun \<Rightarrow> become i (go_to Undefined q) w))"

definition check_edit :: "nat \<Rightarrow> session \<Rightarrow> world \<Rightarrow> world" where
  "check_edit i p w = become i (go_to (if rec_wrk p = rec p then Close_fd else Lock_record) p) w"

definition read_new :: "nat \<Rightarrow> session \<Rightarrow> world \<Rightarrow> world" where
  "read_new i p w =
     become i (go_to Close_new (p\<lparr>rec_new := get_record (disk w) (nat (rec_no p)) (rec_new p)\<rparr>)) w"

definition check_new :: "nat \<Rightarrow> session \<Rightarrow> world \<Rightarrow> world" where
  "check_new i p w = become i (go_to (if rec_new p = rec p then Put else Unlock_conflict) p) w"

definition unlock_conflict :: "nat \<Rightarrow> session \<Rightarrow> world \<Rightarrow> world" where
  "unlock_conflict i p w =
     unlock_record i (rec_no p) (become i (go_to Again (print Conflict (p\<lparr>rec := rec_new p\<rparr>))) w)"

definition put :: "nat \<Rightarrow> session \<Rightarrow> world \<Rightarrow> world" where
  "put i p w =
     become i (go_to Close_put (print (Saved (rec_no p) (rec_wrk p)) p))
       (w\<lparr>disk := put_record (disk w) (nat (rec_no p)) (rec_wrk p)\<rparr>)"

definition unlock_saved :: "nat \<Rightarrow> session \<Rightarrow> world \<Rightarrow> world" where
  "unlock_saved i p w = unlock_record i (rec_no p) (become i (go_to Close_fd (print Updated p)) w)"

definition program_step :: "world \<Rightarrow> nat \<Rightarrow> world option" where
  "program_step w i =
     (if i < length (processes w) then
        (let p = processes w ! i in
         case place p of
           Access \<Rightarrow> Some (access_file i p w)
         | Create \<Rightarrow> Some (create_file i p w)
         | Create_write k \<Rightarrow> Some (create_write i p k w)
         | Menu \<Rightarrow> Some (menu i p w)
         | List_next k \<Rightarrow> Some (list_next i p k w)
         | List_read k \<Rightarrow> Some (list_read i p k w)
         | Ask_get \<Rightarrow> Some (ask_number i p Show_get w)
         | Show_get \<Rightarrow> Some (show_get i p w)
         | Ask_modify \<Rightarrow> Some (ask_number i p Open_modify w)
         | Open_modify \<Rightarrow> Some (open_modify i p w)
         | Again \<Rightarrow> Some (again i p w)
         | Close_again \<Rightarrow> Some (close_file i (become i (go_to Dialog p) w))
         | Dialog \<Rightarrow> Some (ask_user i p w)
         | Check_edit \<Rightarrow> Some (check_edit i p w)
         | Lock_record \<Rightarrow> map_option (become i (go_to Read_new p)) (lock_record i (rec_no p) w)
         | Read_new \<Rightarrow> Some (read_new i p w)
         | Close_new \<Rightarrow> Some (close_file i (become i (go_to Check_new p) w))
         | Check_new \<Rightarrow> Some (check_new i p w)
         | Unlock_conflict \<Rightarrow> Some (unlock_conflict i p w)
         | Put \<Rightarrow> Some (put i p w)
         | Close_put \<Rightarrow> Some (close_file i (become i (go_to Unlock_saved p) w))
         | Unlock_saved \<Rightarrow> Some (unlock_saved i p w)
         | Close_fd \<Rightarrow> Some (close_file i (become i (go_to Menu p) w))
         | Exited \<Rightarrow> None
         | Hung \<Rightarrow> None
         | Undefined \<Rightarrow> None)
      else None)"

end
