(* ===== verification/Student_Props.thy ===== *)
theory Student_Props
  imports Student_File
begin

text \<open>
  What the student file promises: a record written is the record read and no other changes, the file
  keeps its size and only ever holds records some process saved; and what it does not: the lock is
  gone before the record is written, so that updates are lost.
\<close>

section \<open>Records in the file\<close>

definition valid_no :: "bytes \<Rightarrow> int \<Rightarrow> bool" where
  "valid_no b r \<longleftrightarrow> 1 \<le> r \<and> r \<le> int (get_record_count (Some b))"

lemma record_at_block: "record_at b r = block record_size (r - 1) b"
  by (simp add: record_at_def block_def)

lemma count_fits: "get_record_count (Some b) * record_size \<le> length b"
  by (simp add: get_record_count_def)

lemma record_fits: "r - 1 < get_record_count (Some b) \<Longrightarrow> (r - 1) * record_size + record_size \<le> length b"
  using block_in_range [of "r - 1" "get_record_count (Some b)" record_size] count_fits [of b] by simp

lemma length_record_at [simp]: "r - 1 < get_record_count (Some b) \<Longrightarrow> length (record_at b r) = record_size"
  unfolding record_at_block using length_block count_fits by blast

lemma pwrite_splice: "k + length new \<le> length b \<Longrightarrow> pwrite b k new = splice k new b"
  by (simp add: pwrite_def splice_def)

lemma put_get_record_facts:
  assumes "valid_no b (int r)" and "valid_no b (int r')" and "length x = record_size" and "length old = record_size"
  shows "get_record (put_record (Some b) r x) r' old = (if r' = r then x else get_record (Some b) r' old)
    \<and> (\<exists>b'. put_record (Some b) r x = Some b' \<and> length b' = length b)"
proof -
  have r: "r - 1 < get_record_count (Some b)" "r' - 1 < get_record_count (Some b)" "1 \<le> r" "1 \<le> r'"
    using assms(1,2) by (auto simp: valid_no_def)
  define b' where "b' = splice ((r - 1) * record_size) x b"
  have p: "put_record (Some b) r x = Some b'"
    using record_fits [OF r(1)] assms(3) by (simp add: put_record_def pwrite_splice b'_def)
  have l: "length b' = length b" using record_fits [OF r(1)] assms(3) by (simp add: b'_def)
  have "record_at b' r' = (if r' = r then x else record_at b r')"
    unfolding record_at_block b'_def using block_splice [OF r(2,1) count_fits assms(3)] r(3,4) by auto
  then show ?thesis using p l r(2) assms(3,4) by (auto simp: get_record_def Let_def)
qed

text \<open>
  Writing a record and reading it: after \<open>put_record\<close> of a record that exists, \<open>get_record\<close> of that
  number gives back what was written, of any other number what it gave before, and the file has as
  many bytes as before.
\<close>

theorem put_get_record:
  assumes "valid_no b (int r)" and "valid_no b (int r')" and "length x = record_size" and "length old = record_size"
  shows "get_record (put_record (Some b) r x) r' old = (if r' = r then x else get_record (Some b) r' old)
    \<and> (\<exists>b'. put_record (Some b) r x = Some b' \<and> length b' = length b)"
  using assms by (rule put_get_record_facts)

lemma put_get_record_witness:
  "get_record (put_record (Some (replicate 322 0)) 2 (replicate record_size 7)) 2 (replicate record_size 0)
     = replicate record_size 7"
  using put_get_record [of "replicate 322 0" 2 2 "replicate record_size 7" "replicate record_size 0"]
  by (simp add: valid_no_def get_record_count_def record_size_def)

section \<open>An invariant of all processes\<close>

lemma length_get_record: "length old = record_size \<Longrightarrow> length (get_record f r old) = record_size"
  by (auto simp: get_record_def record_at_def Let_def split: option.split)

lemma length_fgets:
  assumes "off + n \<le> length mem" and "0 < n"
  shows "length (fst (fgets off n mem inp)) = length mem"
proof (cases "inp = []")
  case False
  define line where "line = take (length (takeWhile (\<lambda>c. c \<noteq> newline) (take (n - 1) inp)) + 1) (take (n - 1) inp)"
  have "length line \<le> n - 1" by (simp add: line_def)
  then have "off + length (line @ [0]) \<le> length mem" using assms by simp
  then have "length (splice off (line @ [0]) mem) = length mem" by (rule length_splice)
  then show ?thesis using False by (simp add: fgets_def Let_def line_def)
qed (simp add: fgets_def)

lemma length_cut_line: "cut_line off mem = Some m \<Longrightarrow> length m = length mem"
  by (auto simp: cut_line_def Let_def split: if_splits)

lemma length_edit_record:
  assumes "length mem = record_size" and "edit_record mem inp = Edited m rest"
  shows "length m = record_size"
proof -
  obtain m1 i1 where 1: "fgets 0 MAX_NAME mem inp = (m1, i1)" by fastforce
  from assms(2) obtain m2 where 2: "cut_line 0 m1 = Some m2"
    unfolding edit_record_def 1 prod.case by (cases "cut_line 0 m1") simp_all
  obtain m3 i2 where 3: "fgets MAX_NAME MAX_ADDRESS m2 i1 = (m3, i2)" by fastforce
  from assms(2) obtain m4 where 4: "cut_line MAX_NAME m3 = Some m4"
    unfolding edit_record_def 1 2 3 prod.case option.case by (cases "cut_line MAX_NAME m3") simp_all
  have "length m1 = record_size"
    using length_fgets [of 0 MAX_NAME mem inp] 1 assms(1) by (simp add: record_sizes)
  then have "length m2 = record_size" using length_cut_line [OF 2] by simp
  then have "length m3 = record_size"
    using length_fgets [of MAX_NAME MAX_ADDRESS m2 i1] 3 by (simp add: record_sizes)
  then have "length m4 = record_size" using length_cut_line [OF 4] by simp
  with assms(2) show ?thesis
    unfolding edit_record_def 1 2 3 4 prod.case option.case
    by (auto split: option.splits prod.splits)
qed

text \<open>The places between the choice of a record and the end of its modification.\<close>

definition at_record :: "place \<Rightarrow> bool" where
  "at_record q \<longleftrightarrow> q \<in> {Show_get, Open_modify, Again, Close_again, Dialog, Check_edit, Lock_record, Read_new, Close_new,
     Check_new, Unlock_conflict, Put}"

definition holds_lock :: "place \<Rightarrow> bool" where
  "holds_lock q \<longleftrightarrow> q \<in> {Read_new, Close_new}"

definition process_ok :: "nat \<Rightarrow> session \<Rightarrow> bool" where
  "process_ok n p \<longleftrightarrow> length (rec p) = record_size \<and> length (rec_wrk p) = record_size \<and> length (rec_new p) = record_size
     \<and> place p \<noteq> Create \<and> (\<forall>k. place p \<noteq> Create_write k)
     \<and> (at_record (place p) \<longrightarrow> 1 \<le> rec_no p \<and> rec_no p \<le> int n)"

definition saved :: "world \<Rightarrow> nat \<Rightarrow> bytes \<Rightarrow> bool" where
  "saved w r x \<longleftrightarrow> (\<exists>p \<in> set (processes w). Saved (int r) x \<in> set (screen p))"

definition file_ok :: "bytes \<Rightarrow> world \<Rightarrow> bool" where
  "file_ok b0 w \<longleftrightarrow> (\<exists>b. disk w = Some b \<and> length b = length b0
     \<and> (\<forall>r. 1 \<le> r \<and> r \<le> get_record_count (Some b0) \<longrightarrow> record_at b r = record_at b0 r \<or> saved w r (record_at b r)))"

definition locks_ok :: "world \<Rightarrow> bool" where
  "locks_ok w \<longleftrightarrow> (\<forall>(i, r) \<in> set (locks w). i < length (processes w) \<and> holds_lock (place (processes w ! i)))"

definition world_ok :: "bytes \<Rightarrow> world \<Rightarrow> bool" where
  "world_ok b0 w \<longleftrightarrow> file_ok b0 w \<and> locks_ok w
     \<and> (\<forall>p \<in> set (processes w). process_ok (get_record_count (Some b0)) p)"

definition fresh_process :: "bytes \<Rightarrow> int \<Rightarrow> int \<Rightarrow> bytes \<Rightarrow> session" where
  "fresh_process inp c n junk =
     \<lparr>place = Access, input = inp, choice = c, rec_no = n, menu_rec = junk, rec = junk, rec_wrk = junk, rec_new = junk,
      screen = []\<rparr>"

text \<open>Any number of processes, each with its own input and its own uninitialised variables.\<close>

definition start_world :: "bytes \<Rightarrow> (bytes \<times> int \<times> int \<times> bytes) list \<Rightarrow> world" where
  "start_world b0 ps =
     \<lparr>disk = Some b0, locks = [],
      processes = map (\<lambda>(inp, c, n, junk). fresh_process inp c n (take record_size (junk @ replicate record_size 0))) ps\<rparr>"

lemma world_ok_start: "world_ok b0 (start_world b0 ps)"
  by (auto simp: world_ok_def file_ok_def locks_ok_def start_world_def fresh_process_def process_ok_def at_record_def)

lemma become_fields [simp]:
  "disk (become i p w) = disk w" "locks (become i p w) = locks w" "processes (become i p w) = (processes w)[i := p]"
  by (simp_all add: become_def)

lemma close_fields [simp]:
  "disk (close_file i w) = disk w" "processes (close_file i w) = processes w"
  "set (locks (close_file i w)) = {l \<in> set (locks w). fst l \<noteq> i}"
  by (auto simp: close_file_def)

lemma unlock_fields [simp]:
  "disk (unlock_record i r w) = disk w" "processes (unlock_record i r w) = processes w"
  "set (locks (unlock_record i r w)) = set (locks w) - {(i, r)}"
  by (auto simp: unlock_record_def)

text \<open>
  A step that moves process \<open>i\<close> to a good state \<open>q\<close>, keeps what was on its screen and in the file, and
  leaves no lock of a process that is past the locked region, keeps the invariant.
\<close>

lemma world_ok_move:
  assumes ok: "world_ok b0 w" and i: "i < length (processes w)"
    and w': "processes w' = (processes w)[i := q]" "disk w' = disk w"
    and q: "process_ok (get_record_count (Some b0)) q"
    and scr: "set (screen (processes w ! i)) \<subseteq> set (screen q)"
    and lk: "\<And>j r. (j, r) \<in> set (locks w') \<Longrightarrow> (j, r) \<in> set (locks w) \<and> j \<noteq> i \<or> j = i \<and> holds_lock (place q)"
  shows "world_ok b0 w'"
proof -
  have "saved w' r x" if sv: "saved w r x" for r x
  proof -
    from sv obtain p where "p \<in> set (processes w)" "Saved (int r) x \<in> set (screen p)" by (auto simp: saved_def)
    then obtain k where k: "k < length (processes w)" "Saved (int r) x \<in> set (screen (processes w ! k))"
      by (metis in_set_conv_nth)
    have "Saved (int r) x \<in> set (screen (processes w' ! k))" using k i scr by (cases "k = i") (auto simp: w')
    moreover have "processes w' ! k \<in> set (processes w')" using k(1) by (simp add: w')
    ultimately show ?thesis by (auto simp: saved_def)
  qed
  then have "file_ok b0 w'" using ok w'(2) unfolding world_ok_def file_ok_def by metis
  moreover have "locks_ok w'"
    using ok lk i by (fastforce simp: world_ok_def locks_ok_def w' nth_list_update)
  moreover have "\<forall>p \<in> set (processes w'). process_ok (get_record_count (Some b0)) p"
    using ok q set_update_subset_insert [of "processes w" i q] by (auto simp: world_ok_def w')
  ultimately show ?thesis by (simp add: world_ok_def)
qed

lemma world_ok_become:
  assumes ok: "world_ok b0 w" and i: "i < length (processes w)"
    and q: "process_ok (get_record_count (Some b0)) q" and scr: "set (screen (processes w ! i)) \<subseteq> set (screen q)"
  shows "\<not> holds_lock (place (processes w ! i)) \<Longrightarrow> world_ok b0 (become i q w)"
    and "holds_lock (place q) \<Longrightarrow> world_ok b0 (become i q w)"
    and "world_ok b0 (close_file i (become i q w))"
    and "\<not> holds_lock (place (processes w ! i)) \<Longrightarrow> world_ok b0 (unlock_record i r (become i q w))"
proof -
  have free: "j \<noteq> i" if "\<not> holds_lock (place (processes w ! i))" "(j, r) \<in> set (locks w)" for j r
    using ok that by (auto simp: world_ok_def locks_ok_def)
  show "\<not> holds_lock (place (processes w ! i)) \<Longrightarrow> world_ok b0 (become i q w)"
    using free by (intro world_ok_move [OF ok i _ _ q scr]) auto
  show "holds_lock (place q) \<Longrightarrow> world_ok b0 (become i q w)"
    by (intro world_ok_move [OF ok i _ _ q scr]) auto
  show "world_ok b0 (close_file i (become i q w))"
    by (intro world_ok_move [OF ok i _ _ q scr]) auto
  show "\<not> holds_lock (place (processes w ! i)) \<Longrightarrow> world_ok b0 (unlock_record i r (become i q w))"
    using free by (intro world_ok_move [OF ok i _ _ q scr]) auto
qed

lemma go_to_fields [simp]:
  "place (go_to q p) = q" "input (go_to q p) = input p" "rec_no (go_to q p) = rec_no p" "rec (go_to q p) = rec p"
  "rec_wrk (go_to q p) = rec_wrk p" "rec_new (go_to q p) = rec_new p" "screen (go_to q p) = screen p"
  by (simp_all add: go_to_def)

lemma print_fields [simp]:
  "place (print x p) = place p" "input (print x p) = input p" "rec_no (print x p) = rec_no p" "rec (print x p) = rec p"
  "rec_wrk (print x p) = rec_wrk p" "rec_new (print x p) = rec_new p" "screen (print x p) = screen p @ [x]"
  by (simp_all add: print_def)

lemma world_ok_put:
  assumes ok: "world_ok b0 w" and i: "i < length (processes w)" and pl: "place (processes w ! i) = Put"
  shows "world_ok b0 (put i (processes w ! i) w)"
proof -
  define p where "p = processes w ! i"
  define n where "n = get_record_count (Some b0)"
  obtain b where b: "disk w = Some b" "length b = length b0"
    and recs: "\<And>r. 1 \<le> r \<Longrightarrow> r \<le> n \<Longrightarrow> record_at b r = record_at b0 r \<or> saved w r (record_at b r)"
    using ok by (auto simp: world_ok_def file_ok_def n_def)
  have pok: "process_ok n p" using ok i by (simp add: world_ok_def p_def n_def)
  define r0 where "r0 = nat (rec_no p)"
  have r0: "1 \<le> r0" "r0 \<le> n" "int r0 = rec_no p" and x: "length (rec_wrk p) = record_size"
    using pok pl by (auto simp: process_ok_def at_record_def p_def r0_def)
  have cn: "get_record_count (Some b) = n" using b(2) by (simp add: n_def get_record_count_def)
  define b' where "b' = splice ((r0 - 1) * record_size) (rec_wrk p) b"
  have fit: "r0 - 1 < get_record_count (Some b)" using r0 cn by simp
  have pr: "put_record (Some b) r0 (rec_wrk p) = Some b'" and lb: "length b' = length b"
    using record_fits [OF fit] x by (simp_all add: put_record_def pwrite_splice b'_def)
  define q where "q = go_to Close_put (print (Saved (rec_no p) (rec_wrk p)) p)"
  define w' where "w' = put i p w"
  have w': "disk w' = Some b'" "locks w' = locks w" "processes w' = (processes w)[i := q]"
    using b(1) pr by (simp_all add: w'_def put_def q_def r0_def)
  have keep: "saved w' r y" if sv: "saved w r y" for r y
  proof -
    from sv obtain p' where "p' \<in> set (processes w)" "Saved (int r) y \<in> set (screen p')" by (auto simp: saved_def)
    then obtain k where k: "k < length (processes w)" "Saved (int r) y \<in> set (screen (processes w ! k))"
      by (metis in_set_conv_nth)
    have "Saved (int r) y \<in> set (screen (processes w' ! k))"
      using k by (cases "k = i") (auto simp: w' q_def p_def)
    moreover have "processes w' ! k \<in> set (processes w')" using k(1) by (simp add: w')
    ultimately show ?thesis by (auto simp: saved_def)
  qed
  have "file_ok b0 w'"
    unfolding file_ok_def
  proof (intro exI conjI allI impI)
    show "disk w' = Some b'" "length b' = length b0" using w' lb b by simp_all
    fix r assume r: "1 \<le> r \<and> r \<le> get_record_count (Some b0)"
    then have rn: "r - 1 < get_record_count (Some b)" using cn n_def by auto
    show "record_at b' r = record_at b0 r \<or> saved w' r (record_at b' r)"
    proof (cases "r = r0")
      case True
      have "record_at b' r = rec_wrk p"
        unfolding record_at_block b'_def True using block_splice [OF fit fit count_fits x] by simp
      moreover have "q \<in> set (processes w')" using i by (simp add: w' set_update_memI)
      then have "saved w' r (rec_wrk p)" using True r0(3) unfolding saved_def
        by (intro bexI [of _ q]) (simp_all add: q_def)
      ultimately show ?thesis by simp
    next
      case False
      then have "record_at b' r = record_at b r"
        unfolding record_at_block b'_def using block_splice [OF rn fit count_fits x] r r0(1) by auto
      then show ?thesis using recs [of r] r keep by (auto simp: n_def)
    qed
  qed
  moreover have "locks_ok w'"
    using ok pl i by (fastforce simp: world_ok_def locks_ok_def w' nth_list_update holds_lock_def)
  moreover have "\<forall>p' \<in> set (processes w'). process_ok n p'"
  proof -
    have "process_ok n q" using pok by (simp add: process_ok_def q_def at_record_def)
    then show ?thesis
      using ok set_update_subset_insert [of "processes w" i q] by (auto simp: world_ok_def w' n_def)
  qed
  ultimately show ?thesis by (simp add: world_ok_def w'_def p_def n_def)
qed

lemma world_ok_step:
  assumes ok: "world_ok b0 w" and step: "program_step w i = Some w'"
  shows "world_ok b0 w'"
proof -
  define p where "p = processes w ! i"
  define n where "n = get_record_count (Some b0)"
  have i: "i < length (processes w)" using step by (simp add: program_step_def split: if_splits)
  have pok: "process_ok n p" using ok i by (simp add: world_ok_def p_def n_def)
  note move = world_ok_become [OF ok i, folded p_def n_def]
  obtain b where b: "disk w = Some b" "length b = length b0" using ok by (auto simp: world_ok_def file_ok_def)
  have cn: "get_record_count (disk w) = n" using b by (simp add: n_def get_record_count_def)
  note st = step [unfolded program_step_def Let_def, folded p_def]
  note facts = pok [unfolded process_ok_def]
  show ?thesis
  proof (cases "place p")
    case Access
    then have "w' = become i (go_to Menu p) w" using st i b by (simp add: access_file_def)
    then show ?thesis using Access facts by (auto simp: process_ok_def at_record_def holds_lock_def intro!: move(1))
  next
    case Menu
    obtain c rest where c: "scan_int (input p) (choice p) = (c, rest)" by fastforce
    show ?thesis
    proof (cases "skip_line rest")
      case None
      then have "w' = become i (go_to Hung p) w" using st i Menu c by (simp add: menu_def)
      then show ?thesis using Menu facts by (auto simp: process_ok_def at_record_def holds_lock_def intro!: move(1))
    next
      case (Some rest')
      define q where "q = (let q = p\<lparr>input := rest', choice := c\<rparr> in
          if c = 1 then go_to (List_next 0) q else if c = 2 then go_to Ask_get q else if c = 3 then go_to Ask_modify q
          else if c = 4 then go_to Exited q else go_to Menu (print Bad_choice q))"
      have "w' = become i q w" using st i Menu c Some by (simp add: menu_def Let_def q_def)
      moreover have "process_ok n q" "set (screen p) \<subseteq> set (screen q)"
        using facts by (auto simp: process_ok_def q_def at_record_def Let_def)
      ultimately show ?thesis using Menu by (auto simp: holds_lock_def intro!: move(1))
    qed
  next
    case (List_next k)
    define q where "q = go_to (if k < n then List_read k else Menu) p"
    have "w' = close_file i (become i q w)"
      using List_next st i b(1) cn by (auto simp: list_next_def q_def)
    moreover have "process_ok n q" "set (screen p) \<subseteq> set (screen q)"
      using facts by (auto simp: process_ok_def at_record_def q_def)
    ultimately show ?thesis using move(3) by simp
  next
    case (List_read k)
    define q where "q = go_to (List_next (k + 1)) (if length (record_at b (k + 1)) = record_size
      then print (Listed (k + 1) (record_at b (k + 1))) p else p)"
    have "w' = become i q w" using List_read st i b(1) by (auto simp: list_read_def Let_def q_def)
    moreover have "process_ok n q" "set (screen p) \<subseteq> set (screen q)"
      using facts by (auto simp: process_ok_def at_record_def q_def)
    ultimately show ?thesis using List_read by (auto simp: holds_lock_def intro!: move(1))
  next
    case Show_get
    then show ?thesis using st i facts
      by (auto simp: show_get_def Let_def process_ok_def at_record_def intro!: move(3))
  next
    case Again
    then show ?thesis using st i facts length_get_record
      by (auto simp: again_def Let_def process_ok_def at_record_def holds_lock_def intro!: move(1))
  next
    case Dialog
    show ?thesis
    proof (cases "edit_record (rec_wrk p) (input p)")
      case (Edited mem rest)
      then show ?thesis using st i Dialog facts length_edit_record [OF _ Edited]
        by (auto simp: ask_user_def Let_def process_ok_def at_record_def holds_lock_def intro!: move(1))
    qed (use st i Dialog facts in \<open>auto simp: ask_user_def Let_def process_ok_def at_record_def holds_lock_def intro!: move(1)\<close>)
  next
    case Lock_record
    then obtain w1 where w1: "lock_record i (rec_no p) w = Some w1" "w' = become i (go_to Read_new p) w1"
      using st i by auto
    have w1f: "disk w1 = disk w" "processes w1 = processes w"
      "set (locks w1) \<subseteq> insert (i, rec_no p) (set (locks w))"
      using w1(1) by (auto simp: lock_record_def split: if_splits)
    show ?thesis
    proof (rule world_ok_move [OF ok i, where q = "go_to Read_new p"])
      have free: "j \<noteq> i" if "(j, r) \<in> set (locks w)" for j r
        using ok that Lock_record by (auto simp: world_ok_def locks_ok_def holds_lock_def p_def)
      show "(j, r) \<in> set (locks w') \<Longrightarrow> (j, r) \<in> set (locks w) \<and> j \<noteq> i \<or> j = i \<and> holds_lock (place (go_to Read_new p))" for j r
        using w1(2) w1f(3) free by (auto simp: holds_lock_def)
    qed (use w1(2) w1f facts Lock_record in \<open>auto simp: process_ok_def at_record_def p_def n_def\<close>)
  next
    case Put
    then have "w' = put i p w" using st i by simp
    then show ?thesis using world_ok_put [OF ok i] Put by (simp add: p_def)
  next
    case Ask_get
    obtain c rest where c: "scan_int (input p) (rec_no p) = (c, rest)" by fastforce
    show ?thesis
    proof (cases "skip_line rest")
      case None
      then show ?thesis using st i Ask_get c facts
        by (auto simp: ask_number_def process_ok_def at_record_def holds_lock_def intro!: move(1))
    next
      case (Some rest')
      then show ?thesis using st i Ask_get c facts cn
        by (auto simp: ask_number_def Let_def process_ok_def at_record_def intro!: move(3))
    qed
  next
    case Ask_modify
    obtain c rest where c: "scan_int (input p) (rec_no p) = (c, rest)" by fastforce
    show ?thesis
    proof (cases "skip_line rest")
      case None
      then show ?thesis using st i Ask_modify c facts
        by (auto simp: ask_number_def process_ok_def at_record_def holds_lock_def intro!: move(1))
    next
      case (Some rest')
      then show ?thesis using st i Ask_modify c facts cn
        by (auto simp: ask_number_def Let_def process_ok_def at_record_def intro!: move(3))
    qed
  next
    case Open_modify
    then show ?thesis using st i facts b
      by (auto simp: open_modify_def process_ok_def at_record_def holds_lock_def intro!: move(1))
  next
    case Read_new
    then show ?thesis using st i facts length_get_record
      by (auto simp: read_new_def process_ok_def at_record_def holds_lock_def intro!: move(2))
  next
    case Check_new
    then show ?thesis using st i facts
      by (auto simp: check_new_def process_ok_def at_record_def holds_lock_def intro!: move(1))
  next
    case Check_edit
    then show ?thesis using st i facts
      by (auto simp: check_edit_def process_ok_def at_record_def holds_lock_def intro!: move(1))
  next
    case Unlock_conflict
    then show ?thesis using st i facts
      by (auto simp: unlock_conflict_def process_ok_def at_record_def holds_lock_def intro!: move(4))
  next
    case Unlock_saved
    then show ?thesis using st i facts
      by (auto simp: unlock_saved_def process_ok_def at_record_def holds_lock_def intro!: move(4))
  qed (use st i facts in \<open>auto simp: process_ok_def at_record_def intro!: move(3)\<close>)
qed

interpretation students: invariant_machine program_step "start_world b0 ps" "world_ok b0" for b0 ps
  by unfold_locales (auto intro: world_ok_start world_ok_step)

text \<open>
  C8 Integrity of the student file, with any number of processes and any interleaving: the file keeps
  its size, and every record is the original one or one that some process wrote for that very
  number, whole, never a mixture. The locks do not contribute: a process holds one only between
  locking and the close of the descriptor by which it rereads the record, and none when it writes.
\<close>

theorem students_file_integrity:
  assumes "reachable program_step (start_world b0 ps) w"
  shows "(\<exists>b. disk w = Some b \<and> length b = length b0
      \<and> (\<forall>r. valid_no b0 (int r) \<longrightarrow> record_at b r = record_at b0 r \<or> saved w r (record_at b r)))
    \<and> (\<forall>i r. i < length (processes w) \<and> place (processes w ! i) \<in> {Check_new, Put, Close_put, Unlock_saved}
        \<longrightarrow> (i, r) \<notin> set (locks w))"
proof -
  have ok: "world_ok b0 w" by (rule students.inv_reachable [OF assms])
  then have "\<exists>b. disk w = Some b \<and> length b = length b0
      \<and> (\<forall>r. valid_no b0 (int r) \<longrightarrow> record_at b r = record_at b0 r \<or> saved w r (record_at b r))"
    unfolding world_ok_def file_ok_def valid_no_def by auto
  moreover have "(i, r) \<notin> set (locks w)"
    if "place (processes w ! i) \<in> {Check_new, Put, Close_put, Unlock_saved}" for i r
    using ok that by (auto simp: world_ok_def locks_ok_def holds_lock_def)
  ultimately show ?thesis by blast
qed

section \<open>Lost updates\<close>

lemma run_Cons: "f s a = Some t \<Longrightarrow> run f s (a # as) = run f t as"
  by simp

text \<open>A process alone from the dialog to the check, and from the check to the end of its update.\<close>

lemma check_steps:
  assumes i: "i < length (processes w)" and p: "p = processes w ! i" "place p = Check_edit" "rec_wrk p \<noteq> rec p"
    and free: "locks w = []"
  shows "run program_step w [i, i, i, i] = Some (w\<lparr>processes := (processes w)[i :=
    p\<lparr>rec_new := get_record (disk w) (nat (rec_no p)) (rec_new p), place := Check_new\<rparr>], locks := []\<rparr>)"
  using assms
  by (simp add: program_step_def check_edit_def lock_record_def read_new_def become_def go_to_def close_file_def Let_def)

lemma save_steps:
  assumes i: "i < length (processes w)" and p: "p = processes w ! i" "place p = Check_new" "rec_new p = rec p"
    and free: "locks w = []"
  shows "run program_step w [i, i, i, i] = Some (w\<lparr>disk := put_record (disk w) (nat (rec_no p)) (rec_wrk p),
    processes := (processes w)[i := p\<lparr>screen := screen p @ [Saved (rec_no p) (rec_wrk p), Updated], place := Close_fd\<rparr>],
    locks := []\<rparr>)"
  using assms
  by (simp add: program_step_def check_new_def put_def unlock_saved_def unlock_record_def become_def go_to_def print_def
      close_file_def Let_def)

text \<open>
  Process \<open>i\<close> has asked the user for a new version of record \<open>r\<close>, which it read as it stands in the
  file, and is about to compare; nobody holds a lock.
\<close>

definition edited :: "bytes \<Rightarrow> nat \<Rightarrow> session \<Rightarrow> bool" where
  "edited b r p \<longleftrightarrow> place p = Check_edit \<and> rec_no p = int r \<and> rec p = record_at b r \<and> rec_wrk p \<noteq> rec p
     \<and> length (rec_new p) = record_size \<and> length (rec_wrk p) = record_size"

definition both_edited :: "bytes \<Rightarrow> nat \<Rightarrow> world \<Rightarrow> nat \<Rightarrow> nat \<Rightarrow> bool" where
  "both_edited b r w i j \<longleftrightarrow> i < length (processes w) \<and> j < length (processes w) \<and> i \<noteq> j \<and> locks w = []
     \<and> disk w = Some b \<and> valid_no b (int r) \<and> edited b r (processes w ! i) \<and> edited b r (processes w ! j)"

text \<open>
  C7 A lost update: two processes that have both edited the same unchanged record can both be told
  that it was successfully updated, neither that another process modified it, while the file ends up
  with the second version only.
\<close>

theorem lost_update:
  assumes "both_edited b r w i j"
  shows "\<exists>is w'. run program_step w is = Some w'
    \<and> screen (processes w' ! i) = screen (processes w ! i) @ [Saved (int r) (rec_wrk (processes w ! i)), Updated]
    \<and> screen (processes w' ! j) = screen (processes w ! j) @ [Saved (int r) (rec_wrk (processes w ! j)), Updated]
    \<and> get_record (disk w') r (record_at b r) = rec_wrk (processes w ! j)"
proof -
  define p q where "p = processes w ! i" and "q = processes w ! j"
  from assms have ij: "i < length (processes w)" "j < length (processes w)" "i \<noteq> j"
    and p: "processes w ! i = p" "place p = Check_edit" "rec_wrk p \<noteq> rec p"
    and q: "processes w ! j = q" "place q = Check_edit" "rec_wrk q \<noteq> rec q"
    and d: "disk w = Some b" "valid_no b (int r)" "rec_no p = int r" "rec_no q = int r"
    and same: "rec p = record_at b r" "rec q = record_at b r"
    and sizes: "length (rec_new p) = record_size" "length (rec_new q) = record_size"
      "length (rec_wrk p) = record_size" "length (rec_wrk q) = record_size"
    and free: "locks w = []"
    by (auto simp: both_edited_def edited_def p_def q_def)
  have fit: "r - 1 < get_record_count (Some b)" using d(2) by (auto simp: valid_no_def)
  have g: "get_record (Some b) r (rec_new p) = record_at b r" "get_record (Some b) r (rec_new q) = record_at b r"
    using length_record_at [OF fit] sizes by (simp_all add: get_record_def Let_def)
  define p1 where "p1 = p\<lparr>rec_new := record_at b r, place := Check_new\<rparr>"
  define q1 where "q1 = q\<lparr>rec_new := record_at b r, place := Check_new\<rparr>"
  define w1 where "w1 = w\<lparr>processes := (processes w)[i := p1], locks := []\<rparr>"
  define w2 where "w2 = w1\<lparr>processes := (processes w1)[j := q1], locks := []\<rparr>"
  define w3 where "w3 = w2\<lparr>disk := put_record (disk w) r (rec_wrk p), processes := (processes w2)[i :=
      p1\<lparr>screen := screen p @ [Saved (int r) (rec_wrk p), Updated], place := Close_fd\<rparr>], locks := []\<rparr>"
  define w4 where "w4 = w3\<lparr>disk := put_record (disk w3) r (rec_wrk q), processes := (processes w3)[j :=
      q1\<lparr>screen := screen q @ [Saved (int r) (rec_wrk q), Updated], place := Close_fd\<rparr>], locks := []\<rparr>"
  have 1: "run program_step w [i, i, i, i] = Some w1"
    using check_steps [OF ij(1) p(1) [symmetric] p(2,3) free] d g by (simp add: w1_def p1_def)
  have f1: "j < length (processes w1)" "processes w1 ! j = q" "locks w1 = []" "disk w1 = disk w"
    using ij q free by (simp_all add: w1_def)
  have 2: "run program_step w1 [j, j, j, j] = Some w2"
    using check_steps [OF f1(1) f1(2) [symmetric] q(2,3) f1(3)] d g f1 by (simp add: w2_def q1_def)
  have f2: "i < length (processes w2)" "processes w2 ! i = p1" "locks w2 = []" "disk w2 = disk w"
    using ij f1 by (simp_all add: w2_def w1_def)
  have 3: "run program_step w2 [i, i, i, i] = Some w3"
    using save_steps [OF f2(1) f2(2) [symmetric] _ _ f2(3)] same d f2 by (simp add: w3_def p1_def)
  have f3: "j < length (processes w3)" "processes w3 ! j = q1" "locks w3 = []"
    using ij f1 f2 by (simp_all add: w3_def w2_def)
  have 4: "run program_step w3 [j, j, j, j] = Some w4"
    using save_steps [OF f3(1) f3(2) [symmetric] _ _ f3(3)] same d f3 by (simp add: w4_def q1_def)
  have "run program_step w ([i, i, i, i] @ [j, j, j, j] @ [i, i, i, i] @ [j, j, j, j]) = Some w4"
    unfolding run_append 1 option.case 2 3 4 ..
  moreover have "screen (processes w4 ! i) = screen p @ [Saved (int r) (rec_wrk p), Updated]"
    "screen (processes w4 ! j) = screen q @ [Saved (int r) (rec_wrk q), Updated]"
    "disk w4 = put_record (put_record (disk w) r (rec_wrk p)) r (rec_wrk q)"
    using ij by (simp_all add: w4_def w3_def w2_def w1_def)
  moreover have "get_record (put_record (put_record (disk w) r (rec_wrk p)) r (rec_wrk q)) r (record_at b r) = rec_wrk q"
  proof -
    obtain b1 where b1: "put_record (Some b) r (rec_wrk p) = Some b1" "length b1 = length b"
      using put_get_record_facts [OF d(2,2) sizes(3) length_record_at [OF fit]] by blast
    have "valid_no b1 (int r)" using d(2) b1(2) by (simp add: valid_no_def get_record_count_def)
    then show ?thesis
      using put_get_record_facts [of b1 r r "rec_wrk q" "record_at b r"] sizes(4) length_record_at [OF fit] b1(1) d(1) by simp
  qed
  ultimately show ?thesis unfolding p(1) q(1) by metis
qed

section \<open>A concrete world\<close>

definition one_record :: bytes where
  "one_record = make_record (''Ivanov'', ''Moscow'', 1)"

definition type_in :: "string \<Rightarrow> bytes" where
  "type_in s = map (\<lambda>c. if c = CHR ''/'' then newline else of_char c) s"

definition two_users :: world where
  "two_users = start_world one_record [(type_in ''3/1/A/B/2/4/'', 0, 0, []), (type_in ''3/1/C/D/3/4/'', 0, 0, [])]"

lemma two_users_edit:
  "(case run program_step two_users (replicate 7 0 @ replicate 7 1) of None \<Rightarrow> False
    | Some w \<Rightarrow> both_edited one_record 1 w 0 1)"
  by code_simp

lemma two_users_reach:
  obtains w where "reachable program_step two_users w" "both_edited one_record 1 w 0 1"
proof -
  from two_users_edit obtain w where
    w: "run program_step two_users (replicate 7 0 @ replicate 7 1) = Some w" "both_edited one_record 1 w 0 1"
    by (cases "run program_step two_users (replicate 7 0 @ replicate 7 1)") simp_all
  show thesis by (rule that [OF run_reachable [OF w(1)] w(2)])
qed

lemma lost_update_witness:
  "\<exists>w is w'. reachable program_step two_users w \<and> run program_step w is = Some w'
    \<and> Updated \<in> set (screen (processes w' ! 0)) \<and> Updated \<in> set (screen (processes w' ! 1))
    \<and> get_record (disk w') 1 (record_at one_record 1) = rec_wrk (processes w ! 1)"
proof -
  obtain w where w: "reachable program_step two_users w" "both_edited one_record 1 w 0 1" by (rule two_users_reach)
  from lost_update [OF w(2)] w(1) show ?thesis by fastforce
qed

lemma students_file_integrity_witness:
  "\<exists>w b. reachable program_step two_users w \<and> disk w = Some b \<and> length b = 161"
proof -
  obtain w where w: "reachable program_step two_users w" by (rule two_users_reach)
  have "length one_record = 161" by code_simp
  with students_file_integrity [OF w [unfolded two_users_def]] w show ?thesis by metis
qed

end
