(* ===== verification/Student_Faults.thy ===== *)
theory Student_Faults
  imports Student_Props
begin

text \<open>
  Lab7 when system calls fail: what the branches of the code for a failed \<open>open\<close>, \<open>read\<close>, \<open>write\<close> or
  \<open>fcntl\<close> do, that they never harm a record, and that the user is not told of them.
\<close>

section \<open>Failing calls\<close>

text \<open>
  How the system answers the call a process makes: as it should, or \<open>open\<close> fails, or \<open>read\<close> or \<open>write\<close>
  does after the first \<open>n\<close> bytes of a record, or \<open>fcntl\<close> fails.
\<close>

datatype outcome = Fine | Open_fails | Read_fails nat | Write_fails nat | Fcntl_fails

definition exit_process :: "nat \<Rightarrow> session \<Rightarrow> world \<Rightarrow> world" where
  "exit_process i p w = close_file i (become i (go_to Exited p) w)"

text \<open>\<open>open\<close> fails. \<open>get_record_count\<close> is then 0; nothing is opened, so nothing is closed and no lock lost.\<close>

definition open_fails :: "nat \<Rightarrow> session \<Rightarrow> world \<Rightarrow> world option" where
  "open_fails i p w =
     (let without_file = (\<lambda>f. (f (w\<lparr>disk := None\<rparr>))\<lparr>disk := disk w\<rparr>) in
      case place p of
        Create \<Rightarrow> Some (exit_process i p w)
      | List_next k \<Rightarrow> Some (if k = 0 then become i (go_to Menu p) w else close_file i (become i (go_to Menu p) w))
      | Ask_get \<Rightarrow> Some (without_file (ask_number i p Show_get))
      | Ask_modify \<Rightarrow> Some (without_file (ask_number i p Open_modify))
      | Show_get \<Rightarrow> Some (become i (go_to Menu (print (Got (rec_no p) (menu_rec p)) p)) w)
      | Open_modify \<Rightarrow> Some (without_file (open_modify i p))
      | Again \<Rightarrow> Some (become i (go_to Dialog (p\<lparr>rec_wrk := rec p\<rparr>)) w)
      | Read_new \<Rightarrow> Some (become i (go_to Check_new p) w)
      | Put \<Rightarrow> Some (become i (go_to Unlock_saved p) w)
      | _ \<Rightarrow> None)"

text \<open>
  \<open>read\<close> has filled the first \<open>n\<close> bytes of the variable, which is used all the same, except by
  \<open>list_records\<close>.
\<close>

definition get_short :: "bytes option \<Rightarrow> nat \<Rightarrow> nat \<Rightarrow> bytes \<Rightarrow> bytes" where
  "get_short f num n old = get_record (map_option (take ((num - 1) * record_size + n)) f) num old"

definition read_fails :: "nat \<Rightarrow> nat \<Rightarrow> session \<Rightarrow> world \<Rightarrow> world option" where
  "read_fails n i p w =
     (case place p of
        List_read k \<Rightarrow> Some (become i (go_to (List_next (k + 1)) p) w)
      | Show_get \<Rightarrow>
          (let r = get_short (disk w) (nat (rec_no p)) n (menu_rec p) in
           Some (close_file i (become i (go_to Menu (print (Got (rec_no p) r) (p\<lparr>menu_rec := r\<rparr>))) w)))
      | Again \<Rightarrow>
          (let r = get_short (disk w) (nat (rec_no p)) n (rec p) in
           Some (become i (go_to Close_again (p\<lparr>rec := r, rec_wrk := r\<rparr>)) w))
      | Read_new \<Rightarrow>
          Some (become i (go_to Close_new (p\<lparr>rec_new := get_short (disk w) (nat (rec_no p)) n (rec_new p)\<rparr>)) w)
      | _ \<Rightarrow> None)"

text \<open>\<open>write\<close> has written the first \<open>n\<close> bytes: \<open>init_file\<close> ends the program, \<open>put_record\<close> returns as ever.\<close>

definition put_short :: "bytes option \<Rightarrow> nat \<Rightarrow> nat \<Rightarrow> bytes \<Rightarrow> bytes option" where
  "put_short f num n r = (if n = 0 then f else put_record f num (take n r))"

definition write_fails :: "nat \<Rightarrow> nat \<Rightarrow> session \<Rightarrow> world \<Rightarrow> world option" where
  "write_fails n i p w =
     (case place p of
        Create_write k \<Rightarrow>
          (if k < length initial_records
           then Some (exit_process i p (w\<lparr>disk := put_short (disk w) (k + 1) n (make_record (initial_records ! k))\<rparr>))
           else None)
      | Put \<Rightarrow> Some (become i (go_to Close_put p) (w\<lparr>disk := put_short (disk w) (nat (rec_no p)) n (rec_wrk p)\<rparr>))
      | _ \<Rightarrow> None)"

text \<open>\<open>lock_record\<close> and \<open>unlock_record\<close> end the program.\<close>

definition fcntl_fails :: "nat \<Rightarrow> session \<Rightarrow> world \<Rightarrow> world option" where
  "fcntl_fails i p w =
     (if place p \<in> {Lock_record, Unlock_conflict, Unlock_saved} then Some (exit_process i p w) else None)"

fun failing :: "outcome \<Rightarrow> nat \<Rightarrow> session \<Rightarrow> world \<Rightarrow> world option" where
  "failing Fine i p w = program_step w i"
| "failing Open_fails i p w = open_fails i p w"
| "failing (Read_fails n) i p w = (if n < record_size then read_fails n i p w else None)"
| "failing (Write_fails n) i p w = (if n < record_size then write_fails n i p w else None)"
| "failing Fcntl_fails i p w = fcntl_fails i p w"

definition faulty_step :: "world \<Rightarrow> nat \<times> outcome \<Rightarrow> world option" where
  "faulty_step w a = (if fst a < length (processes w) then failing (snd a) (fst a) (processes w ! fst a) w else None)"

section \<open>What the failures leave alone\<close>

text \<open>
  A process may now keep its lock longer, since a descriptor that was not opened is not closed. So the
  invariant is that of \<open>Student_Props\<close> without its locks, which no other part of a step depends on.
\<close>

definition records_ok :: "bytes \<Rightarrow> world \<Rightarrow> bool" where
  "records_ok b0 w \<longleftrightarrow> world_ok b0 (w\<lparr>locks := []\<rparr>)"

lemma saved_locks [simp]: "saved (w\<lparr>locks := l\<rparr>) = saved w"
  by (simp add: saved_def fun_eq_iff)

lemma saved_disk [simp]: "saved (w\<lparr>disk := d\<rparr>) = saved w"
  by (simp add: saved_def fun_eq_iff)

lemma records_ok_iff:
  "records_ok b0 w \<longleftrightarrow> file_ok b0 w \<and> (\<forall>p \<in> set (processes w). process_ok (get_record_count (Some b0)) p)"
  by (simp add: records_ok_def world_ok_def file_ok_def locks_ok_def)

lemma step_without_locks:
  "program_step w i = Some w' \<Longrightarrow>
     \<exists>v. program_step (w\<lparr>locks := []\<rparr>) i = Some v \<and> disk v = disk w' \<and> processes v = processes w'"
  by (cases "place (processes w ! i)")
    (auto simp: program_step_def Let_def access_file_def create_file_def create_write_def menu_def list_next_def list_read_def ask_number_def
      show_get_def open_modify_def again_def ask_user_def check_edit_def lock_record_def read_new_def check_new_def
      unlock_conflict_def put_def unlock_saved_def become_def close_file_def unlock_record_def
      split: option.splits prod.splits dialog.splits if_splits)

lemma records_ok_move:
  assumes ok: "records_ok b0 w" and i: "i < length (processes w)"
    and w': "processes w' = (processes w)[i := q]" "disk w' = disk w"
    and q: "process_ok (get_record_count (Some b0)) q" and scr: "set (screen (processes w ! i)) \<subseteq> set (screen q)"
  shows "records_ok b0 w'"
  unfolding records_ok_def
  by (rule world_ok_move [OF ok [unfolded records_ok_def], where i = i and q = q]) (use i w' q scr in auto)

lemma length_get_short: "length old = record_size \<Longrightarrow> length (get_short f num n old) = record_size"
  by (simp add: get_short_def length_get_record)

lemma world_disk_same [simp]: "w\<lparr>disk := disk w\<rparr> = (w :: world)"
  by simp

lemma records_ok_program: "records_ok b0 w \<Longrightarrow> program_step w i = Some w' \<Longrightarrow> records_ok b0 w'"
proof -
  assume ok: "records_ok b0 w" and "program_step w i = Some w'"
  then obtain v where v: "program_step (w\<lparr>locks := []\<rparr>) i = Some v" "disk v = disk w'" "processes v = processes w'"
    using step_without_locks by blast
  have "world_ok b0 v" using ok v(1) unfolding records_ok_def by (rule world_ok_step)
  then show ?thesis using v(2,3) by (simp add: records_ok_iff world_ok_def file_ok_def saved_def)
qed

text \<open>The write of a part of a record, the one failure that leaves a record torn.\<close>

fun tears :: "outcome \<Rightarrow> bool" where
  "tears (Write_fails n) = (0 < n)"
| "tears _ = False"

lemma records_ok_failing:
  assumes ok: "records_ok b0 w" and i: "i < length (processes w)"
    and f: "failing f i (processes w ! i) w = Some w'" and t: "\<not> tears f"
  shows "records_ok b0 w'"
proof -
  define p where "p = processes w ! i"
  have pok: "process_ok (get_record_count (Some b0)) p" using ok i by (simp add: records_ok_iff p_def)
  note facts = pok [unfolded process_ok_def]
  note move = records_ok_move [OF ok i, folded p_def]
  have quit: "records_ok b0 (exit_process i p w)"
    by (rule move [where q = "go_to Exited p"]) (use facts in \<open>auto simp: exit_process_def process_ok_def at_record_def\<close>)
  have n0: "put_short d k 0 r = d" for d k r by (simp add: put_short_def)
  show ?thesis
  proof (cases f)
    case Fine
    then show ?thesis using f ok records_ok_program by simp
  next
    case Open_fails
    then have st: "open_fails i p w = Some w'" using f by (simp add: p_def)
    show ?thesis
      using st facts quit
      by (auto simp: open_fails_def ask_number_def open_modify_def process_ok_def at_record_def Let_def get_record_count_def
          split: place.splits option.splits prod.splits if_splits intro!: move)
  next
    case (Read_fails n)
    then have st: "read_fails n i p w = Some w'" using f by (simp add: p_def split: if_splits)
    then show ?thesis using facts
      by (auto simp: read_fails_def process_ok_def at_record_def Let_def length_get_short
          split: place.splits if_splits intro!: move)
  next
    case (Write_fails n)
    then have st: "write_fails 0 i p w = Some w'" using f t by (simp add: p_def split: if_splits)
    then show ?thesis using facts quit
      by (auto simp: write_fails_def process_ok_def at_record_def n0 split: place.splits if_splits intro!: move)
  next
    case Fcntl_fails
    then show ?thesis using f quit by (auto simp: fcntl_fails_def p_def split: if_splits)
  qed
qed

definition sound_step :: "world \<Rightarrow> nat \<times> outcome \<Rightarrow> world option" where
  "sound_step w a = (if tears (snd a) then None else faulty_step w a)"

interpretation failing_students: invariant_machine sound_step "start_world b0 ps" "records_ok b0" for b0 ps
proof unfold_locales
  show "records_ok b0 (start_world b0 ps)" for b0 ps
    using world_ok_start [of b0 ps] by (simp add: records_ok_def world_ok_def file_ok_def locks_ok_def)
  show "records_ok b0 w \<Longrightarrow> sound_step w a = Some w' \<Longrightarrow> records_ok b0 w'" for b0 w a w'
    using records_ok_failing [of b0 w "fst a" "snd a"] by (auto simp: sound_step_def faulty_step_def split: if_splits)
qed

lemma run_fine: "run sound_step w (map (\<lambda>i. (i, Fine)) is) = run program_step w is"
  by (induction "is" arbitrary: w) (auto simp: sound_step_def faulty_step_def program_step_def split: option.split)

lemma unsaved_steps:
  assumes "i < length (processes w)" and "place (processes w ! i) = Put"
  shows "\<exists>w'. run sound_step w [(i, Write_fails 0), (i, Fine), (i, Fine)] = Some w' \<and> disk w' = disk w
      \<and> screen (processes w' ! i) = screen (processes w ! i) @ [Updated]"
    and "\<exists>w'. run sound_step w [(i, Open_fails), (i, Fine)] = Some w' \<and> disk w' = disk w
      \<and> screen (processes w' ! i) = screen (processes w ! i) @ [Updated]"
  using assms
  by (simp_all add: sound_step_def faulty_step_def write_fails_def open_fails_def program_step_def put_short_def unlock_saved_def
      become_def go_to_def print_def close_file_def unlock_record_def record_size_def)

text \<open>
  C10 Failing calls harm no record but are not reported. Whatever calls of any number of processes fail,
  short of a \<open>write\<close> that stops inside a record, the file keeps its size and every record is the original
  one or was saved whole under its number. But \<open>put_record\<close> returns nothing: when its \<open>write\<close> or its \<open>open\<close>
  fails, the file stays as it was and the user is told that the record was successfully updated.
\<close>

theorem failed_write_passes_for_update:
  assumes "reachable sound_step (start_world b0 ps) w"
  shows "(\<exists>b. disk w = Some b \<and> length b = length b0
      \<and> (\<forall>r. valid_no b0 (int r) \<longrightarrow> record_at b r = record_at b0 r \<or> saved w r (record_at b r)))
    \<and> (\<forall>i. i < length (processes w) \<and> place (processes w ! i) = Put \<longrightarrow>
        (\<forall>failure \<in> {[(i, Write_fails 0), (i, Fine), (i, Fine)], [(i, Open_fails), (i, Fine)]}.
          \<exists>w'. run sound_step w failure = Some w' \<and> disk w' = disk w
            \<and> screen (processes w' ! i) = screen (processes w ! i) @ [Updated]))"
proof -
  have "records_ok b0 w" using assms by (rule failing_students.inv_reachable)
  then have "\<exists>b. disk w = Some b \<and> length b = length b0
      \<and> (\<forall>r. valid_no b0 (int r) \<longrightarrow> record_at b r = record_at b0 r \<or> saved w r (record_at b r))"
    unfolding records_ok_iff file_ok_def valid_no_def by auto
  then show ?thesis using unsaved_steps by blast
qed

lemma two_users_put:
  "(case run program_step two_users (replicate 12 0) of None \<Rightarrow> False
    | Some w \<Rightarrow> 0 < length (processes w) \<and> place (processes w ! 0) = Put)"
  by code_simp

lemma failed_write_passes_for_update_witness:
  "\<exists>w w'. reachable sound_step two_users w \<and> run sound_step w [(0, Write_fails 0), (0, Fine), (0, Fine)] = Some w'
    \<and> disk w' = disk w \<and> Updated \<in> set (screen (processes w' ! 0))"
proof -
  from two_users_put obtain w where w: "run program_step two_users (replicate 12 0) = Some w" "0 < length (processes w)"
    "place (processes w ! 0) = Put"
    by (cases "run program_step two_users (replicate 12 0)") simp_all
  have r: "reachable sound_step two_users w" using w(1) by (metis run_fine run_reachable)
  from failed_write_passes_for_update [OF r [unfolded two_users_def]] w(2,3)
  obtain w' where "run sound_step w [(0, Write_fails 0), (0, Fine), (0, Fine)] = Some w'" "disk w' = disk w"
    "screen (processes w' ! 0) = screen (processes w ! 0) @ [Updated]"
    by blast
  with r show ?thesis by (intro exI [of _ w] exI [of _ w']) simp
qed

end
