(* ===== verification/Student_Start.thy ===== *)
theory Student_Start
  imports Student_Props
begin

text \<open>
  How \<open>students.dat\<close> comes about, when the processes of Lab7 are started before it exists.
\<close>

section \<open>init_file\<close>

definition initial_file :: bytes where
  "initial_file = concat (map make_record initial_records)"

lemma initial_record_sizes: "\<forall>r \<in> set initial_records. length (make_record r) = record_size"
  by code_simp

lemma length_initial: "k \<le> length initial_records \<Longrightarrow> length (concat (map make_record (take k initial_records))) = k * record_size"
proof (induction k)
  case (Suc k)
  then have "length (make_record (initial_records ! k)) = record_size" using initial_record_sizes by simp
  then show ?case using Suc by (simp add: take_Suc_conv_app_nth)
qed simp

lemma put_next_record:
  assumes "k < length initial_records"
  shows "put_record (Some (concat (map make_record (take k initial_records)))) (Suc k) (make_record (initial_records ! k))
    = Some (concat (map make_record (take (Suc k) initial_records)))"
  using assms length_initial [of k] by (simp add: put_record_def pwrite_def take_Suc_conv_app_nth)

text \<open>The world \<open>w\<close> when process \<open>j\<close> has written \<open>k\<close> records, and has come to \<open>q\<close>.\<close>

definition filled :: "world \<Rightarrow> nat \<Rightarrow> nat \<Rightarrow> place \<Rightarrow> world" where
  "filled w j k q = w\<lparr>disk := Some (concat (map make_record (take k initial_records))),
     processes := (processes w)[j := go_to q (processes w ! j)]\<rparr>"

lemma filled_step:
  assumes "j < length (processes w)" and "k < length initial_records"
  shows "program_step (filled w j k (Create_write k)) j = Some (filled w j (Suc k) (Create_write (Suc k)))"
  using assms put_next_record [OF assms(2)]
  by (simp add: program_step_def create_write_def filled_def go_to_def become_def)

lemma filled_steps:
  "j < length (processes w) \<Longrightarrow> k \<le> length initial_records \<Longrightarrow>
     run program_step (filled w j 0 (Create_write 0)) (replicate k j) = Some (filled w j k (Create_write k))"
proof (induction k)
  case (Suc k)
  then show ?case using filled_step [of j w k]
    by (simp only: replicate_Suc replicate_append_same [symmetric] run_append) simp
qed simp

lemma init_file_steps:
  assumes j: "j < length (processes w)" and p: "place (processes w ! j) = Create"
  shows "run program_step w (replicate 12 j) = Some (close_file j (filled w j 10 Menu))"
proof -
  have n: "length initial_records = 10" by (simp add: initial_records_def)
  have "run program_step w [j] = Some (filled w j 0 (Create_write 0))"
    using assms by (simp add: program_step_def create_file_def become_def filled_def)
  moreover have "run program_step (filled w j 0 (Create_write 0)) (replicate 10 j) = Some (filled w j 10 (Create_write 10))"
    using filled_steps [OF j, of 10] n by simp
  moreover have "run program_step (filled w j 10 (Create_write 10)) [j] = Some (close_file j (filled w j 10 Menu))"
    using j n by (simp add: program_step_def create_write_def filled_def become_def go_to_def)
  moreover have "replicate 12 j = [j] @ replicate 10 j @ [j]" by (simp add: eval_nat_numeral)
  ultimately show ?thesis by (simp only: run_append option.case)
qed

text \<open>
  C9 The program that starts second erases what the first saved. \<open>main\<close> asks whether the file is there
  and only then creates it, and creating truncates: a process that was before \<open>init_file\<close> when
  another one created the file, however many records were edited since, leaves the ten initial records,
  and no other process learns of it.
\<close>

theorem late_init_erases_updates:
  assumes "j < length (processes w)" and "place (processes w ! j) = Create"
  shows "\<exists>w'. run program_step w (replicate 12 j) = Some w' \<and> disk w' = Some initial_file
    \<and> place (processes w' ! j) = Menu \<and> (\<forall>i. i \<noteq> j \<longrightarrow> processes w' ! i = processes w ! i)"
proof -
  have "take 10 initial_records = initial_records" by (simp add: initial_records_def)
  then show ?thesis using init_file_steps [OF assms] assms(1) by (simp add: filled_def initial_file_def)
qed

section \<open>Two processes and no file\<close>

definition two_starts :: world where
  "two_starts = (start_world [] [(type_in ''3/1/A/B/2/4/'', 0, 0, []), ([], 0, 0, [])])\<lparr>disk := None\<rparr>"

definition ivanov :: bytes where
  "ivanov = make_record (initial_records ! 0)"

lemma typed_choice:
  "scan_int (type_in ''3/1/A/B/2/4/'') 0 = (3, type_in ''/1/A/B/2/4/'')"
  "skip_line (type_in ''/1/A/B/2/4/'') = Some (type_in ''1/A/B/2/4/'')"
  "scan_int (type_in ''1/A/B/2/4/'') 0 = (1, type_in ''/A/B/2/4/'')"
  "skip_line (type_in ''/A/B/2/4/'') = Some (type_in ''A/B/2/4/'')"
  by code_simp+

lemma typed_record: "(case edit_record ivanov (type_in ''A/B/2/4/'') of Edited mem rest \<Rightarrow> mem \<noteq> ivanov | _ \<Rightarrow> False)"
  by code_simp

lemma initial_file_facts:
  "length initial_file = 1610" "record_at initial_file 1 = ivanov" "length ivanov = 161"
proof -
  have t: "take 10 initial_records = initial_records" "0 < length initial_records" by (simp_all add: initial_records_def)
  show "length initial_file = 1610"
    using length_initial [of 10] t by (simp add: initial_file_def initial_records_def record_size_def)
  show l: "length ivanov = 161"
    using initial_record_sizes nth_mem [OF t(2)] by (simp add: ivanov_def record_size_def del: nth_mem)
  have "initial_file = ivanov @ concat (map make_record (tl initial_records))"
    by (simp add: initial_file_def ivanov_def initial_records_def)
  then have "take (length ivanov) initial_file = ivanov" by (metis append_eq_conv_conj)
  then show "record_at initial_file 1 = ivanov" unfolding l by (simp add: record_at_def record_size_def)
qed

lemma two_starts_update:
  "\<exists>w. reachable program_step two_starts w \<and> length (processes w) = 2 \<and> place (processes w ! 1) = Create
    \<and> Updated \<in> set (screen (processes w ! 0)) \<and> disk w \<noteq> Some initial_file"
proof -
  define w0 where "w0 = the (run program_step two_starts [1, 0])"
  have w0: "run program_step two_starts [1, 0] = Some w0" "length (processes w0) = 2" "place (processes w0 ! 0) = Create"
    "place (processes w0 ! 1) = Create" "locks w0 = []" "input (processes w0 ! 0) = type_in ''3/1/A/B/2/4/''"
    "choice (processes w0 ! 0) = 0" "rec_no (processes w0 ! 0) = 0" "length (rec (processes w0 ! 0)) = 161"
    "length (rec_new (processes w0 ! 0)) = 161"
    by (simp_all add: w0_def two_starts_def start_world_def fresh_process_def program_step_def access_file_def become_def
        go_to_def record_size_def)
  define w1 where "w1 = close_file 0 (filled w0 0 10 Menu)"
  have r1: "run program_step w0 (replicate 12 0) = Some w1"
    unfolding w1_def by (rule init_file_steps) (use w0 in simp_all)
  have t: "take 10 initial_records = initial_records" by (simp add: initial_records_def)
  have w1: "disk w1 = Some initial_file" "length (processes w1) = 2" "processes w1 ! 0 = go_to Menu (processes w0 ! 0)"
    "processes w1 ! 1 = processes w0 ! 1" "locks w1 = []"
    using w0 by (simp_all add: w1_def filled_def t initial_file_def close_file_def)
  obtain mem rest where e: "edit_record ivanov (type_in ''A/B/2/4/'') = Edited mem rest" "mem \<noteq> ivanov"
    using typed_record by (auto split: dialog.splits)
  have g: "get_record (Some initial_file) 1 old = ivanov" if "length old = 161" for old
    using that initial_file_facts by (simp add: get_record_def Let_def)
  have c: "get_record_count (Some initial_file) = 10" using initial_file_facts(1) by (simp add: get_record_count_def record_size_def)
  define p where "p = (processes w0 ! 0)\<lparr>choice := 3, rec_no := 1, rec := ivanov,
    screen := screen (processes w0 ! 0) @ [Current ivanov], rec_wrk := mem, input := rest, place := Check_edit\<rparr>"
  define w2 where "w2 = w1\<lparr>locks := [], processes := (processes w1)[0 := p]\<rparr>"
  have six: "replicate 6 (0 :: nat) = [0, 0, 0, 0, 0, 0]" and one: "(1 :: nat) = Suc 0" by (simp_all add: eval_nat_numeral)
  have r2: "run program_step w1 (replicate 6 0) = Some w2"
    unfolding six using w0(6-8) w1 e g [OF w0(9)]
    by (simp add: program_step_def menu_def ask_number_def open_modify_def again_def ask_user_def typed_choice
        go_to_def become_def print_def Let_def c close_file_def w2_def p_def)
  have w2: "0 < length (processes w2)" "processes w2 ! 0 = p" "locks w2 = []" "disk w2 = Some initial_file"
    "length (processes w2) = 2" "processes w2 ! 1 = processes w0 ! 1"
    using w1 by (simp_all add: w2_def)
  have p: "place p = Check_edit" "rec_wrk p \<noteq> rec p" "rec p = ivanov" "rec_no p = 1" "length (rec_new p) = 161" "rec_wrk p = mem"
    using e(2) w0(10) by (simp_all add: p_def)
  define p' where "p' = p\<lparr>rec_new := ivanov, place := Check_new\<rparr>"
  define w3 where "w3 = w2\<lparr>processes := (processes w2)[0 := p'], locks := []\<rparr>"
  have r3: "run program_step w2 [0, 0, 0, 0] = Some w3"
    using check_steps [OF w2(1) w2(2) [symmetric] p(1,2) w2(3)] p(4) g [OF p(5)] w2(4) by (simp add: w3_def p'_def)
  have w3: "0 < length (processes w3)" "processes w3 ! 0 = p'" "locks w3 = []" "disk w3 = Some initial_file"
    "length (processes w3) = 2" "processes w3 ! 1 = processes w0 ! 1"
    using w2 by (simp_all add: w3_def)
  have p': "place p' = Check_new" "rec_new p' = rec p'" "rec_no p' = 1" "rec_wrk p' = mem" "screen p' = screen p"
    using p by (simp_all add: p'_def)
  obtain w4 where r4: "run program_step w3 [0, 0, 0, 0] = Some w4" and w4: "disk w4 = put_record (Some initial_file) 1 mem"
    "processes w4 = (processes w3)[0 := p'\<lparr>screen := screen p' @ [Saved 1 mem, Updated], place := Close_fd\<rparr>]"
    using save_steps [OF w3(1) w3(2) [symmetric] p'(1,2) w3(3)] p' w3(4) by simp
  have "reachable program_step two_starts w4"
    using run_reachable [OF w0(1)] r1 r2 r3 r4 by (blast intro: reachable_run)
  moreover have "disk w4 \<noteq> Some initial_file"
  proof
    assume "disk w4 = Some initial_file"
    then have "get_record (put_record (Some initial_file) 1 mem) 1 ivanov = ivanov" using w4(1) g initial_file_facts(3) by simp
    moreover have "valid_no initial_file (int 1)" using c by (simp add: valid_no_def)
    moreover have "length mem = record_size"
      using length_edit_record [OF _ e(1)] initial_file_facts(3) by (simp add: record_size_def)
    ultimately show False
      using put_get_record_facts [of initial_file 1 1 mem ivanov] initial_file_facts(3) e(2) by (simp add: record_size_def)
  qed
  moreover have "length (processes w4) = 2" "place (processes w4 ! 1) = Create" "Updated \<in> set (screen (processes w4 ! 0))"
    using w4(2) w3 w0(4) by simp_all
  ultimately show ?thesis by blast
qed

lemma late_init_erases_updates_witness:
  "\<exists>w w'. reachable program_step two_starts w \<and> disk w \<noteq> Some initial_file \<and> run program_step w (replicate 12 1) = Some w'
    \<and> disk w' = Some initial_file \<and> Updated \<in> set (screen (processes w' ! 0))"
proof -
  obtain w where w: "reachable program_step two_starts w" "1 < length (processes w)" "place (processes w ! 1) = Create"
    "Updated \<in> set (screen (processes w ! 0))" "disk w \<noteq> Some initial_file"
    using two_starts_update by auto
  obtain w' where w': "run program_step w (replicate 12 1) = Some w'" "disk w' = Some initial_file"
    "\<And>i. i \<noteq> 1 \<Longrightarrow> processes w' ! i = processes w ! i"
    using late_init_erases_updates [OF w(2,3)] by blast
  then have "Updated \<in> set (screen (processes w' ! 0))" using w(4) by simp
  then show ?thesis using w(1,5) w'(1,2) by blast
qed

end
