(* ===== verification/File_Server.thy ===== *)
theory File_Server
  imports Text
begin

text \<open>
  Lab8: the file server and its client. The file system is what \<open>realpath\<close>, \<open>opendir\<close>, \<open>lstat\<close> and
  \<open>readlink\<close> answer; a connection is the sequence of what \<open>read\<close> returns on the socket and of what is
  written to it.
\<close>

section \<open>The file system\<close>

record file_system = directories +
  realpath :: "string \<Rightarrow> string option"
  readlink :: "string \<Rightarrow> string option"

definition MAX_BUFFER :: nat where "MAX_BUFFER = 1024"
definition MAX_PATH :: nat where "MAX_PATH = 256"

section \<open>The commands of the server\<close>

text \<open>The greeting, in UTF-8.\<close>

definition INFO_MESSAGE :: string where
  "INFO_MESSAGE = map char_of [208, 146, 208, 176, 209, 129, 32, 208, 191, 209, 128, 208, 184, 208, 178, 208, 181, 209,
      130, 209, 129, 209, 130, 208, 178, 209, 131, 208, 181, 209, 130, 32, 209, 131, 209, 135,
      208, 181, 208, 177, 208, 189, 209, 139, 208, 185, 32, 209, 129, 208, 181, 209, 128, 208,
      178, 208, 181, 209, 128, 32, 39, 77, 121, 83, 101, 114, 118, 101, 114, 39, 33, (10 :: nat)]"

text \<open>\<open>strtok\<close>: the next token and where the following call goes on.\<close>

definition strtok :: "string \<Rightarrow> string \<Rightarrow> (string \<times> string) option" where
  "strtok delims s =
     (let t = dropWhile (\<lambda>c. c \<in> set delims) s in
      if t = [] then None
      else Some (takeWhile (\<lambda>c. c \<notin> set delims) t, drop 1 (dropWhile (\<lambda>c. c \<notin> set delims) t)))"

definition blanks :: string where
  "blanks = [CHR '' '', line_break]"

text \<open>Both resolved paths go to buffers of \<open>MAX_PATH\<close> bytes; \<open>None\<close> when one is overrun.\<close>

definition is_within_root :: "file_system \<Rightarrow> string \<Rightarrow> string \<Rightarrow> bool option" where
  "is_within_root fs root path =
     (case realpath fs path of
        None \<Rightarrow> Some False
      | Some resolved_path \<Rightarrow>
          (if MAX_PATH \<le> length resolved_path then None
           else
             (case realpath fs root of
                None \<Rightarrow> Some False
              | Some resolved_root \<Rightarrow>
                  (if MAX_PATH \<le> length resolved_root then None
                   else Some (take (length resolved_root) resolved_path = resolved_root)))))"

text \<open>
  One entry of a listing: the text left in \<open>buffer\<close>, which is what is sent. An entry that is no
  directory, file or link leaves the text of the entry before it, at first uninitialised memory. The
  target of a link is looked up relative to the working directory of the server.
\<close>

definition entry_text :: "file_system \<Rightarrow> string \<Rightarrow> string \<Rightarrow> kind \<Rightarrow> string \<Rightarrow> string" where
  "entry_text fs path name k old =
     (case k of
        Directory \<Rightarrow> snprintf MAX_BUFFER (name @ ''/'' @ [line_break])
      | Regular \<Rightarrow> snprintf MAX_BUFFER (name @ [line_break])
      | Link \<Rightarrow>
          (case readlink fs path of
             None \<Rightarrow> snprintf MAX_BUFFER (name @ '' --> [broken]'' @ [line_break])
           | Some target \<Rightarrow>
               (let link_target = take (MAX_PATH - 1) target in
                snprintf MAX_BUFFER (name @ (if lstat fs link_target = Some Link then '' -->> '' else '' --> '')
                  @ link_target @ [line_break])))
      | Other \<Rightarrow> old)"

fun list_entries :: "file_system \<Rightarrow> string \<Rightarrow> string list \<Rightarrow> string \<Rightarrow> string" where
  "list_entries fs dir [] buffer = []"
| "list_entries fs dir (name # names) buffer =
     (if name = ''.'' \<or> name = ''..'' then list_entries fs dir names buffer
      else
        (let full_path = snprintf MAX_PATH (dir @ ''/'' @ name) in
         case lstat fs full_path of
           None \<Rightarrow> list_entries fs dir names buffer
         | Some k \<Rightarrow>
             (let text = entry_text fs full_path name k buffer in text @ list_entries fs dir names text)))"

definition handle_list :: "file_system \<Rightarrow> string \<Rightarrow> string \<Rightarrow> string" where
  "handle_list fs dir junk =
     (case opendir fs dir of
        None \<Rightarrow> ''Error: Cannot open directory'' @ [line_break]
      | Some names \<Rightarrow> list_entries fs dir names junk @ [line_break])"

text \<open>
  The new directory of \<open>CD\<close>. A resolved path of \<open>MAX_PATH\<close> bytes or more overruns its buffer: \<open>None\<close>.
\<close>

definition change_dir :: "file_system \<Rightarrow> string \<Rightarrow> string \<Rightarrow> string \<Rightarrow> string option" where
  "change_dir fs root current dir =
     (let new_dir = snprintf MAX_PATH (if hd dir = CHR ''/'' then root @ dir else current @ ''/'' @ dir) in
      case realpath fs new_dir of
        None \<Rightarrow> Some current
      | Some resolved \<Rightarrow>
          (if MAX_PATH \<le> length resolved then None
           else map_option (\<lambda>inside. if inside then resolved else current) (is_within_root fs root resolved)))"

datatype reaction = Reply string string | Bye string | Overflowed

text \<open>What one \<open>read\<close> of the server leads to: the new directory and what is sent.\<close>

definition react :: "file_system \<Rightarrow> string \<Rightarrow> string \<Rightarrow> string \<Rightarrow> string \<Rightarrow> reaction" where
  "react fs root junk current received =
     (case strtok blanks (cstr received) of
        None \<Rightarrow> Reply current []
      | Some (command, rest) \<Rightarrow>
          (if command = ''ECHO'' then
             (case strtok [line_break] rest of
                Some (text, _) \<Rightarrow> Reply current (text @ [line_break])
              | None \<Rightarrow> Reply current [line_break])
           else if command = ''QUIT'' then Bye (''BYE'' @ [line_break])
           else if command = ''INFO'' then Reply current INFO_MESSAGE
           else if command = ''CD'' then
             (case strtok blanks rest of
                None \<Rightarrow> Reply current []
              | Some (dir, _) \<Rightarrow>
                  (case change_dir fs root current dir of
                     None \<Rightarrow> Overflowed
                   | Some new \<Rightarrow> Reply new [line_break]))
           else if command = ''LIST'' then Reply current (handle_list fs current junk)
           else Reply current (''Unknown command'' @ [line_break])))"

text \<open>
  \<open>handle_client\<close>: each element of the list is what a \<open>read\<close> of at most 1023 bytes returns, the empty
  string the end of the connection. The result is the directory and the replies, and whether the loop
  has ended.
\<close>

record client_session =
  current_dir :: string
  replies :: "string list"
  ended :: bool
  overrun :: bool

definition serve_read :: "file_system \<Rightarrow> string \<Rightarrow> string \<Rightarrow> client_session \<Rightarrow> string \<Rightarrow> client_session" where
  "serve_read fs root junk s received =
     (if ended s then s
      else if received = [] then s\<lparr>ended := True\<rparr>
      else
        (case react fs root junk (current_dir s) (take (MAX_BUFFER - 1) received) of
           Reply dir text \<Rightarrow> s\<lparr>current_dir := dir, replies := replies s @ [text]\<rparr>
         | Bye text \<Rightarrow> s\<lparr>replies := replies s @ [text], ended := True\<rparr>
         | Overflowed \<Rightarrow> s\<lparr>ended := True, overrun := True\<rparr>))"

definition handle_client :: "file_system \<Rightarrow> string \<Rightarrow> string \<Rightarrow> string list \<Rightarrow> client_session" where
  "handle_client fs root junk reads =
     foldl (serve_read fs root junk)
       \<lparr>current_dir = root, replies = [INFO_MESSAGE], ended = False, overrun = False\<rparr> reads"

section \<open>The client\<close>

datatype event = Data string | Timeout | Closed | Failed

text \<open>The test by which the client takes a reply to be complete.\<close>

definition complete_reply :: "string \<Rightarrow> bool" where
  "complete_reply buffer \<longleftrightarrow> line_break \<in> set buffer \<and> (length buffer = 1 \<or> sublist ''BYE'' buffer)"

fun read_server_response :: "event list \<Rightarrow> string \<times> event list" where
  "read_server_response [] = ([], [])"
| "read_server_response (Data received # es) =
     (let buffer = cstr received in
      if complete_reply buffer then (buffer, es)
      else (let (out, rest) = read_server_response es in (buffer @ out, rest)))"
| "read_server_response (_ # es) = ([], es)"

text \<open>
  The lines sent and the text shown, for the events that follow each other on the socket. Empty lines
  are skipped; a line beginning with \<open>@\<close> names a file of commands.
\<close>

fun send_lines :: "string list \<Rightarrow> event list \<Rightarrow> string list \<times> string list \<times> event list" where
  "send_lines [] es = ([], [], es)"
| "send_lines (line # lines) es =
     (if line = [] then send_lines lines es
      else
        (let (shown, es') = read_server_response es; (sent, more, rest) = send_lines lines es'
         in ((line @ [line_break]) # sent, (''> '' @ line @ [line_break]) # shown # more, rest)))"

definition process_file :: "(string \<Rightarrow> string option) \<Rightarrow> string \<Rightarrow> event list \<Rightarrow> string list \<times> string list \<times> event list" where
  "process_file files name es =
     (case files name of
        None \<Rightarrow> ([], [''Cannot open file '' @ name @ [line_break]], es)
      | Some content \<Rightarrow> send_lines (read_lines MAX_BUFFER content) es)"

fun command_loop :: "(string \<Rightarrow> string option) \<Rightarrow> string list \<Rightarrow> event list \<Rightarrow> string list \<times> string list" where
  "command_loop files [] es = ([], [''> ''])"
| "command_loop files (line # lines) es =
     (if line = [] then (case command_loop files lines es of (sent, shown) \<Rightarrow> (sent, ''> '' # shown))
      else if hd line = CHR ''@'' then
        (case process_file files (tl line) es of (sent1, shown1, es') \<Rightarrow>
           (case command_loop files lines es' of (sent2, shown2) \<Rightarrow> (sent1 @ sent2, ''> '' # shown1 @ shown2)))
      else
        (case read_server_response es of (text, es') \<Rightarrow>
           (if take 4 line = ''QUIT'' then ([line @ [line_break]], [''> '', text])
            else (case command_loop files lines es' of (sent, shown) \<Rightarrow>
                    ((line @ [line_break]) # sent, ''> '' # text # shown)))))"

definition client_main :: "(string \<Rightarrow> string option) \<Rightarrow> string \<Rightarrow> event list \<Rightarrow> string list \<times> string list" where
  "client_main files stdin_text es =
     (case read_server_response es of (greeting, es') \<Rightarrow>
        (case command_loop files (read_lines MAX_BUFFER stdin_text) es' of (sent, shown) \<Rightarrow> (sent, greeting # shown)))"

section \<open>Starting the two programs\<close>

text \<open>
  \<open>main\<close> of the server: what the socket calls answer, then what \<open>accept\<close> brings. A connection comes with
  whether its thread could be created; \<open>Interrupt\<close> is SIGINT, which closes the listening socket.
\<close>

record network =
  socket_ok :: bool
  option_ok :: bool
  bind_ok :: bool
  listen_ok :: bool

datatype arrival = Connection bool | Accept_error | Interrupt

record server_run =
  running :: bool
  served :: nat
  dropped :: nat
  wild_detach :: bool
  server_log :: "string list"

text \<open>The thread of a connection that could not be created is detached all the same.\<close>

fun accept_loop :: "arrival list \<Rightarrow> server_run \<Rightarrow> server_run" where
  "accept_loop [] s = s"
| "accept_loop (Interrupt # as) s = s\<lparr>running := False, server_log := server_log s @ [''Server shutting down'']\<rparr>"
| "accept_loop (Accept_error # as) s = accept_loop as s"
| "accept_loop (Connection created # as) s =
     accept_loop as
       (if created then s\<lparr>served := served s + 1, server_log := server_log s @ [''New client connected'']\<rparr>
        else s\<lparr>dropped := dropped s + 1, wild_detach := True, server_log := server_log s @ [''New client connected'']\<rparr>)"

datatype start_up = Exit_failure string | Root_overrun | Serving string "16 word" server_run

definition server_main :: "network \<Rightarrow> string list \<Rightarrow> arrival list \<Rightarrow> start_up" where
  "server_main net argv as =
     (if length argv \<noteq> 3 then Exit_failure ''Usage''
      else if MAX_PATH \<le> length (argv ! 1) then Root_overrun
      else if \<not> socket_ok net then Exit_failure ''socket''
      else if \<not> option_ok net then Exit_failure ''setsockopt''
      else if \<not> bind_ok net then Exit_failure ''bind''
      else if \<not> listen_ok net then Exit_failure ''listen''
      else Serving (argv ! 1) (word_of_int (atoi (argv ! 2)))
             (accept_loop as \<lparr>running = True, served = 0, dropped = 0, wild_detach = False,
                server_log = [''Server started'']\<rparr>))"

text \<open>
  \<open>main\<close> of the client up to its first \<open>read\<close>. With more than two arguments the port is the
  default one, whatever the second argument says.
\<close>

definition DEFAULT_PORT :: "16 word" where "DEFAULT_PORT = 8080"

datatype connect_result = Connected | In_progress | Connect_error

record client_network =
  can_socket :: bool
  inet_pton :: "string \<Rightarrow> bool"
  connect :: "string \<Rightarrow> 16 word \<Rightarrow> connect_result"
  writable_in_time :: bool
  so_error :: nat

definition open_connection :: "client_network \<Rightarrow> string list \<Rightarrow> string + (string \<times> 16 word)" where
  "open_connection net argv =
     (if length argv < 2 then Inl ''Usage''
      else
        (let port = (if length argv = 3 then word_of_int (atoi (argv ! 2)) else DEFAULT_PORT) in
         if \<not> can_socket net then Inl ''socket''
         else if \<not> inet_pton net (argv ! 1) then Inl ''Invalid address''
         else
           (case connect net (argv ! 1) port of
              Connected \<Rightarrow> Inr (argv ! 1, port)
            | Connect_error \<Rightarrow> Inl ''connect''
            | In_progress \<Rightarrow>
                (if writable_in_time net
                 then (if so_error net \<noteq> 0 then Inl ''connect failed'' else Inr (argv ! 1, port))
                 else Inl ''connect timeout''))))"

definition client_program ::
    "client_network \<Rightarrow> (string \<Rightarrow> string option) \<Rightarrow> string list \<Rightarrow> string \<Rightarrow> event list \<Rightarrow> nat \<times> string list \<times> string list" where
  "client_program net files argv stdin_text es =
     (case open_connection net argv of
        Inl message \<Rightarrow> (1, [], [message])
      | Inr _ \<Rightarrow> (case client_main files stdin_text es of (sent, shown) \<Rightarrow> (0, sent, shown)))"

end
