(* ===== verification/File_Server_Threads.thy ===== *)
theory File_Server_Threads
  imports File_Server
begin

text \<open>
  The threads of the server of Lab8 side by side. Every connection is served by a thread of its own with
  its own buffer, but \<open>strtok\<close> keeps the place where its next call goes on in one variable for all of
  them. A step is a call: \<open>read\<close>, the first \<open>strtok\<close>, the second one, and the answer. What another thread
  does can fall between any two of them. The time stamps of the log come with the steps.
\<close>

section \<open>The log\<close>

record broken_time =
  tm_year :: nat
  tm_mon :: nat
  tm_mday :: nat
  tm_hour :: nat
  tm_min :: nat
  tm_sec :: nat
  tv_nsec :: nat

text \<open>\<open>%0wd\<close>\<close>

definition padded :: "nat \<Rightarrow> nat \<Rightarrow> string" where
  "padded w n = replicate (w - length (decimal n)) CHR ''0'' @ decimal n"

definition get_timestamp :: "broken_time \<Rightarrow> string" where
  "get_timestamp tm =
     snprintf 32
       (padded 4 (tm_year tm + 1900) @ ''.'' @ padded 2 (tm_mon tm + 1) @ ''.'' @ padded 2 (tm_mday tm) @ ''-''
         @ padded 2 (tm_hour tm) @ '':'' @ padded 2 (tm_min tm) @ '':'' @ padded 2 (tm_sec tm) @ ''.''
         @ padded 3 (tv_nsec tm div 1000000))"

definition log_line :: "broken_time \<Rightarrow> string \<Rightarrow> string" where
  "log_line tm message = get_timestamp tm @ '' '' @ message @ [line_break]"

section \<open>strtok on a buffer\<close>

text \<open>
  Where the token begins, the buffer with its end marked, and the place for the next call.
\<close>

definition strtok_at :: "string \<Rightarrow> string \<Rightarrow> nat \<Rightarrow> nat option \<times> string \<times> nat" where
  "strtok_at delims buf from =
     (let s = cstr (drop from buf);
          start = length (takeWhile (\<lambda>c. c \<in> set delims) s);
          len = length (takeWhile (\<lambda>c. c \<notin> set delims) (drop start s)) in
      if start = length s then (None, buf, from + start)
      else if start + len = length s then (Some (from + start), buf, from + start + len)
      else (Some (from + start), buf[from + start + len := CHR 0x00], from + start + len + 1))"

section \<open>State\<close>

text \<open>
  Where a thread is: at \<open>read\<close>, at the first \<open>strtok\<close>, at the second for \<open>ECHO\<close> and \<open>CD\<close>, or with the command
  and a pointer to its argument (the thread whose buffer it is in, and the place) at the answer.
\<close>

datatype server_pc = At_read | At_parse | At_argument string | At_answer string "(nat \<times> nat) option" | At_end

record server_threads =
  sessions :: "client_session list"
  pcs :: "server_pc list"
  buffers :: "string list"
  saved :: "nat \<times> nat"
  log :: "string list"
  received :: "string list list"
  crashed :: bool

text \<open>\<open>received\<close> is what the \<open>read\<close>s of each thread returned so far.\<close>

definition start_server :: "string \<Rightarrow> string list \<Rightarrow> server_threads" where
  "start_server root junks =
     \<lparr>sessions = map (\<lambda>_. \<lparr>current_dir = root, replies = [INFO_MESSAGE], ended = False, overrun = False\<rparr>) junks,
      pcs = map (\<lambda>_. At_read) junks, buffers = junks, saved = (0, 0), log = [], received = map (\<lambda>_. []) junks,
      crashed = False\<rparr>"

section \<open>Steps of a thread\<close>

definition respond :: "reaction \<Rightarrow> client_session \<Rightarrow> client_session" where
  "respond r s =
     (case r of
        Reply dir text \<Rightarrow> s\<lparr>current_dir := dir, replies := replies s @ [text]\<rparr>
      | Bye text \<Rightarrow> s\<lparr>replies := replies s @ [text], ended := True\<rparr>
      | Overflowed \<Rightarrow> s\<lparr>ended := True, overrun := True\<rparr>)"

definition answer :: "file_system \<Rightarrow> string \<Rightarrow> string \<Rightarrow> string \<Rightarrow> string \<Rightarrow> string option \<Rightarrow> reaction" where
  "answer fs root junk current command arg =
     (if command = ''ECHO'' then Reply current ((case arg of Some text \<Rightarrow> text | None \<Rightarrow> []) @ [line_break])
      else if command = ''QUIT'' then Bye (''BYE'' @ [line_break])
      else if command = ''INFO'' then Reply current INFO_MESSAGE
      else if command = ''CD'' then
        (case arg of
           None \<Rightarrow> Reply current []
         | Some dir \<Rightarrow> (case change_dir fs root current dir of None \<Rightarrow> Overflowed | Some new \<Rightarrow> Reply new [line_break]))
      else if command = ''LIST'' then Reply current (handle_list fs current junk)
      else Reply current (''Unknown command'' @ [line_break]))"

definition argument_delims :: "string \<Rightarrow> string" where
  "argument_delims command = (if command = ''ECHO'' then [line_break] else blanks)"

definition move_to :: "nat \<Rightarrow> server_pc \<Rightarrow> server_threads \<Rightarrow> server_threads" where
  "move_to i p w = w\<lparr>pcs := (pcs w)[i := p]\<rparr>"

definition update_session :: "nat \<Rightarrow> client_session \<Rightarrow> server_threads \<Rightarrow> server_threads" where
  "update_session i s w = w\<lparr>sessions := (sessions w)[i := s]\<rparr>"

text \<open>Back to \<open>read\<close>, or out of the loop.\<close>

definition loop_or_leave :: "broken_time \<Rightarrow> nat \<Rightarrow> client_session \<Rightarrow> server_threads \<Rightarrow> server_threads" where
  "loop_or_leave tm i s w =
     (let v = update_session i s w in
      if ended s then move_to i At_end (v\<lparr>log := log v @ [log_line tm ''Client disconnected'']\<rparr>) else move_to i At_read v)"

definition store_read :: "string \<Rightarrow> string \<Rightarrow> string" where
  "store_read data old = (let text = take (MAX_BUFFER - 1) data in text @ [CHR 0x00] @ drop (length text + 1) old)"

definition do_read :: "broken_time \<Rightarrow> nat \<Rightarrow> string \<Rightarrow> server_threads \<Rightarrow> server_threads" where
  "do_read tm i data w =
     (let v = w\<lparr>received := (received w)[i := received w ! i @ [data]]\<rparr> in
      if data = [] then loop_or_leave tm i ((sessions w ! i)\<lparr>ended := True\<rparr>) v
      else move_to i At_parse (v\<lparr>buffers := (buffers w)[i := store_read data (buffers w ! i)]\<rparr>))"

definition do_parse :: "broken_time \<Rightarrow> nat \<Rightarrow> server_threads \<Rightarrow> server_threads" where
  "do_parse tm i w =
     (case strtok_at blanks (buffers w ! i) 0 of (token, buf, next) \<Rightarrow>
        (let v = w\<lparr>buffers := (buffers w)[i := buf], saved := (i, next)\<rparr> in
         case token of
           None \<Rightarrow> loop_or_leave tm i (respond (Reply (current_dir (sessions w ! i)) []) (sessions w ! i)) v
         | Some start \<Rightarrow>
             (let command = cstr (drop start buf);
                  u = v\<lparr>log := log v @ [log_line tm (snprintf MAX_BUFFER (''Received command: '' @ command))]\<rparr> in
              move_to i (if command = ''ECHO'' \<or> command = ''CD'' then At_argument command else At_answer command None) u)))"

text \<open>A pointer into the buffer of a thread that has ended is to memory that is no longer there.\<close>

definition do_argument :: "nat \<Rightarrow> string \<Rightarrow> server_threads \<Rightarrow> server_threads" where
  "do_argument i command w =
     (case saved w of (j, from) \<Rightarrow>
        (if pcs w ! j = At_end then w\<lparr>crashed := True\<rparr>
         else
           (case strtok_at (argument_delims command) (buffers w ! j) from of (token, buf, next) \<Rightarrow>
              move_to i (At_answer command (map_option (\<lambda>start. (j, start)) token))
                (w\<lparr>buffers := (buffers w)[j := buf], saved := (j, next)\<rparr>))))"

definition do_answer ::
    "file_system \<Rightarrow> string \<Rightarrow> string \<Rightarrow> broken_time \<Rightarrow> nat \<Rightarrow> string \<Rightarrow> (nat \<times> nat) option \<Rightarrow> server_threads \<Rightarrow> server_threads" where
  "do_answer fs root junk tm i command pointer w =
     (if (case pointer of None \<Rightarrow> False | Some (j, start) \<Rightarrow> pcs w ! j = At_end) then w\<lparr>crashed := True\<rparr>
      else
        (let arg = map_option (\<lambda>(j, start). cstr (drop start (buffers w ! j))) pointer in
         loop_or_leave tm i (respond (answer fs root junk (current_dir (sessions w ! i)) command arg) (sessions w ! i)) w))"

text \<open>
  \<open>Broken_pipe\<close> is a write to a client that has closed its connection: SIGPIPE, which nobody handles, ends
  the process with all its threads. Only \<open>CD\<close> without an argument writes nothing.
\<close>

datatype server_action = Receive nat string broken_time | Go nat broken_time | Broken_pipe nat

definition writes :: "server_pc \<Rightarrow> bool" where
  "writes p = (case p of At_answer command pointer \<Rightarrow> command \<noteq> ''CD'' \<or> pointer \<noteq> None | _ \<Rightarrow> False)"

definition server_step :: "file_system \<Rightarrow> string \<Rightarrow> string \<Rightarrow> server_threads \<Rightarrow> server_action \<Rightarrow> server_threads option" where
  "server_step fs root junk w a =
     (case a of
        Receive i data tm \<Rightarrow>
          (if i < length (pcs w) \<and> \<not> crashed w \<and> pcs w ! i = At_read then Some (do_read tm i data w) else None)
      | Go i tm \<Rightarrow>
          (if i < length (pcs w) \<and> \<not> crashed w
           then
             (case pcs w ! i of
                At_parse \<Rightarrow> Some (do_parse tm i w)
              | At_argument command \<Rightarrow> Some (do_argument i command w)
              | At_answer command pointer \<Rightarrow> Some (do_answer fs root junk tm i command pointer w)
              | _ \<Rightarrow> None)
           else None)
      | Broken_pipe i \<Rightarrow>
          (if i < length (pcs w) \<and> \<not> crashed w \<and> writes (pcs w ! i) then Some (w\<lparr>crashed := True\<rparr>) else None))"

end
