(* ===== verification/File_Server_Props.thy ===== *)
theory File_Server_Props
  imports File_Server
begin

text \<open>
  What the server of Lab8 lets a client do: where \<open>CD\<close> can lead, which commands get no answer, what a
  listing shows, and how a reply reaches the client.
\<close>

section \<open>Where CD leads\<close>

text \<open>What \<open>realpath\<close> promises: the path it returns is its own resolution.\<close>

definition resolves :: "file_system \<Rightarrow> bool" where
  "resolves fs \<longleftrightarrow> (\<forall>p r. realpath fs p = Some r \<longrightarrow> realpath fs r = Some r)"

definition below :: "string \<Rightarrow> string \<Rightarrow> bool" where
  "below root_path p \<longleftrightarrow> take (length root_path) p = root_path"

lemma is_within_root_iff:
  assumes "resolves fs" and "realpath fs root = Some R" and "realpath fs p = Some r"
  shows "is_within_root fs root r = (if MAX_PATH \<le> length r \<or> MAX_PATH \<le> length R then None else Some (below R r))"
  using assms by (auto simp: is_within_root_def below_def resolves_def)

lemma change_dir_below:
  assumes "resolves fs" and "realpath fs root = Some R" and "change_dir fs root cur dir = Some new"
  shows "new = cur \<or> below R new"
  using assms is_within_root_iff [OF assms(1,2)]
  by (auto simp: change_dir_def Let_def split: option.splits if_splits)

lemma react_below:
  assumes "resolves fs" and "realpath fs root = Some R" and "react fs root junk cur received = Reply new text"
  shows "new = cur \<or> below R new"
  using assms(3) change_dir_below [OF assms(1,2)]
  by (auto simp: react_def split: option.splits if_splits prod.splits)

lemma serve_read_below:
  assumes "resolves fs" and "realpath fs root = Some R"
    and "current_dir s = root \<or> below R (current_dir s)"
  shows "current_dir (serve_read fs root junk s received) = root \<or> below R (current_dir (serve_read fs root junk s received))"
  using assms(3) react_below [OF assms(1,2)]
  by (auto simp: serve_read_def split: reaction.splits) metis+

text \<open>
  C17 Where a client can get: whatever it sends, the directory of its session is the root as the server
  was given it or a resolved path that has the resolved root as a prefix, character by character. It
  is no more than that: a directory beside the root whose name only continues the name of the root,
  such as \<open>/srv/data2\<close> for the root \<open>/srv/data\<close>, is reached by one \<open>CD\<close>.
\<close>

theorem server_confines_by_prefix:
  assumes "resolves fs" and "realpath fs root = Some R"
  shows "(current_dir (handle_client fs root junk reads) = root \<or> below R (current_dir (handle_client fs root junk reads)))
    \<and> (\<forall>name extra. name \<noteq> [] \<and> (\<forall>c \<in> set name. c \<notin> set blanks \<and> (of_char c :: nat) \<noteq> 0) \<and> length root + length name < 250
        \<and> length (R @ extra) < MAX_PATH \<and> realpath fs (root @ ''/../'' @ name) = Some (R @ extra)
        \<longrightarrow> current_dir (handle_client fs root junk [''CD ../'' @ name @ [line_break]]) = R @ extra)"
proof (intro conjI allI impI)
  have "current_dir (foldl (serve_read fs root junk) s reads) = root \<or> below R (current_dir (foldl (serve_read fs root junk) s reads))"
    if "current_dir s = root \<or> below R (current_dir s)" for s
    using that
  proof (induction reads arbitrary: s)
    case (Cons r rs)
    then show ?case using serve_read_below [OF assms Cons.prems] by simp
  qed simp
  then show "current_dir (handle_client fs root junk reads) = root \<or> below R (current_dir (handle_client fs root junk reads))"
    by (simp add: handle_client_def)
next
  fix name extra
  assume h: "name \<noteq> [] \<and> (\<forall>c \<in> set name. c \<notin> set blanks \<and> (of_char c :: nat) \<noteq> 0) \<and> length root + length name < 250
        \<and> length (R @ extra) < MAX_PATH \<and> realpath fs (root @ ''/../'' @ name) = Some (R @ extra)"
  define dir where "dir = ''../'' @ name"
  have nb: "\<forall>c \<in> set dir. c \<notin> set blanks" and nz: "\<forall>c \<in> set dir. (of_char c :: nat) \<noteq> 0"
    using h by (auto simp: dir_def blanks_def line_break_def)
  define msg where "msg = ''CD '' @ dir @ [line_break]"
  have "length name < 250" using h by linarith
  then have short: "take (MAX_BUFFER - 1) msg = msg" by (intro take_all) (simp add: msg_def dir_def MAX_BUFFER_def)
  have cs: "cstr msg = msg"
    using nz by (auto simp: cstr_def takeWhile_eq_all_conv msg_def line_break_def)
  have t1: "strtok blanks msg = Some (''CD'', dir @ [line_break])"
    by (simp add: strtok_def msg_def blanks_def line_break_def)
  have "takeWhile (\<lambda>c. c \<notin> set blanks) (dir @ [line_break]) = dir"
    using nb by (simp add: takeWhile_append2 blanks_def)
  moreover have "dropWhile (\<lambda>c. c \<in> set blanks) (dir @ [line_break]) = dir @ [line_break]"
    by (simp add: dir_def blanks_def line_break_def)
  ultimately have t2: "\<exists>r. strtok blanks (dir @ [line_break]) = Some (dir, r)" by (simp add: strtok_def)
  have "snprintf MAX_PATH (root @ ''/'' @ dir) = root @ ''/'' @ dir" using h by (simp add: dir_def MAX_PATH_def)
  then have "change_dir fs root root dir = Some (R @ extra)"
    using h is_within_root_iff [OF assms, of "root @ ''/../'' @ name"]
    by (simp add: change_dir_def dir_def below_def)
  then have "react fs root junk root msg = Reply (R @ extra) [line_break]"
    using t1 t2 by (auto simp: react_def cs)
  then show "current_dir (handle_client fs root junk [''CD ../'' @ name @ [line_break]]) = R @ extra"
    using short by (simp add: handle_client_def serve_read_def msg_def dir_def)
qed

section \<open>Commands without an answer\<close>

text \<open>
  The server answers every command but one: a read gets an empty reply exactly when it holds no
  command at all, or the command is \<open>CD\<close> without an argument, for which the client then waits in vain.
\<close>

theorem silent_commands:
  "(\<exists>d. react fs root junk cur received = Reply d []) \<longleftrightarrow>
     strtok blanks (cstr received) = None
     \<or> (\<exists>rest. strtok blanks (cstr received) = Some (''CD'', rest) \<and> strtok blanks rest = None)"
proof -
  have "INFO_MESSAGE \<noteq> []" by (simp add: INFO_MESSAGE_def)
  moreover have "handle_list fs cur junk \<noteq> []" by (simp add: handle_list_def split: option.split)
  ultimately show ?thesis by (auto simp: react_def split: option.splits prod.splits)
qed

section \<open>Listings\<close>

text \<open>The entries of a directory that the listing shows, with their kinds.\<close>

definition shown_entries :: "file_system \<Rightarrow> string \<Rightarrow> string list \<Rightarrow> (string \<times> kind) list" where
  "shown_entries fs dir names =
     map (\<lambda>n. (n, the (lstat fs (snprintf MAX_PATH (dir @ ''/'' @ n)))))
       (filter (\<lambda>n. n \<noteq> ''.'' \<and> n \<noteq> ''..'' \<and> lstat fs (snprintf MAX_PATH (dir @ ''/'' @ n)) \<noteq> None) names)"

lemma list_entries_lines:
  assumes "\<forall>(n, k) \<in> set (shown_entries fs dir names). k \<noteq> Other"
  shows "list_entries fs dir names buffer
    = concat (map (\<lambda>(n, k). entry_text fs (snprintf MAX_PATH (dir @ ''/'' @ n)) n k []) (shown_entries fs dir names))"
  using assms
proof (induction names arbitrary: buffer)
  case (Cons n names)
  have e: "k \<noteq> Other \<Longrightarrow> entry_text fs p n k b = entry_text fs p n k []" for p k b
    by (cases k) (simp_all add: entry_text_def)
  show ?case
  proof (cases "n = ''.'' \<or> n = ''..'' \<or> lstat fs (snprintf MAX_PATH (dir @ ''/'' @ n)) = None")
    case True
    then show ?thesis using Cons by (auto simp: shown_entries_def Let_def)
  next
    case False
    then obtain k where k: "lstat fs (snprintf MAX_PATH (dir @ ''/'' @ n)) = Some k" by auto
    then have "k \<noteq> Other" using Cons.prems False by (auto simp: shown_entries_def)
    moreover have "\<forall>(n, k) \<in> set (shown_entries fs dir names). k \<noteq> Other" using Cons.prems by (auto simp: shown_entries_def)
    ultimately show ?thesis using Cons.IH False k e [of k] by (simp add: shown_entries_def Let_def)
  qed
qed (simp add: shown_entries_def)

text \<open>
  A listing of a directory that holds only directories, files and links is one line for each entry
  that \<open>lstat\<close> finds, in the order of \<open>readdir\<close>, whatever was in the buffer before, and an empty line. With
  another kind of entry, such as a socket, the line of the entry before it is repeated.
\<close>

theorem listing_shows_entries:
  assumes "opendir fs dir = Some names"
  shows "((\<forall>(n, k) \<in> set (shown_entries fs dir names). k \<noteq> Other) \<longrightarrow>
      handle_list fs dir junk
        = concat (map (\<lambda>(n, k). entry_text fs (snprintf MAX_PATH (dir @ ''/'' @ n)) n k []) (shown_entries fs dir names)) @ [line_break])
    \<and> (\<forall>a b. names = [a, b] \<and> shown_entries fs dir names = [(a, Regular), (b, Other)] \<longrightarrow>
      handle_list fs dir junk = snprintf MAX_BUFFER (a @ [line_break]) @ snprintf MAX_BUFFER (a @ [line_break]) @ [line_break])"
proof (intro conjI impI allI)
  assume "\<forall>(n, k) \<in> set (shown_entries fs dir names). k \<noteq> Other"
  then show "handle_list fs dir junk = concat (map (\<lambda>(n, k). entry_text fs (snprintf MAX_PATH (dir @ ''/'' @ n)) n k [])
      (shown_entries fs dir names)) @ [line_break]"
    using assms list_entries_lines by (simp add: handle_list_def)
next
  fix a b assume h: "names = [a, b] \<and> shown_entries fs dir names = [(a, Regular), (b, Other)]"
  then have "a \<noteq> ''.'' \<and> a \<noteq> ''..'' \<and> lstat fs (snprintf MAX_PATH (dir @ ''/'' @ a)) = Some Regular"
    "b \<noteq> ''.'' \<and> b \<noteq> ''..'' \<and> lstat fs (snprintf MAX_PATH (dir @ ''/'' @ b)) = Some Other"
    by (auto simp: shown_entries_def split: if_splits)
  then show "handle_list fs dir junk = snprintf MAX_BUFFER (a @ [line_break]) @ snprintf MAX_BUFFER (a @ [line_break]) @ [line_break]"
    using assms h by (simp add: handle_list_def entry_text_def Let_def)
qed

section \<open>Replies on their way to the client\<close>

text \<open>
  An echo arrives: for a text without line breaks and zero bytes the server sends the text and a
  line break, and a client that gets it shows just that. It takes the reply for complete, though,
  only when the text contains \<open>BYE\<close>; otherwise it reads on, until its time-out, if the server is quiet.
\<close>

theorem echo_reaches_client:
  assumes "text \<noteq> []" and "\<forall>c \<in> set text. c \<noteq> line_break \<and> (of_char c :: nat) \<noteq> 0" and "length text < 1000"
  shows "replies (handle_client fs root junk [''ECHO '' @ text @ [line_break]]) = [INFO_MESSAGE, text @ [line_break]]
    \<and> read_server_response (Data (text @ [line_break]) # Timeout # es)
      = (text @ [line_break], if sublist ''BYE'' (text @ [line_break]) then Timeout # es else es)"
proof -
  define msg where "msg = ''ECHO '' @ text @ [line_break]"
  have short: "take (MAX_BUFFER - 1) msg = msg" using assms(3) by (simp add: msg_def MAX_BUFFER_def)
  have cs: "cstr msg = msg" using assms(2) by (auto simp: cstr_def takeWhile_eq_all_conv msg_def line_break_def)
  have t1: "strtok blanks msg = Some (''ECHO'', text @ [line_break])"
    by (simp add: strtok_def msg_def blanks_def line_break_def)
  have "dropWhile (\<lambda>c. c \<in> set [line_break]) (text @ [line_break]) = text @ [line_break]"
    using assms(1,2) by (cases "text") auto
  moreover have "takeWhile (\<lambda>c. c \<notin> set [line_break]) (text @ [line_break]) = text"
    using assms(2) by (simp add: takeWhile_append2)
  ultimately have "\<exists>r. strtok [line_break] (text @ [line_break]) = Some (text, r)" by (simp add: strtok_def)
  then have "react fs root junk root msg = Reply root (text @ [line_break])" using t1 by (auto simp: react_def cs)
  then have "replies (handle_client fs root junk [msg]) = [INFO_MESSAGE, text @ [line_break]]"
    using short by (simp add: handle_client_def serve_read_def msg_def)
  moreover have "cstr (text @ [line_break]) = text @ [line_break]"
    using assms(2) by (auto simp: cstr_def takeWhile_eq_all_conv line_break_def)
  ultimately show ?thesis using assms(1) by (simp add: msg_def complete_reply_def Let_def)
qed

section \<open>Concrete file systems\<close>

definition small_fs :: file_system where
  "small_fs = \<lparr>opendir = \<lambda>p. Some [''a'', ''s''],
     lstat = \<lambda>p. if p = ''/srv/a'' then Some Regular else if p = ''/srv/s'' then Some Other else None,
     realpath = \<lambda>p. if p \<in> {''/srv'', ''/srv2''} then Some p else if p = ''/srv/../srv2'' then Some ''/srv2'' else None,
     readlink = \<lambda>p. None\<rparr>"

lemma server_confines_by_prefix_witness:
  "current_dir (handle_client small_fs ''/srv'' [] [''CD ../srv2'' @ [line_break]]) = ''/srv2''"
proof -
  have "resolves small_fs" by (auto simp: resolves_def small_fs_def)
  moreover have "realpath small_fs ''/srv'' = Some ''/srv''" by (simp add: small_fs_def)
  ultimately have "\<forall>name extra. name \<noteq> [] \<and> (\<forall>c \<in> set name. c \<notin> set blanks \<and> (of_char c :: nat) \<noteq> 0) \<and> length ''/srv'' + length name < 250
        \<and> length (''/srv'' @ extra) < MAX_PATH \<and> realpath small_fs (''/srv'' @ ''/../'' @ name) = Some (''/srv'' @ extra)
        \<longrightarrow> current_dir (handle_client small_fs ''/srv'' [] [''CD ../'' @ name @ [line_break]]) = ''/srv'' @ extra"
    by (rule server_confines_by_prefix [THEN conjunct2])
  from this [rule_format, of "''srv2''" "''2''"] show ?thesis
    by (simp add: blanks_def line_break_def MAX_PATH_def small_fs_def)
qed

lemma listing_shows_entries_witness:
  "handle_list small_fs ''/srv'' [] = ''a'' @ [line_break] @ ''a'' @ [line_break] @ [line_break]"
proof -
  have o: "opendir small_fs ''/srv'' = Some [''a'', ''s'']" by (simp add: small_fs_def)
  have e: "shown_entries small_fs ''/srv'' [''a'', ''s''] = [(''a'', Regular), (''s'', Other)]"
    by (simp add: shown_entries_def small_fs_def MAX_PATH_def)
  from listing_shows_entries [OF o, THEN conjunct2, rule_format, OF conjI [OF refl e]]
  show ?thesis by (simp add: MAX_BUFFER_def)
qed

lemma echo_reaches_client_witness:
  "replies (handle_client small_fs ''/srv'' [] [''ECHO hello'' @ [line_break]]) = [INFO_MESSAGE, ''hello'' @ [line_break]]"
  using echo_reaches_client [of "''hello''" small_fs "''/srv''" "[]" "[]"] by (simp add: line_break_def)

end
