(* ===== verification/File_Server_Isolation.thy ===== *)
theory File_Server_Isolation
  imports File_Server_Threads File_Server_Props
begin

text \<open>
  When the clients of the server of Lab8 are served as if each were alone, and when not: the place that
  \<open>strtok\<close> remembers is shared by the threads.
\<close>

section \<open>strtok on a buffer and on a string\<close>

lemma cstr_drop: "k \<le> length (cstr xs) \<Longrightarrow> cstr (drop k xs) = drop k (cstr xs)"
  unfolding cstr_def by (induction xs arbitrary: k) (auto split: if_splits simp: drop_Cons')

lemma cstr_cut: "n < length (cstr xs) \<Longrightarrow> cstr (xs[n := CHR 0x00]) = take n (cstr xs)"
proof (unfold cstr_def, induction xs arbitrary: n)
  case (Cons x xs)
  then show ?case by (cases n) (auto split: if_splits)
qed simp

lemma length_cstr: "length (cstr xs) \<le> length xs"
  by (simp add: cstr_def length_takeWhile_le)

lemma strtok_at_strtok:
  assumes "strtok_at delims buf from = (token, buf', next)"
  shows "(case strtok delims (cstr (drop from buf)) of
      None \<Rightarrow> token = None
    | Some (t, rest) \<Rightarrow> \<exists>start. token = Some start \<and> cstr (drop start buf') = t \<and> cstr (drop next buf') = rest)
    \<and> length buf' = length buf"
proof -
  define s where "s = cstr (drop from buf)"
  define k where "k = length (takeWhile (\<lambda>c. c \<in> set delims) s)"
  define n where "n = length (takeWhile (\<lambda>c. c \<notin> set delims) (drop k s))"
  have k: "dropWhile (\<lambda>c. c \<in> set delims) s = drop k s" by (simp add: k_def dropWhile_eq_drop)
  have n: "dropWhile (\<lambda>c. c \<notin> set delims) (drop k s) = drop n (drop k s)"
    by (simp add: n_def dropWhile_eq_drop)
  have tn: "takeWhile (\<lambda>c. c \<notin> set delims) (drop k s) = take n (drop k s)"
    unfolding n_def by (rule takeWhile_eq_take)
  have kl: "k \<le> length s" "k + n \<le> length s"
    using length_takeWhile_le [of "\<lambda>c. c \<in> set delims" s] length_takeWhile_le [of "\<lambda>c. c \<notin> set delims" "drop k s"]
    by (auto simp: k_def n_def)
  have st: "strtok delims s = (if k = length s then None else Some (take n (drop k s), drop (k + n + 1) s))"
    using kl(1) by (auto simp: strtok_def k n tn Let_def add.commute add.left_commute)
  have at: "strtok_at delims buf from =
      (if k = length s then (None, buf, from + k)
       else if k + n = length s then (Some (from + k), buf, from + k + n)
       else (Some (from + k), buf[from + k + n := CHR 0x00], from + k + n + 1))"
    unfolding strtok_at_def Let_def s_def [symmetric] k_def [symmetric] n_def [symmetric] by (rule refl)
  have later: "cstr (drop (from + j) buf) = drop j s" if "j \<le> length s" for j
    using cstr_drop [of j "drop from buf"] that by (simp add: s_def add.commute)
  consider (none) "k = length s" | (last) "k < length s" "k + n = length s" | (more) "k < length s" "k + n < length s"
    using kl by linarith
  then show ?thesis
  proof cases
    case none
    then show ?thesis unfolding s_def [symmetric] using assms st at by simp
  next
    case last
    then have "take n (drop k s) = drop k s" by simp
    then show ?thesis
      unfolding s_def [symmetric] using last assms st at later [of k] later [of "k + n"] by (auto simp: add.assoc)
  next
    case more
    have "length s \<le> length buf - from" using length_cstr [of "drop from buf"] by (simp add: s_def)
    then have e: "from + k + n < length buf" using more by linarith
    have "drop (from + k) (buf[from + k + n := CHR 0x00]) = (drop (from + k) buf)[n := CHR 0x00]"
      by (simp add: drop_update_swap)
    moreover have "n < length (cstr (drop (from + k) buf))" using later [of k] more by simp
    ultimately have "cstr (drop (from + k) (buf[from + k + n := CHR 0x00])) = take n (drop k s)"
      using later [of k] more cstr_cut by simp
    moreover have "cstr (drop (from + k + n + 1) (buf[from + k + n := CHR 0x00])) = drop (k + n + 1) s"
      using later [of "k + n + 1"] more by (simp add: add.assoc)
    ultimately show ?thesis unfolding s_def [symmetric] using more assms st at by auto
  qed
qed

lemmas strtok_at_None = strtok_at_strtok [THEN conjunct1]

section \<open>One command, in steps and at once\<close>

lemma react_answer:
  "react fs root junk current data =
     (case strtok blanks (cstr data) of
        None \<Rightarrow> Reply current []
      | Some (command, rest) \<Rightarrow>
          answer fs root junk current command (map_option fst (strtok (argument_delims command) rest)))"
  by (auto simp: react_def answer_def argument_delims_def split: option.splits prod.splits)

lemma answer_without_argument:
  "command \<noteq> ''ECHO'' \<Longrightarrow> command \<noteq> ''CD'' \<Longrightarrow> answer fs root junk current command a = answer fs root junk current command b"
  by (simp add: answer_def)

lemma serve_read_respond:
  "\<not> ended s \<Longrightarrow> data \<noteq> [] \<Longrightarrow>
     serve_read fs root junk s data = respond (react fs root junk (current_dir s) (take (MAX_BUFFER - 1) data)) s"
  by (simp add: serve_read_def respond_def split: reaction.split)

lemma handle_client_snoc:
  "handle_client fs root junk (ds @ [d]) = serve_read fs root junk (handle_client fs root junk ds) d"
  by (simp add: handle_client_def)

lemma cstr_append_nul: "cstr (xs @ CHR 0x00 # ys) = cstr xs"
  unfolding cstr_def by (induction xs) auto

lemma cstr_store_read: "cstr (store_read data old) = cstr (take (MAX_BUFFER - 1) data)"
  by (simp add: store_read_def Let_def cstr_append_nul)

section \<open>Clients whose commands do not overlap\<close>

text \<open>
  The runs in which no thread begins with a command while another is between its two calls of \<open>strtok\<close>,
  and every client waits for its answers. \<open>read\<close>s, answers and everything else may fall anywhere.
\<close>

fun between_calls :: "server_pc \<Rightarrow> bool" where
  "between_calls (At_argument command) = True"
| "between_calls _ = False"

definition serial_step :: "file_system \<Rightarrow> string \<Rightarrow> string \<Rightarrow> server_threads \<Rightarrow> server_action \<Rightarrow> server_threads option" where
  "serial_step fs root junk w a =
     (case a of
        Go i tm \<Rightarrow>
          (if pcs w ! i = At_parse \<and> list_ex between_calls (pcs w) then None else server_step fs root junk w a)
      | Broken_pipe i \<Rightarrow> None
      | _ \<Rightarrow> server_step fs root junk w a)"

text \<open>
  What holds of a thread: its session is that of the reads it has dealt with, and what it still needs of
  the last one is in its buffer. The parameters are its number and its parts of the state.
\<close>

definition last_read :: "string list \<Rightarrow> string" where
  "last_read ds = cstr (take (MAX_BUFFER - 1) (last ds))"

fun client_ok ::
    "file_system \<Rightarrow> string \<Rightarrow> string \<Rightarrow> nat \<Rightarrow> server_pc \<Rightarrow> client_session \<Rightarrow> string \<Rightarrow> string list \<Rightarrow> nat \<times> nat \<Rightarrow> bool" where
  "client_ok fs root junk i At_read s b ds sv \<longleftrightarrow> s = handle_client fs root junk ds \<and> \<not> ended s"
| "client_ok fs root junk i At_end s b ds sv \<longleftrightarrow> s = handle_client fs root junk ds"
| "client_ok fs root junk i At_parse s b ds sv \<longleftrightarrow>
     ds \<noteq> [] \<and> last ds \<noteq> [] \<and> s = handle_client fs root junk (butlast ds) \<and> \<not> ended s \<and> cstr b = last_read ds"
| "client_ok fs root junk i (At_argument command) s b ds sv \<longleftrightarrow>
     ds \<noteq> [] \<and> last ds \<noteq> [] \<and> s = handle_client fs root junk (butlast ds) \<and> \<not> ended s
     \<and> fst sv = i \<and> strtok blanks (last_read ds) = Some (command, cstr (drop (snd sv) b))"
| "client_ok fs root junk i (At_answer command pointer) s b ds sv \<longleftrightarrow>
     ds \<noteq> [] \<and> last ds \<noteq> [] \<and> s = handle_client fs root junk (butlast ds) \<and> \<not> ended s
     \<and> (\<exists>rest. strtok blanks (last_read ds) = Some (command, rest)
        \<and> (pointer = None \<and> (command \<noteq> ''ECHO'' \<and> command \<noteq> ''CD'' \<or> strtok (argument_delims command) rest = None)
          \<or> (\<exists>start. pointer = Some (i, start) \<and> map_option fst (strtok (argument_delims command) rest) = Some (cstr (drop start b)))))"

definition server_ok :: "file_system \<Rightarrow> string \<Rightarrow> string \<Rightarrow> nat \<Rightarrow> server_threads \<Rightarrow> bool" where
  "server_ok fs root junk n w \<longleftrightarrow>
     length (pcs w) = n \<and> length (sessions w) = n \<and> length (buffers w) = n \<and> length (received w) = n \<and> \<not> crashed w
     \<and> (\<forall>i < n. client_ok fs root junk i (pcs w ! i) (sessions w ! i) (buffers w ! i) (received w ! i) (saved w))"

lemma client_ok_saved:
  "client_ok fs root junk i p s b ds sv \<Longrightarrow> (\<forall>command. p \<noteq> At_argument command) \<Longrightarrow> client_ok fs root junk i p s b ds sv'"
  by (cases p) auto

text \<open>A step of one thread that leaves the parts of the others as they are.\<close>

lemma server_ok_step:
  assumes "server_ok fs root junk n w" and "i < n"
    and "pcs w' = (pcs w)[i := p]" "sessions w' = (sessions w)[i := s]" "buffers w' = (buffers w)[i := b]"
      "received w' = (received w)[i := ds]" "crashed w' = crashed w"
    and "saved w' = saved w \<or> (\<forall>j < n. j \<noteq> i \<longrightarrow> (\<forall>command. pcs w ! j \<noteq> At_argument command))"
    and "client_ok fs root junk i p s b ds (saved w')"
  shows "server_ok fs root junk n w'"
proof -
  have "client_ok fs root junk j (pcs w' ! j) (sessions w' ! j) (buffers w' ! j) (received w' ! j) (saved w')" if "j < n" for j
  proof (cases "j = i")
    case True
    then show ?thesis using assms by (simp add: server_ok_def)
  next
    case False
    then have "client_ok fs root junk j (pcs w ! j) (sessions w ! j) (buffers w ! j) (received w ! j) (saved w)"
      using assms(1) that by (simp add: server_ok_def)
    then have "client_ok fs root junk j (pcs w ! j) (sessions w ! j) (buffers w ! j) (received w ! j) (saved w')"
      using assms(8) False that client_ok_saved by metis
    then show ?thesis using False assms(3-6) by simp
  qed
  then show ?thesis using assms by (simp add: server_ok_def)
qed

text \<open>The end of a command: the thread is back at \<open>read\<close>, or out of its loop.\<close>

lemma loop_or_leave_fields:
  "pcs (loop_or_leave tm i s w) = (pcs w)[i := if ended s then At_end else At_read]"
  "sessions (loop_or_leave tm i s w) = (sessions w)[i := s]"
  "buffers (loop_or_leave tm i s w) = buffers w" "received (loop_or_leave tm i s w) = received w"
  "saved (loop_or_leave tm i s w) = saved w" "crashed (loop_or_leave tm i s w) = crashed w"
  by (simp_all add: loop_or_leave_def move_to_def update_session_def Let_def)

lemma command_done:
  assumes "ds \<noteq> []" and "last ds \<noteq> []" and "s = handle_client fs root junk (butlast ds)" and "\<not> ended s"
    and "r = react fs root junk (current_dir s) (take (MAX_BUFFER - 1) (last ds))"
  shows "client_ok fs root junk i (if ended (respond r s) then At_end else At_read) (respond r s) b ds sv"
proof -
  have "handle_client fs root junk ds = respond r s"
    using assms handle_client_snoc [of fs root junk "butlast ds" "last ds"] by (simp add: serve_read_respond)
  then show ?thesis by simp
qed

lemma do_read_ok:
  assumes ok: "server_ok fs root junk n w" and i: "i < n" and p: "pcs w ! i = At_read"
  shows "server_ok fs root junk n (do_read tm i data w)"
proof -
  have c: "sessions w ! i = handle_client fs root junk (received w ! i)" "\<not> ended (sessions w ! i)"
    and l: "i < length (pcs w)" "i < length (buffers w)" using ok i p by (auto simp: server_ok_def)
  show ?thesis
  proof (cases "data = []")
    case True
    have "serve_read fs root junk (sessions w ! i) [] = (sessions w ! i)\<lparr>ended := True\<rparr>" using c(2) by (simp add: serve_read_def)
    then show ?thesis
      using True c l
      by (intro server_ok_step [OF ok i, where p = At_end and b = "buffers w ! i"])
        (simp_all add: do_read_def loop_or_leave_fields handle_client_snoc Let_def)
  next
    case False
    then have cl: "client_ok fs root junk i At_parse (sessions w ! i) (store_read data (buffers w ! i)) (received w ! i @ [data]) (saved w)"
      using c by (simp add: last_read_def cstr_store_read)
    have cl': "client_ok fs root junk i At_parse (sessions w ! i) (store_read data (buffers w ! i)) (received w ! i @ [data])
        (saved (do_read tm i data w))"
      by (rule client_ok_saved [OF cl]) simp
    show ?thesis
      by (intro server_ok_step [OF ok i _ _ _ _ _ _ cl']) (simp_all add: do_read_def move_to_def Let_def False)
  qed
qed

lemma do_parse_ok:
  assumes ok: "server_ok fs root junk n w" and i: "i < n" and p: "pcs w ! i = At_parse"
    and alone: "\<not> list_ex between_calls (pcs w)"
  shows "server_ok fs root junk n (do_parse tm i w)"
proof -
  define s where "s = sessions w ! i"
  define ds where "ds = received w ! i"
  have c: "ds \<noteq> []" "last ds \<noteq> []" "s = handle_client fs root junk (butlast ds)" "\<not> ended s" "cstr (buffers w ! i) = last_read ds"
    and l: "length (pcs w) = n" "i < length (buffers w)"
    and same: "(sessions w)[i := s] = sessions w" "(received w)[i := ds] = received w"
    using ok i p by (auto simp: server_ok_def s_def ds_def)
  have others: "\<forall>j < n. j \<noteq> i \<longrightarrow> (\<forall>command. pcs w ! j \<noteq> At_argument command)"
    using alone l(1) by (force simp: list_ex_iff in_set_conv_nth)
  obtain token buf next' where t: "strtok_at blanks (buffers w ! i) 0 = (token, buf, next')" by (cases "strtok_at blanks (buffers w ! i) 0")
  note spec = strtok_at_None [OF t, simplified drop_0 c(5)]
  show ?thesis
  proof (cases "strtok blanks (last_read ds)")
    case None
    then have "react fs root junk (current_dir s) (take (MAX_BUFFER - 1) (last ds)) = Reply (current_dir s) []"
      by (simp add: react_answer last_read_def)
    note fin = command_done [OF c(1-4) this [symmetric]]
    have tok: "token = None" using spec None by simp
    show ?thesis
      using others same by (intro server_ok_step [OF ok i _ _ _ _ _ _ fin [of i buf]])
        (simp_all add: do_parse_def t tok loop_or_leave_fields s_def [symmetric] Let_def)
  next
    case (Some cr)
    obtain command rest where cr: "cr = (command, rest)" by (cases cr)
    then obtain start where st: "token = Some start" "cstr (drop start buf) = command" "cstr (drop next' buf) = rest"
      using spec Some by auto
    define p' where "p' = (if command = ''ECHO'' \<or> command = ''CD'' then At_argument command else At_answer command None)"
    have "client_ok fs root junk i p' s buf ds (i, next')"
      using c(1-4) Some cr st(3) by (simp add: p'_def)
    then show ?thesis
      using others same
      by (intro server_ok_step [OF ok i, where p = p' and s = s and b = buf and ds = ds])
        (simp_all add: do_parse_def t st(1,2) move_to_def p'_def Let_def)
  qed
qed

lemma do_argument_ok:
  assumes ok: "server_ok fs root junk n w" and i: "i < n" and p: "pcs w ! i = At_argument command"
  shows "server_ok fs root junk n (do_argument i command w)"
proof -
  define s where "s = sessions w ! i"
  define ds where "ds = received w ! i"
  obtain place where sv: "saved w = (i, place)" using ok i p by (cases "saved w") (auto simp: server_ok_def)
  have c: "ds \<noteq> []" "last ds \<noteq> []" "s = handle_client fs root junk (butlast ds)" "\<not> ended s"
      "strtok blanks (last_read ds) = Some (command, cstr (drop place (buffers w ! i)))"
    and l: "length (pcs w) = n" "i < length (buffers w)"
    and same: "(sessions w)[i := s] = sessions w" "(received w)[i := ds] = received w"
    using ok i p sv by (auto simp: server_ok_def s_def ds_def)
  have others: "\<forall>j < n. j \<noteq> i \<longrightarrow> (\<forall>command. pcs w ! j \<noteq> At_argument command)"
    using ok sv by (fastforce simp: server_ok_def)
  obtain token buf next' where t: "strtok_at (argument_delims command) (buffers w ! i) place = (token, buf, next')"
    by (cases "strtok_at (argument_delims command) (buffers w ! i) place")
  define pointer where "pointer = map_option (\<lambda>start. (i, start)) token"
  have "client_ok fs root junk i (At_answer command pointer) s buf ds (i, next')"
    using c strtok_at_None [OF t]
    by (cases "strtok (argument_delims command) (cstr (drop place (buffers w ! i)))") (auto simp: pointer_def)
  then have cl: "client_ok fs root junk i (At_answer command pointer) s buf ds (saved (do_argument i command w))"
    by (rule client_ok_saved) simp
  show ?thesis
    using others same p by (intro server_ok_step [OF ok i _ _ _ _ _ _ cl]) (simp_all add: do_argument_def sv t move_to_def pointer_def)
qed

lemma do_answer_ok:
  assumes ok: "server_ok fs root junk n w" and i: "i < n" and p: "pcs w ! i = At_answer command pointer"
  shows "server_ok fs root junk n (do_answer fs root junk tm i command pointer w)"
proof -
  define s where "s = sessions w ! i"
  define ds where "ds = received w ! i"
  have c: "ds \<noteq> []" "last ds \<noteq> []" "s = handle_client fs root junk (butlast ds)" "\<not> ended s"
    and same: "(buffers w)[i := buffers w ! i] = buffers w" "(received w)[i := ds] = received w"
    using ok i p by (auto simp: server_ok_def s_def ds_def)
  obtain rest where r: "strtok blanks (last_read ds) = Some (command, rest)"
    and ptr: "pointer = None \<and> (command \<noteq> ''ECHO'' \<and> command \<noteq> ''CD'' \<or> strtok (argument_delims command) rest = None)
      \<or> (\<exists>start. pointer = Some (i, start) \<and> map_option fst (strtok (argument_delims command) rest) = Some (cstr (drop start (buffers w ! i))))"
    using ok i p unfolding server_ok_def ds_def by fastforce
  define arg where "arg = map_option (\<lambda>(j, start). cstr (drop start (buffers w ! j))) pointer"
  have safe: "\<not> (case pointer of None \<Rightarrow> False | Some (j, start) \<Rightarrow> pcs w ! j = At_end)" using ptr p by auto
  have "answer fs root junk (current_dir s) command arg
      = answer fs root junk (current_dir s) command (map_option fst (strtok (argument_delims command) rest))"
    using ptr answer_without_argument [of command] by (auto simp: arg_def)
  then have "answer fs root junk (current_dir s) command arg = react fs root junk (current_dir s) (take (MAX_BUFFER - 1) (last ds))"
    using r by (simp add: react_answer last_read_def)
  note fin = command_done [OF c this]
  have "do_answer fs root junk tm i command pointer w
      = loop_or_leave tm i (respond (answer fs root junk (current_dir s) command arg) s) w"
    unfolding do_answer_def if_not_P [OF safe] arg_def s_def Let_def by (rule refl)
  then show ?thesis
    using same by (intro server_ok_step [OF ok i _ _ _ _ _ _ fin [of i "buffers w ! i"]]) (simp_all add: loop_or_leave_fields)
qed

lemma server_ok_serial_step:
  assumes ok: "server_ok fs root junk n w" and step: "serial_step fs root junk w a = Some w'"
  shows "server_ok fs root junk n w'"
proof (cases a)
  case (Receive i data tm)
  then show ?thesis
    using step ok do_read_ok [OF ok] by (auto simp: serial_step_def server_step_def server_ok_def split: if_splits)
next
  case (Go i tm)
  then have i: "i < n" and w': "w' = (case pcs w ! i of At_parse \<Rightarrow> do_parse tm i w | At_argument command \<Rightarrow> do_argument i command w
      | At_answer command pointer \<Rightarrow> do_answer fs root junk tm i command pointer w | _ \<Rightarrow> w)"
    and alone: "pcs w ! i = At_parse \<Longrightarrow> \<not> list_ex between_calls (pcs w)"
    using step ok by (auto simp: serial_step_def server_step_def server_ok_def split: if_splits server_pc.splits)
  show ?thesis
    unfolding w' using ok i alone
    by (cases "pcs w ! i") (simp_all add: do_parse_ok do_argument_ok do_answer_ok)
qed (use step in \<open>simp add: serial_step_def\<close>)

lemma server_ok_start: "server_ok fs root junk (length junks) (start_server root junks)"
  by (auto simp: server_ok_def start_server_def handle_client_def)

interpretation serial: invariant_machine "serial_step fs root junk" "start_server root junks" "server_ok fs root junk (length junks)"
  for fs root junk junks
  by unfold_locales (fact server_ok_start, rule server_ok_serial_step)

text \<open>
  C11 The sessions of the server do not influence each other as long as no two commands overlap between
  their calls of \<open>strtok\<close> and no client goes before it is answered: under every other interleaving of any number of threads, the directory and the
  replies of each client are those it would get alone for what it has sent, less the last message while
  that is being dealt with.
\<close>

theorem clients_are_served_as_if_alone:
  assumes "reachable (serial_step fs root junk) (start_server root junks) w" and "i < length junks"
  shows "\<not> crashed w
    \<and> sessions w ! i = handle_client fs root junk
        (if pcs w ! i \<in> {At_read, At_end} then received w ! i else butlast (received w ! i))"
proof -
  have "client_ok fs root junk i (pcs w ! i) (sessions w ! i) (buffers w ! i) (received w ! i) (saved w)" "\<not> crashed w"
    using serial.inv_reachable [OF assms(1)] assms(2) by (simp_all add: server_ok_def)
  then show ?thesis by (cases "pcs w ! i") simp_all
qed

text \<open>
  A client that does go takes the server with it: when its thread is about to answer and the write fails, no
  thread of any client takes another step.
\<close>

theorem broken_pipe_ends_server:
  assumes "i < length (pcs w)" and "\<not> crashed w" and "writes (pcs w ! i)"
  shows "\<exists>v. server_step fs root junk w (Broken_pipe i) = Some v \<and> (\<forall>a. server_step fs root junk v a = None)"
  using assms by (auto simp: server_step_def split: server_action.split)

section \<open>Two commands that overlap\<close>

definition echo_of :: "string \<Rightarrow> string" where
  "echo_of text = ''ECHO '' @ text @ [line_break]"

definition plain_text :: "string \<Rightarrow> bool" where
  "plain_text text \<longleftrightarrow> text \<noteq> [] \<and> (\<forall>c \<in> set text. c \<noteq> line_break \<and> (of_char c :: nat) \<noteq> 0) \<and> length text < 1000"

lemma echo_of_facts:
  assumes "plain_text text"
  shows "cstr (store_read (echo_of text) old) = echo_of text" and "echo_of text \<noteq> []"
    and "strtok blanks (echo_of text) = Some (''ECHO'', text @ [line_break])"
    and "strtok (argument_delims ''ECHO'') (text @ [line_break]) = Some (text, [])"
proof -
  have "take (MAX_BUFFER - 1) (echo_of text) = echo_of text"
    using assms by (intro take_all) (simp add: echo_of_def plain_text_def MAX_BUFFER_def)
  then show "cstr (store_read (echo_of text) old) = echo_of text"
    unfolding cstr_store_read using assms by (auto simp: cstr_def takeWhile_eq_all_conv echo_of_def plain_text_def line_break_def)
  show "echo_of text \<noteq> []" "strtok blanks (echo_of text) = Some (''ECHO'', text @ [line_break])"
    by (simp_all add: strtok_def echo_of_def blanks_def line_break_def)
  have "dropWhile (\<lambda>c. c \<in> set [line_break]) (text @ [line_break]) = text @ [line_break]"
    using assms by (cases "text") (auto simp: plain_text_def)
  moreover have "takeWhile (\<lambda>c. c \<notin> set [line_break]) (text @ [line_break]) = text"
    "dropWhile (\<lambda>c. c \<notin> set [line_break]) (text @ [line_break]) = [line_break]"
    using assms by (simp_all add: plain_text_def takeWhile_append2 dropWhile_append2)
  ultimately show "strtok (argument_delims ''ECHO'') (text @ [line_break]) = Some (text, [])"
    by (simp add: strtok_def argument_delims_def)
qed

lemma echo_parsed:
  assumes "plain_text text" and "cstr (buffers w ! i) = echo_of text"
  obtains buf place lines where
    "do_parse tm i w = w\<lparr>buffers := (buffers w)[i := buf], saved := (i, place), log := lines, pcs := (pcs w)[i := At_argument ''ECHO'']\<rparr>"
    and "cstr (drop place buf) = text @ [line_break]"
proof -
  obtain token buf place where t: "strtok_at blanks (buffers w ! i) 0 = (token, buf, place)" by (cases "strtok_at blanks (buffers w ! i) 0")
  with strtok_at_None [OF t] assms(2) echo_of_facts(3) [OF assms(1)]
  obtain start where "token = Some start" "cstr (drop start buf) = ''ECHO''" "cstr (drop place buf) = text @ [line_break]" by auto
  then show ?thesis using that t by (simp add: do_parse_def Let_def move_to_def)
qed

lemma echo_argument:
  assumes "plain_text text" and "saved w = (j, place)" and "cstr (drop place (buffers w ! j)) = text @ [line_break]" and "pcs w ! j \<noteq> At_end"
  obtains buf place' start where
    "do_argument i ''ECHO'' w = w\<lparr>buffers := (buffers w)[j := buf], saved := (j, place'), pcs := (pcs w)[i := At_answer ''ECHO'' (Some (j, start))]\<rparr>"
    and "cstr (drop start buf) = text" and "cstr (drop place' buf) = []"
proof -
  obtain token buf place' where t: "strtok_at (argument_delims ''ECHO'') (buffers w ! j) place = (token, buf, place')"
    by (cases "strtok_at (argument_delims ''ECHO'') (buffers w ! j) place")
  with strtok_at_None [OF t] assms(3) echo_of_facts(4) [OF assms(1)]
  obtain start where "token = Some start" "cstr (drop start buf) = text" "cstr (drop place' buf) = []" by auto
  then show ?thesis using that t assms(2,4) by (simp add: do_argument_def move_to_def)
qed

lemma nothing_left:
  "cstr (drop place buf) = [] \<Longrightarrow> strtok_at delims buf place = (None, buf, place)"
  by (simp add: strtok_at_def)

text \<open>Both commands begun, neither argument looked for: the place to go on is in the buffer of the second client.\<close>

definition before_answers :: "string \<Rightarrow> nat \<Rightarrow> nat \<Rightarrow> nat \<Rightarrow> string \<Rightarrow> server_threads \<Rightarrow> bool" where
  "before_answers root n p q y w \<longleftrightarrow>
     length (pcs w) = n \<and> length (buffers w) = n \<and> length (sessions w) = n \<and> \<not> crashed w
     \<and> pcs w ! p = At_argument ''ECHO'' \<and> pcs w ! q = At_argument ''ECHO''
     \<and> sessions w ! p = \<lparr>current_dir = root, replies = [INFO_MESSAGE], ended = False, overrun = False\<rparr>
     \<and> sessions w ! q = \<lparr>current_dir = root, replies = [INFO_MESSAGE], ended = False, overrun = False\<rparr>
     \<and> (\<exists>place. saved w = (q, place) \<and> cstr (drop place (buffers w ! q)) = y @ [line_break])"

lemma both_begun:
  assumes "plain_text x" and "plain_text y" and "p < length junks" and "q < length junks" and "p \<noteq> q"
  shows "\<exists>w. run (server_step fs root junk) (start_server root junks) [Receive p (echo_of x) tm, Receive q (echo_of y) tm, Go p tm, Go q tm] = Some w
    \<and> before_answers root (length junks) p q y w"
proof -
  let ?step = "server_step fs root junk"
  define w0 where "w0 = start_server root junks"
  define s0 where "s0 = \<lparr>current_dir = root, replies = [INFO_MESSAGE], ended = False, overrun = False\<rparr>"
  have n: "length (pcs w0) = length junks" "length (buffers w0) = length junks" "length (sessions w0) = length junks" "\<not> crashed w0"
      "pcs w0 ! p = At_read" "pcs w0 ! q = At_read" "sessions w0 ! p = s0" "sessions w0 ! q = s0"
    using assms(3,4) by (simp_all add: w0_def start_server_def s0_def)
  define w2 where "w2 = do_read tm q (echo_of y) (do_read tm p (echo_of x) w0)"
  have r2: "run ?step w0 [Receive p (echo_of x) tm, Receive q (echo_of y) tm] = Some w2"
    and w2: "length (pcs w2) = length junks" "length (buffers w2) = length junks" "sessions w2 = sessions w0" "\<not> crashed w2"
      "pcs w2 ! p = At_parse" "pcs w2 ! q = At_parse"
      "cstr (buffers w2 ! p) = echo_of x" "cstr (buffers w2 ! q) = echo_of y"
    using n assms echo_of_facts(1,2) [OF assms(1)] echo_of_facts(1,2) [OF assms(2)]
    by (simp_all add: w2_def server_step_def do_read_def Let_def move_to_def)
  obtain b1 n1 l1 where e3: "do_parse tm p w2 = w2\<lparr>buffers := (buffers w2)[p := b1], saved := (p, n1), log := l1, pcs := (pcs w2)[p := At_argument ''ECHO'']\<rparr>"
    using echo_parsed [OF assms(1) w2(7)] by metis
  define w3 where "w3 = do_parse tm p w2"
  have w3: "?step w2 (Go p tm) = Some w3" "length (pcs w3) = length junks" "length (buffers w3) = length junks" "sessions w3 = sessions w0" "\<not> crashed w3"
      "pcs w3 ! p = At_argument ''ECHO''" "pcs w3 ! q = At_parse" "cstr (buffers w3 ! q) = echo_of y"
    using w2 assms(3-5) by (simp_all add: server_step_def w3_def e3)
  obtain b2 n2 l2 where e4: "do_parse tm q w3 = w3\<lparr>buffers := (buffers w3)[q := b2], saved := (q, n2), log := l2, pcs := (pcs w3)[q := At_argument ''ECHO'']\<rparr>"
    and b2: "cstr (drop n2 b2) = y @ [line_break]"
    using echo_parsed [OF assms(2) w3(8)] by metis
  define w4 where "w4 = do_parse tm q w3"
  have w4: "?step w3 (Go q tm) = Some w4" "length (pcs w4) = length junks" "length (buffers w4) = length junks" "sessions w4 = sessions w0" "\<not> crashed w4"
      "pcs w4 ! p = At_argument ''ECHO''" "pcs w4 ! q = At_argument ''ECHO''" "saved w4 = (q, n2)" "cstr (drop n2 (buffers w4 ! q)) = y @ [line_break]"
    using w3 assms(3-5) b2 by (simp_all add: server_step_def w4_def e4)
  have "run ?step w2 [Go p tm, Go q tm] = Some w4" using w3(1) w4(1) by simp
  then have "run ?step w0 ([Receive p (echo_of x) tm, Receive q (echo_of y) tm] @ [Go p tm, Go q tm]) = Some w4"
    using r2 by (simp only: run_append option.case)
  moreover have "before_answers root (length junks) p q y w4" using w4 n by (simp add: before_answers_def s0_def)
  ultimately show ?thesis unfolding w0_def by (intro exI [of _ w4]) simp
qed

text \<open>
  C12 \<open>strtok\<close> mixes the clients up: when two clients send \<open>ECHO\<close> and both commands are begun before either
  argument is looked for, the first client gets the text of the second, and the second an empty line,
  whatever the two texts are.
\<close>

theorem strtok_mixes_clients:
  assumes "plain_text x" and "plain_text y" and "p < length junks" and "q < length junks" and "p \<noteq> q"
  shows "\<exists>w. run (server_step fs root junk) (start_server root junks)
      [Receive p (echo_of x) tm, Receive q (echo_of y) tm, Go p tm, Go q tm, Go p tm, Go q tm, Go p tm, Go q tm] = Some w
    \<and> replies (sessions w ! p) = [INFO_MESSAGE, y @ [line_break]] \<and> replies (sessions w ! q) = [INFO_MESSAGE, [line_break]]"
proof -
  let ?step = "server_step fs root junk"
  define s0 where "s0 = \<lparr>current_dir = root, replies = [INFO_MESSAGE], ended = False, overrun = False\<rparr>"
  obtain w4 where r4: "run ?step (start_server root junks) [Receive p (echo_of x) tm, Receive q (echo_of y) tm, Go p tm, Go q tm] = Some w4"
    and "before_answers root (length junks) p q y w4"
    using both_begun [OF assms] by blast
  then obtain n2 where w4: "length (pcs w4) = length junks" "length (buffers w4) = length junks" "length (sessions w4) = length junks" "\<not> crashed w4"
      "pcs w4 ! p = At_argument ''ECHO''" "pcs w4 ! q = At_argument ''ECHO''" "sessions w4 ! p = s0" "sessions w4 ! q = s0"
      "saved w4 = (q, n2)" "cstr (drop n2 (buffers w4 ! q)) = y @ [line_break]"
    by (auto simp: before_answers_def s0_def)
  obtain b3 n3 start where e5: "do_argument p ''ECHO'' w4 = w4\<lparr>buffers := (buffers w4)[q := b3], saved := (q, n3), pcs := (pcs w4)[p := At_answer ''ECHO'' (Some (q, start))]\<rparr>"
    and b3: "cstr (drop start b3) = y" "cstr (drop n3 b3) = []"
    using echo_argument [OF assms(2) w4(9,10)] w4(6) by (metis server_pc.distinct(17) server_pc.distinct(18))
  define w5 where "w5 = do_argument p ''ECHO'' w4"
  have w5: "?step w4 (Go p tm) = Some w5" "length (pcs w5) = length junks" "sessions w5 = sessions w4" "\<not> crashed w5"
      "pcs w5 ! p = At_answer ''ECHO'' (Some (q, start))" "pcs w5 ! q = At_argument ''ECHO''" "saved w5 = (q, n3)" "buffers w5 ! q = b3"
    using w4 assms(3-5) by (simp_all add: server_step_def w5_def e5)
  define w6 where "w6 = do_argument q ''ECHO'' w5"
  have w6: "?step w5 (Go q tm) = Some w6" "length (pcs w6) = length junks" "sessions w6 = sessions w4" "\<not> crashed w6"
      "pcs w6 ! p = At_answer ''ECHO'' (Some (q, start))" "pcs w6 ! q = At_answer ''ECHO'' None" "buffers w6 ! q = b3"
    using w5 assms(3-5) nothing_left [OF b3(2)] by (simp_all add: server_step_def w6_def do_argument_def move_to_def)
      (metis list_update_id)+
  define w7 where "w7 = do_answer fs root junk tm p ''ECHO'' (Some (q, start)) w6"
  have w7: "?step w6 (Go p tm) = Some w7" "length (pcs w7) = length junks" "\<not> crashed w7" "pcs w7 ! q = At_answer ''ECHO'' None"
      "sessions w7 = (sessions w4)[p := respond (Reply root (y @ [line_break])) s0]"
    using w6 assms(3-5) w4 b3(1) by (simp_all add: server_step_def w7_def do_answer_def loop_or_leave_fields answer_def s0_def)
  define w8 where "w8 = do_answer fs root junk tm q ''ECHO'' None w7"
  have w8: "?step w7 (Go q tm) = Some w8" "sessions w8 = (sessions w7)[q := respond (Reply root [line_break]) s0]"
    using w7 assms(3-5) w4 by (simp_all add: server_step_def w8_def do_answer_def loop_or_leave_fields answer_def s0_def)
  have "run ?step w4 [Go p tm, Go q tm, Go p tm, Go q tm] = Some w8"
    using w5(1) w6(1) w7(1) w8(1) by simp
  then have "run ?step (start_server root junks) ([Receive p (echo_of x) tm, Receive q (echo_of y) tm, Go p tm, Go q tm]
      @ [Go p tm, Go q tm, Go p tm, Go q tm]) = Some w8"
    using r4 by (simp only: run_append option.case)
  moreover have "replies (sessions w8 ! p) = [INFO_MESSAGE, y @ [line_break]]" "replies (sessions w8 ! q) = [INFO_MESSAGE, [line_break]]"
    using w7(5) w8(2) w4 assms(3-5) by (simp_all add: respond_def s0_def)
  ultimately show ?thesis by (intro exI [of _ w8]) simp
qed

section \<open>Concrete runs\<close>

definition noon :: broken_time where
  "noon = \<lparr>tm_year = 125, tm_mon = 4, tm_mday = 6, tm_hour = 12, tm_min = 0, tm_sec = 0, tv_nsec = 7000000\<rparr>"

lemma noon_stamp: "get_timestamp noon = ''2025.05.06-12:00:00.007''"
  by (simp add: get_timestamp_def padded_def noon_def decimal.simps) code_simp

definition two_clients_run :: "server_action list" where
  "two_clients_run = [Receive 0 (''QUIT'' @ [line_break]) noon, Receive 1 (''ECHO a'' @ [line_break]) noon, Go 0 noon, Go 1 noon, Go 0 noon]"

lemma clients_are_served_as_if_alone_witness:
  "\<exists>w. run (serial_step small_fs ''/srv'' []) (start_server ''/srv'' [[], []]) two_clients_run = Some w
    \<and> replies (sessions w ! 0) = [INFO_MESSAGE, ''BYE'' @ [line_break]] \<and> replies (sessions w ! 1) = [INFO_MESSAGE]"
proof -
  have r: "map_option (\<lambda>w. (pcs w, received w)) (run (serial_step small_fs ''/srv'' []) (start_server ''/srv'' [[], []]) two_clients_run)
      = Some ([At_end, At_argument ''ECHO''], [[''QUIT'' @ [line_break]], [''ECHO a'' @ [line_break]]])"
    by (simp add: two_clients_run_def start_server_def serial_step_def server_step_def do_read_def do_parse_def do_answer_def move_to_def
        store_read_def strtok_at_def cstr_def blanks_def line_break_def MAX_BUFFER_def answer_def respond_def
        loop_or_leave_def update_session_def Let_def)
  then obtain w where w: "run (serial_step small_fs ''/srv'' []) (start_server ''/srv'' [[], []]) two_clients_run = Some w"
    "pcs w = [At_end, At_argument ''ECHO'']" "received w = [[''QUIT'' @ [line_break]], [''ECHO a'' @ [line_break]]]"
    by auto
  note alone = clients_are_served_as_if_alone [OF run_reachable [OF w(1)], THEN conjunct2]
  have "replies (handle_client small_fs ''/srv'' [] [''QUIT'' @ [line_break]]) = [INFO_MESSAGE, ''BYE'' @ [line_break]]"
    "replies (handle_client small_fs ''/srv'' [] []) = [INFO_MESSAGE]"
    by (simp_all add: handle_client_def serve_read_def react_def strtok_def cstr_def blanks_def line_break_def MAX_BUFFER_def)
  then show ?thesis using w alone [of 0] alone [of 1] by (intro exI [of _ w]) simp
qed

lemma strtok_mixes_clients_witness:
  "\<exists>as w. run (server_step small_fs ''/srv'' []) (start_server ''/srv'' [[], []]) as = Some w
    \<and> replies (sessions w ! 0) = [INFO_MESSAGE, ''secret'' @ [line_break]] \<and> replies (sessions w ! 1) = [INFO_MESSAGE, [line_break]]"
proof -
  have "plain_text ''hello''" "plain_text ''secret''" by (simp_all add: plain_text_def line_break_def)
  moreover have "0 < length [[], [] :: string]" "1 < length [[], [] :: string]" "(0 :: nat) \<noteq> 1" by simp_all
  ultimately show ?thesis by (blast dest: strtok_mixes_clients [where fs = small_fs and root = "''/srv''" and junk = "[]" and tm = noon])
qed

end
