(* ===== verification/File_Dialogue.thy ===== *)
theory File_Dialogue
  imports File_Server_Isolation
begin

text \<open>
  Client and server of Lab8 together: a whole session, from the greeting to \<open>BYE\<close>. The server takes each
  \<open>read\<close> for one command and the client goes by the look of what a \<open>read\<close> returns, so that the connection must
  not split a line nor join two, nor end a piece of a reply where it looks complete.
\<close>

section \<open>What the connection does\<close>

definition sent_line :: "string \<Rightarrow> string" where
  "sent_line l = l @ [line_break]"

text \<open>
  A line on its way to the server. The client writes it and its line break in two calls, so that a \<open>read\<close>
  may return it with or without the line break, with that of the line before, or the line break alone.
\<close>

definition carries :: "string \<Rightarrow> string \<Rightarrow> bool" where
  "carries l r \<longleftrightarrow> r = l \<or> r = l @ [line_break] \<or> r = line_break # l \<or> r = line_break # l @ [line_break]"

fun arrives :: "string list \<Rightarrow> string list \<Rightarrow> bool" where
  "arrives ls [] = (ls = [])"
| "arrives ls (r # rs) =
     (if r = [line_break] then arrives ls rs
      else (case ls of [] \<Rightarrow> False | l # ls' \<Rightarrow> carries l r \<and> arrives ls' rs))"

text \<open>
  A reply on its way to the client, in pieces. When no piece has the look of a complete reply the client
  goes on at its time-out.
\<close>

fun delivers :: "string \<Rightarrow> event list \<Rightarrow> bool" where
  "delivers t (Data d # es) =
     (cstr d = d \<and> d \<noteq> [] \<and> take (length d) t = d
      \<and> (if complete_reply d then length t = length d \<and> es = [] else delivers (drop (length d) t) es))"
| "delivers t (Timeout # es) = (t = [] \<and> es = [])"
| "delivers t _ = False"

lemma delivered: "delivers t es \<Longrightarrow> read_server_response (es @ rest) = (t, rest)"
proof (induction t es rule: delivers.induct)
  case (1 t d es)
  have t: "t = d @ drop (length d) t" using 1(2) by (metis append_take_drop_id delivers.simps(1))
  show ?case
  proof (cases "complete_reply d")
    case True
    then show ?thesis using 1(2) t by (auto simp: Let_def)
  next
    case False
    then have "read_server_response (es @ rest) = (drop (length d) t, rest)" using 1 by simp
    then show ?thesis using 1(2) False t [symmetric] by (simp add: Let_def)
  qed
qed auto

text \<open>A line a user can type: not empty, no name of a file, and no \<open>QUIT\<close>.\<close>

definition typed :: "string \<Rightarrow> bool" where
  "typed l \<longleftrightarrow> l \<noteq> [] \<and> hd l \<noteq> CHR ''@'' \<and> take 4 l \<noteq> ''QUIT'' \<and> length l \<le> 1000
     \<and> list_all (\<lambda>c. c \<noteq> line_break \<and> (of_char c :: nat) \<noteq> 0) l"

definition quit_line :: string where
  "quit_line = ''QUIT''"

section \<open>The server's side\<close>

lemma strtok_leading: "c \<in> set delims \<Longrightarrow> strtok delims (c # s) = strtok delims s"
  by (simp add: strtok_def)

lemma drop_rest:
  "Q c \<Longrightarrow> drop 1 (dropWhile (\<lambda>x. \<not> Q x) (t @ [c]))
     = (if \<exists>x \<in> set t. Q x then drop 1 (dropWhile (\<lambda>x. \<not> Q x) t) @ [c] else drop 1 (dropWhile (\<lambda>x. \<not> Q x) t))"
  by (induction t) auto

text \<open>A delimiter at the end changes at most what is left for the next call, which it ends in turn.\<close>

lemma strtok_trailing:
  assumes "c \<in> set delims"
  shows "strtok delims (s @ [c]) =
    (case strtok delims s of None \<Rightarrow> None
     | Some (token, rest) \<Rightarrow> Some (token, if \<exists>x \<in> set (dropWhile (\<lambda>c. c \<in> set delims) s). x \<in> set delims then rest @ [c] else rest))"
proof (cases "dropWhile (\<lambda>c. c \<in> set delims) s = []")
  case True
  then have "\<forall>x \<in> set s. x \<in> set delims" by (simp add: dropWhile_eq_Nil_conv)
  then have "dropWhile (\<lambda>c. c \<in> set delims) (s @ [c]) = []" using assms by (simp add: dropWhile_eq_Nil_conv)
  then show ?thesis using True by (simp add: strtok_def)
next
  case False
  define t where "t = dropWhile (\<lambda>c. c \<in> set delims) s"
  have "dropWhile (\<lambda>c. c \<in> set delims) (s @ [c]) = t @ [c]"
    using False by (auto simp: t_def dropWhile_append dropWhile_eq_Nil_conv)
  moreover have "takeWhile (\<lambda>c. c \<notin> set delims) (t @ [c]) = takeWhile (\<lambda>c. c \<notin> set delims) t"
    using assms
    by (cases "\<exists>x \<in> set t. x \<in> set delims")
      (auto simp: takeWhile_append intro!: takeWhile_eq_all_conv [THEN iffD2, symmetric])
  moreover note drop_rest [of "\<lambda>x. x \<in> set delims" c t, OF assms]
  ultimately show ?thesis using False by (simp add: strtok_def t_def [symmetric] Let_def)
qed

lemma line_break_delims [simp]: "line_break \<in> set blanks" "line_break \<in> set (argument_delims command)"
  by (simp_all add: blanks_def argument_delims_def)

lemma react_line_break:
  "cstr (s @ [line_break]) = s @ [line_break] \<Longrightarrow> react fs root junk cur (s @ [line_break]) = react fs root junk cur s"
  "react fs root junk cur (line_break # s) = react fs root junk cur s"
proof -
  assume c: "cstr (s @ [line_break]) = s @ [line_break]"
  then have s: "cstr s = s" by (auto simp: cstr_def takeWhile_eq_all_conv)
  have arg: "map_option fst (strtok (argument_delims command) (r @ [line_break])) = map_option fst (strtok (argument_delims command) r)"
    for command r
    by (subst strtok_trailing) (auto split: option.split)
  show "react fs root junk cur (s @ [line_break]) = react fs root junk cur s"
    unfolding react_answer c s by (subst strtok_trailing) (auto simp: arg split: option.split)
next
  have "cstr (line_break # s) = line_break # cstr s" by (simp add: cstr_def line_break_def)
  then show "react fs root junk cur (line_break # s) = react fs root junk cur s" by (simp add: react_answer strtok_leading)
qed

definition plain_line :: "string \<Rightarrow> bool" where
  "plain_line l \<longleftrightarrow> l \<noteq> [] \<and> length l \<le> 1000 \<and> list_all (\<lambda>c. c \<noteq> line_break \<and> (of_char c :: nat) \<noteq> 0) l"

lemma plain_lines [simp]: "typed l \<Longrightarrow> plain_line l" "plain_line quit_line"
  by (simp_all add: typed_def plain_line_def quit_line_def line_break_def)

lemma serve_carries:
  assumes "plain_line l" and "carries l r"
  shows "serve_read fs root junk s r = serve_read fs root junk s l"
proof -
  have c: "cstr l = l" "cstr (l @ [line_break]) = l @ [line_break]" "cstr (line_break # l @ [line_break]) = line_break # l @ [line_break]"
    using assms(1) by (auto simp: plain_line_def cstr_def takeWhile_eq_all_conv list_all_iff line_break_def)
  have "length l \<le> 1000" using assms(1) by (simp add: plain_line_def)
  then have "take (MAX_BUFFER - 1) r = r" "take (MAX_BUFFER - 1) l = l" "r \<noteq> []" "l \<noteq> []"
    using assms by (auto simp: carries_def MAX_BUFFER_def plain_line_def)
  moreover have "react fs root junk cur r = react fs root junk cur l" for cur
    using assms(2) c(2,3) react_line_break(1) [of "line_break # l"] by (auto simp: carries_def react_line_break)
  ultimately show ?thesis by (simp add: serve_read_def)
qed

text \<open>A session without the empty replies, which are not sent.\<close>

definition spoken :: "client_session \<Rightarrow> client_session" where
  "spoken s = s\<lparr>replies := filter (\<lambda>t. t \<noteq> []) (replies s)\<rparr>"

lemma spoken_serve: "spoken s = spoken s' \<Longrightarrow> spoken (serve_read fs root junk s d) = spoken (serve_read fs root junk s' d)"
  by (cases s; cases s') (auto simp: spoken_def serve_read_def split: reaction.split)

lemma spoken_line_break: "spoken (serve_read fs root junk s [line_break]) = spoken s"
proof -
  have "react fs root junk cur [line_break] = Reply cur []" for cur
    by (simp add: react_line_break) (simp add: react_answer cstr_def strtok_def)
  moreover have "take (MAX_BUFFER - 1) [line_break] = [line_break]" by (simp add: MAX_BUFFER_def)
  ultimately show ?thesis by (simp add: serve_read_def spoken_def)
qed

lemma arrives_served:
  "arrives ls reads \<Longrightarrow> list_all plain_line ls \<Longrightarrow> spoken s = spoken s' \<Longrightarrow>
     spoken (foldl (serve_read fs root junk) s' reads) = spoken (foldl (serve_read fs root junk) s ls)"
proof (induction ls reads arbitrary: s s' rule: arrives.induct)
  case (2 ls r rs)
  show ?case
  proof (cases "r = [line_break]")
    case True
    then show ?thesis using 2 spoken_line_break by (metis arrives.simps(2) foldl_Cons)
  next
    case False
    then obtain l ls' where l: "ls = l # ls'" "carries l r" "arrives ls' rs" using 2(3) by (auto split: list.splits)
    have "spoken (serve_read fs root junk s l) = spoken (serve_read fs root junk s' r)"
      using 2(4,5) l serve_carries [of l r] spoken_serve [of s s'] by simp
    moreover have "list_all plain_line ls'" using 2(4) l(1) by simp
    ultimately have "spoken (foldl (serve_read fs root junk) (serve_read fs root junk s' r) rs)
        = spoken (foldl (serve_read fs root junk) (serve_read fs root junk s l) ls')"
      by (intro 2(2) [OF False l(1,3)])
    then show ?thesis using l(1) by simp
  qed
qed simp

lemma spoken_ended [simp]: "ended (spoken s) = ended s"
  by (simp add: spoken_def)

lemma replies_grow: "\<exists>more. replies (foldl (serve_read fs root junk) s ds) = replies s @ more"
proof (induction ds rule: rev_induct)
  case (snoc d ds)
  then show ?case by (auto simp: serve_read_def split: reaction.split)
qed simp

text \<open>Each line is answered, as long as the session goes on.\<close>

lemma replies_of_lines:
  "\<not> ended (foldl (serve_read fs root junk) s ls) \<Longrightarrow> list_all plain_line ls \<Longrightarrow>
     length (replies (foldl (serve_read fs root junk) s ls)) = length (replies s) + length ls"
proof (induction ls rule: rev_induct)
  case (snoc l ls)
  then show ?case by (auto simp: serve_read_def plain_line_def split: if_splits reaction.splits)
qed simp

lemma quit_reaction: "react fs root junk cur quit_line = Bye (''BYE'' @ [line_break])"
  by (simp add: react_def quit_line_def strtok_def blanks_def line_break_def cstr_def)

section \<open>The client's side\<close>

lemma fgets_sent_line: "plain_line l \<Longrightarrow> fgets_line MAX_BUFFER (sent_line l @ rest) = Some (l, rest)"
proof -
  assume l: "plain_line l"
  then obtain k where k: "1023 - length l = Suc k" by (cases "1023 - length l") (auto simp: plain_line_def)
  have t: "takeWhile (\<lambda>c. c \<noteq> line_break) (take 1023 (l @ line_break # rest)) = l"
    using l by (simp add: k plain_line_def list_all_iff takeWhile_append2)
  have "cstr l = l" using l by (auto simp: plain_line_def cstr_def takeWhile_eq_all_conv list_all_iff)
  then show ?thesis using l t
    by (simp add: fgets_line_def sent_line_def Let_def MAX_BUFFER_def plain_line_def k)
qed

lemma read_sent_lines: "list_all plain_line ls \<Longrightarrow> read_lines MAX_BUFFER (concat (map sent_line ls)) = ls"
proof (induction ls)
  case Nil
  then show ?case by (simp add: read_lines.simps [of MAX_BUFFER "[]"] fgets_line_def)
next
  case (Cons l ls)
  have "\<not> MAX_BUFFER \<le> 1" by (simp add: MAX_BUFFER_def)
  then have "read_lines MAX_BUFFER (sent_line l @ concat (map sent_line ls)) = l # read_lines MAX_BUFFER (concat (map sent_line ls))"
    using Cons.prems fgets_sent_line [of l "concat (map sent_line ls)"] by (subst read_lines.simps) simp
  then show ?case using Cons by simp
qed

definition shown_after_prompts :: "string list \<Rightarrow> string list" where
  "shown_after_prompts rs = concat (map (\<lambda>t. [''> '', t]) rs)"

lemma command_loop_session:
  "list_all typed ls \<Longrightarrow> list_all2 delivers rs ess \<Longrightarrow> length rs = Suc (length ls) \<Longrightarrow>
     command_loop files (ls @ [quit_line]) (concat ess @ later)
       = (map sent_line (ls @ [quit_line]), shown_after_prompts rs)"
proof (induction ls arbitrary: rs ess)
  case Nil
  then obtain t es where "rs = [t]" "ess = [es]" "delivers t es" by (auto simp: length_Suc_conv list_all2_Cons1)
  then show ?case using delivered [of t es later] by (simp add: quit_line_def sent_line_def shown_after_prompts_def)
next
  case (Cons l ls)
  then obtain t rs' es ess' where e: "rs = t # rs'" "ess = es # ess'" "delivers t es" "list_all2 delivers rs' ess'"
    "length rs' = Suc (length ls)"
    by (auto simp: length_Suc_conv list_all2_Cons1)
  have "command_loop files (ls @ [quit_line]) (concat ess' @ later) = (map sent_line (ls @ [quit_line]), shown_after_prompts rs')"
    using Cons e by simp
  moreover have "read_server_response (es @ concat ess' @ later) = (t, concat ess' @ later)" using e(3) by (rule delivered)
  ultimately show ?case using Cons.prems(1) e(1,2) by (simp add: typed_def sent_line_def shown_after_prompts_def)
qed

section \<open>A session\<close>

text \<open>
  C18 Client and server understand each other. A user types lines, up to 1000 plain characters each and none
  of them a file of commands, and \<open>QUIT\<close>. Each \<open>read\<close> of the server returns one whole line, with its line
  break, without it, or with the one before, or a line break alone: no line is split and no two are joined.
  Each reply reaches the client in pieces of which at most the last has the look of a complete reply. If the server does not end the session earlier, it sends what it would send for the bare lines, one by
  one, and the client sends just these lines and shows the greeting and then, after each prompt, the answer
  to that very line.
\<close>

theorem session_transcript:
  assumes "list_all typed lines" and "\<not> ended (handle_client fs root junk lines)"
    and "arrives (lines @ [quit_line]) reads"
    and "list_all2 delivers (replies (handle_client fs root junk (lines @ [quit_line]))) ess"
  shows "spoken (handle_client fs root junk reads) = spoken (handle_client fs root junk (lines @ [quit_line]))
    \<and> ended (handle_client fs root junk reads)
    \<and> client_main files (concat (map sent_line (lines @ [quit_line]))) (concat ess @ later) =
        (map sent_line (lines @ [quit_line]),
         INFO_MESSAGE # shown_after_prompts (tl (replies (handle_client fs root junk (lines @ [quit_line])))))"
proof -
  define s where "s = handle_client fs root junk lines"
  have plain: "list_all plain_line (lines @ [quit_line])" using assms(1) by (auto simp: list_all_iff)
  then have len: "length (replies s) = Suc (length lines)"
    using replies_of_lines [OF assms(2) [unfolded handle_client_def]] by (simp add: s_def handle_client_def)
  have all: "handle_client fs root junk (lines @ [quit_line]) = s\<lparr>replies := replies s @ [''BYE'' @ [line_break]], ended := True\<rparr>"
    using assms(2) quit_reaction
    by (simp add: handle_client_snoc s_def serve_read_def) (simp add: quit_line_def MAX_BUFFER_def)
  have same: "spoken (handle_client fs root junk reads) = spoken (handle_client fs root junk (lines @ [quit_line]))"
    using arrives_served [OF assms(3) plain refl] by (simp add: handle_client_def)
  have "ended (handle_client fs root junk reads)" using arg_cong [OF same, of ended] by (simp add: all)
  obtain t rs where r: "replies (handle_client fs root junk (lines @ [quit_line])) = t # rs" "length rs = Suc (length lines)"
    using all len by (cases "replies s") auto
  then obtain es ess' where e: "ess = es # ess'" "delivers t es" "list_all2 delivers rs ess'"
    using assms(4) by (auto simp: list_all2_Cons1)
  have "t = INFO_MESSAGE"
    using r(1) replies_grow [of fs root junk "\<lparr>current_dir = root, replies = [INFO_MESSAGE], ended = False, overrun = False\<rparr>"
      "lines @ [quit_line]"]
    by (auto simp: handle_client_def)
  have "command_loop files (lines @ [quit_line]) (concat ess' @ later) = (map sent_line (lines @ [quit_line]), shown_after_prompts rs)"
    using assms(1) e(3) r(2) by (rule command_loop_session)
  then have "client_main files (concat (map sent_line (lines @ [quit_line]))) (concat ess @ later)
      = (map sent_line (lines @ [quit_line]), t # shown_after_prompts rs)"
    unfolding client_main_def read_sent_lines [OF plain] e(1) using delivered [OF e(2)] by simp
  then show ?thesis using same \<open>ended _\<close> r \<open>t = _\<close> by simp
qed

definition pieces :: "event list list" where
  "pieces = [[Data INFO_MESSAGE, Timeout], [Data (sent_line ''a''), Data (sent_line ''a''), Data [line_break]],
     [Data ''h'', Data (sent_line ''i''), Timeout], [Data (sent_line ''BYE'')]]"

lemma greeting_delivered: "delivers INFO_MESSAGE [Data INFO_MESSAGE, Timeout]"
proof -
  have "list_all (\<lambda>c. (of_char c :: nat) \<noteq> 0 \<and> (of_char c :: nat) \<noteq> 66) INFO_MESSAGE" "INFO_MESSAGE \<noteq> []" "length INFO_MESSAGE \<noteq> 1"
    by (simp_all add: INFO_MESSAGE_def)
  moreover have "\<not> sublist ''BYE'' INFO_MESSAGE"
  proof
    assume "sublist ''BYE'' INFO_MESSAGE"
    then have "CHR ''B'' \<in> set INFO_MESSAGE" by (auto dest!: set_mono_sublist)
    then have "(of_char (CHR ''B'') :: nat) \<noteq> 66" using calculation(1) by (auto simp: list_all_iff)
    then show False by simp
  qed
  ultimately show ?thesis by (auto simp: cstr_def takeWhile_eq_all_conv list_all_iff complete_reply_def)
qed

lemma small_replies:
  "tl (replies (handle_client small_fs ''/srv'' [] [''LIST'', ''ECHO hi'']))
    = [sent_line ''a'' @ sent_line ''a'' @ [line_break], sent_line ''hi'']"
  by code_simp

lemma pieces_arrive:
  "list_all typed [''LIST'', ''ECHO hi'']"
  "arrives ([''LIST'', ''ECHO hi''] @ [quit_line]) [''LIST'', line_break # ''ECHO hi'', [line_break], sent_line quit_line]"
  by code_simp+

lemma pieces_delivered:
  "list_all2 delivers [sent_line ''a'' @ sent_line ''a'' @ [line_break], sent_line ''hi'', sent_line ''BYE''] (tl pieces)"
  by code_simp

lemma session_transcript_witness:
  "snd (client_main (\<lambda>f. None) (concat (map sent_line [''LIST'', ''ECHO hi'', quit_line])) (concat pieces)) =
     [INFO_MESSAGE, ''> '', sent_line ''a'' @ sent_line ''a'' @ [line_break], ''> '', sent_line ''hi'', ''> '', sent_line ''BYE'']"
proof -
  let ?lines = "[''LIST'', ''ECHO hi'']"
  let ?s = "handle_client small_fs ''/srv'' [] ?lines"
  have e: "\<not> ended ?s" by code_simp
  have "hd (replies ?s) = INFO_MESSAGE \<and> replies ?s \<noteq> []"
    using replies_grow [of small_fs "''/srv''" "[]" "\<lparr>current_dir = ''/srv'', replies = [INFO_MESSAGE], ended = False, overrun = False\<rparr>" ?lines]
    unfolding handle_client_def by (metis append_Cons client_session.select_convs(2) list.distinct(1) list.sel(1))
  then have r: "replies ?s = [INFO_MESSAGE, sent_line ''a'' @ sent_line ''a'' @ [line_break], sent_line ''hi'']"
    using small_replies by (metis list.collapse)
  have q: "replies (handle_client small_fs ''/srv'' [] (?lines @ [quit_line])) = replies ?s @ [sent_line ''BYE'']"
    using e quit_reaction by (simp only: handle_client_snoc serve_read_def) (simp add: quit_line_def MAX_BUFFER_def sent_line_def)
  have d: "list_all2 delivers (replies (handle_client small_fs ''/srv'' [] (?lines @ [quit_line]))) pieces"
    unfolding q r using greeting_delivered pieces_delivered by (simp add: pieces_def del: delivers.simps)
  from session_transcript [OF pieces_arrive(1) e pieces_arrive(2) d, of "\<lambda>f. None" "[]"]
  show ?thesis unfolding q r by (simp add: shown_after_prompts_def)
qed

end
