(* ===== verification/Child_Signals.thy ===== *)
theory Child_Signals
  imports Text
begin

text \<open>
  Lab3: a parent that creates and kills children, and children that count the pairs they see in their
  own SIGUSR1 handler and ask the parent, by SIGUSR1, for permission to report.

  A step is a statement of one process, the calls of \<open>sigaction\<close> with which it starts included. A signal that is not real-time is pending at most once, and
  the first sender is the one its handler is told: \<open>usr1\<close> is that sender for the parent, \<open>usr2\<close> of a
  child whether SIGUSR2 is pending for it. \<open>raise\<close> runs the handler before it returns. A command of the
  parent is one step: what its handler can do in between, \<open>kill\<close> with SIGUSR2, changes nothing for a
  child that the command kills and does not depend on the rest of the command.
\<close>

definition CYCLE_LIMIT :: int where "CYCLE_LIMIT = 101"
definition MAX_CHILDREN :: nat where "MAX_CHILDREN = 100"

section \<open>A child\<close>

datatype child_pc = Install_usr1 | Install_usr2 | Nap | Set_a | Set_b | Flip | Raise | Check | Tell | Enter_pause | Paused | Report | Clear_counts | Clear_cycle

text \<open>\<open>stats\<close> is what the child has printed: the counts of (0,0), (0,1), (1,0) and (1,1) of each report.\<close>

record child =
  place :: child_pc
  toggle :: bool
  data_a :: int
  data_b :: int
  count00 :: int
  count01 :: int
  count10 :: int
  count11 :: int
  cycle_count :: int
  usr2 :: bool
  stats :: "(int \<times> int \<times> int \<times> int) list"

definition new_child :: child where
  "new_child =
     \<lparr>place = Install_usr1, toggle = False, data_a = 0, data_b = 0, count00 = 0, count01 = 0, count10 = 0, count11 = 0,
      cycle_count = 0, usr2 = False, stats = []\<rparr>"

definition child_sigusr1_handler :: "child \<Rightarrow> child" where
  "child_sigusr1_handler c =
     (let local_a = data_a c; local_b = data_b c;
          c' = (if local_a = 0 \<and> local_b = 0 then c\<lparr>count00 := count00 c + 1\<rparr>
                else if local_a = 0 \<and> local_b = 1 then c\<lparr>count01 := count01 c + 1\<rparr>
                else if local_a = 1 \<and> local_b = 0 then c\<lparr>count10 := count10 c + 1\<rparr>
                else if local_a = 1 \<and> local_b = 1 then c\<lparr>count11 := count11 c + 1\<rparr>
                else c)
      in c'\<lparr>cycle_count := cycle_count c + 1\<rparr>)"

text \<open>
  The next statement of \<open>child_process\<close>, and whether it sends SIGUSR1 to the parent; nothing while the
  child is in \<open>pause\<close>.
\<close>

fun child_process :: "child_pc \<Rightarrow> child \<Rightarrow> (child \<times> bool) option" where
  "child_process Install_usr1 c = Some (c\<lparr>place := Install_usr2\<rparr>, False)"
| "child_process Install_usr2 c = Some (c\<lparr>place := Nap\<rparr>, False)"
| "child_process Nap c = Some (c\<lparr>place := Set_a\<rparr>, False)"
| "child_process Set_a c = Some (c\<lparr>data_a := (if toggle c then 0 else 1), place := Set_b\<rparr>, False)"
| "child_process Set_b c = Some (c\<lparr>data_b := (if toggle c then 0 else 1), place := Flip\<rparr>, False)"
| "child_process Flip c = Some (c\<lparr>toggle := \<not> toggle c, place := Raise\<rparr>, False)"
| "child_process Raise c = Some ((child_sigusr1_handler c)\<lparr>place := Check\<rparr>, False)"
| "child_process Check c = Some (c\<lparr>place := (if CYCLE_LIMIT \<le> cycle_count c then Tell else Nap)\<rparr>, False)"
| "child_process Tell c = Some (c\<lparr>place := Enter_pause\<rparr>, True)"
| "child_process Enter_pause c = Some (c\<lparr>place := Paused\<rparr>, False)"
| "child_process Paused c = None"
| "child_process Report c =
     Some (c\<lparr>stats := stats c @ [(count00 c, count01 c, count10 c, count11 c)], place := Clear_counts\<rparr>, False)"
| "child_process Clear_counts c =
     Some (c\<lparr>count00 := 0, count01 := 0, count10 := 0, count11 := 0, place := Clear_cycle\<rparr>, False)"
| "child_process Clear_cycle c = Some (c\<lparr>cycle_count := 0, place := Nap\<rparr>, False)"

text \<open>
  \<open>setup_child_signal_handlers\<close>: until its second \<open>sigaction\<close> has succeeded a child has no handler for SIGUSR2,
  which then ends it; and it exits when one of the two fails.
\<close>

definition setting_up :: "child \<Rightarrow> bool" where
  "setting_up c \<longleftrightarrow> place c = Install_usr1 \<or> place c = Install_usr2"

text \<open>\<open>child_sigusr2_handler\<close> does nothing; that it ran ends a \<open>pause\<close> the child is in, and no other.\<close>

definition child_sigusr2_handler :: "child \<Rightarrow> child" where
  "child_sigusr2_handler c = c\<lparr>usr2 := False, place := (if place c = Paused then Report else place c)\<rparr>"

section \<open>The parent\<close>

text \<open>
  \<open>self\<close> is the parent's own number, \<open>children\<close> the array of \<open>MAX_CHILDREN\<close> process numbers; \<open>procs\<close> holds the live children; \<open>handling\<close> is
  the sender when the parent is inside its handler.
\<close>

record family =
  self :: int
  children :: "int list"
  child_count :: nat
  procs :: "int \<Rightarrow> child option"
  usr1 :: "int option"
  handling :: "int option"
  exited :: bool
  printed :: "string list"

definition say :: "string \<Rightarrow> family \<Rightarrow> family" where
  "say line w = w\<lparr>printed := printed w @ [line]\<rparr>"

text \<open>\<open>setup_parent_signal_handlers\<close>, when \<open>sigaction\<close> succeeds or not, and the lines \<open>main\<close> prints first.\<close>

definition setup_parent_signal_handlers :: "bool \<Rightarrow> family \<Rightarrow> family" where
  "setup_parent_signal_handlers installed w = (if installed then w else w\<lparr>exited := True\<rparr>)"

definition greeting :: "family \<Rightarrow> family" where
  "greeting w =
     (if exited w then w
      else
        say ''Commands: + (create), - (kill last), l (list), k (kill all), q (quit)''
          (say (''Parent process started (PID='' @ decimal_int (self w) @ '')'') w))"

definition start_family :: "int \<Rightarrow> bool \<Rightarrow> family" where
  "start_family pid installed =
     greeting (setup_parent_signal_handlers installed
       \<lparr>self = pid, children = replicate MAX_CHILDREN 0, child_count = 0, procs = (\<lambda>_. None), usr1 = None, handling = None,
        exited = False, printed = []\<rparr>)"

text \<open>\<open>fork\<close>: the number of the new child, or -1 when it fails, which is stored all the same.\<close>

definition create_child :: "int option \<Rightarrow> family \<Rightarrow> family option" where
  "create_child fork_result w =
     (if MAX_CHILDREN \<le> child_count w then Some (say ''Maximum children limit (100) reached'' w)
      else
        (case fork_result of
           None \<Rightarrow>
             Some (say (''Created child '' @ decimal (child_count w + 1) @ '' (PID=-1)'')
               (w\<lparr>children := (children w)[child_count w := - 1], child_count := child_count w + 1\<rparr>))
         | Some pid \<Rightarrow>
             (if 0 < pid \<and> pid \<noteq> self w \<and> procs w pid = None
              then Some (say (''Created child '' @ decimal (child_count w + 1) @ '' (PID='' @ decimal_int pid @ '')'')
                (w\<lparr>children := (children w)[child_count w := pid], child_count := child_count w + 1,
                   procs := (procs w)(pid \<mapsto> new_child)\<rparr>))
              else None)))"

text \<open>\<open>kill\<close> with SIGTERM and \<open>waitpid\<close>; the process number -1 stands for every process.\<close>

definition terminate :: "int \<Rightarrow> family \<Rightarrow> family" where
  "terminate pid w = w\<lparr>procs := (if pid = - 1 then (\<lambda>_. None) else (procs w)(pid := None))\<rparr>"

definition kill_last_child_process :: "family \<Rightarrow> family" where
  "kill_last_child_process w =
     (if child_count w = 0 then say ''No children to kill'' w
      else
        (let n = child_count w - 1; pid = children w ! n in
         say (''Killed child process (PID='' @ decimal_int pid @ ''), remaining: '' @ decimal n)
           (terminate pid (w\<lparr>child_count := n\<rparr>))))"

fun list_lines :: "nat \<Rightarrow> int list \<Rightarrow> string list" where
  "list_lines i [] = []"
| "list_lines i (pid # pids) = (''  '' @ decimal (i + 1) @ '': PID='' @ decimal_int pid) # list_lines (i + 1) pids"

definition list_children :: "family \<Rightarrow> family" where
  "list_children w =
     w\<lparr>printed := printed w @ (''Active child processes ('' @ decimal (child_count w) @ ''):'')
         # list_lines 0 (take (child_count w) (children w))\<rparr>"

definition kill_all_child_processes :: "family \<Rightarrow> family" where
  "kill_all_child_processes w =
     say ''All child processes killed'' ((foldl (\<lambda>v pid. terminate pid v) w (take (child_count w) (children w)))\<lparr>child_count := 0\<rparr>)"

definition exit_the_program :: "family \<Rightarrow> family" where
  "exit_the_program w =
     (say ''Parent exiting'' (if child_count w \<noteq> 0 then kill_all_child_processes w else w))\<lparr>exited := True\<rparr>"

text \<open>One character of the input; the end of the input is no command, and \<open>getchar\<close> is called again for ever.\<close>

definition command :: "char \<Rightarrow> int option \<Rightarrow> family \<Rightarrow> family option" where
  "command symbol fork_result w =
     (if symbol = CHR ''+'' then create_child fork_result w
      else if symbol = CHR ''-'' then Some (kill_last_child_process w)
      else if symbol = CHR ''l'' then Some (list_children w)
      else if symbol = CHR ''k'' then Some (kill_all_child_processes w)
      else if symbol = CHR ''q'' then Some (exit_the_program w)
      else if symbol = line_break then Some w
      else Some (say (''Unknown command: '' @ [CHR 0x27, symbol, CHR 0x27]) w))"

section \<open>Steps\<close>

text \<open>
  \<open>Command\<close> is a character read by the parent, with the result of \<open>fork\<close>; \<open>Handle\<close> and \<open>Answer\<close> are the
  entry of its handler and the \<open>kill\<close> in it; \<open>Child\<close> a statement of a child, \<open>No_handler\<close> a \<open>sigaction\<close> of a
  child that fails, and \<open>Deliver\<close> the delivery of SIGUSR2 to it.
\<close>

datatype signal_action = Command char "int option" | Handle | Answer | Child int | No_handler int | Deliver int

definition send_usr1 :: "int \<Rightarrow> family \<Rightarrow> family" where
  "send_usr1 sender w = w\<lparr>usr1 := (case usr1 w of None \<Rightarrow> Some sender | Some first \<Rightarrow> Some first)\<rparr>"

definition send_usr2 :: "int \<Rightarrow> family \<Rightarrow> family" where
  "send_usr2 pid w = w\<lparr>procs := (procs w)(pid := map_option (\<lambda>c. c\<lparr>usr2 := True\<rparr>) (procs w pid))\<rparr>"

fun signal_step :: "family \<Rightarrow> signal_action \<Rightarrow> family option" where
  "signal_step w (Command symbol fork_result) = (if exited w \<or> handling w \<noteq> None then None else command symbol fork_result w)"
| "signal_step w Handle =
     (if exited w \<or> handling w \<noteq> None then None
      else
        (case usr1 w of
           None \<Rightarrow> None
         | Some sender \<Rightarrow>
             Some (say (''Parent (PID='' @ decimal_int (self w) @ ''): Received signal from child (PID='' @ decimal_int sender @ '')'')
               (w\<lparr>usr1 := None, handling := Some sender\<rparr>))))"
| "signal_step w Answer = (case handling w of None \<Rightarrow> None | Some sender \<Rightarrow> Some ((send_usr2 sender w)\<lparr>handling := None\<rparr>))"
| "signal_step w (Child pid) =
     (case procs w pid of
        None \<Rightarrow> None
      | Some c \<Rightarrow>
          (case child_process (place c) c of
             None \<Rightarrow> None
           | Some (c', tells) \<Rightarrow>
               (let w' = w\<lparr>procs := (procs w)(pid \<mapsto> c')\<rparr> in Some (if tells then send_usr1 pid w' else w'))))"
| "signal_step w (No_handler pid) =
     (case procs w pid of
        None \<Rightarrow> None
      | Some c \<Rightarrow> (if setting_up c then Some (w\<lparr>procs := (procs w)(pid := None)\<rparr>) else None))"
| "signal_step w (Deliver pid) =
     (case procs w pid of
        None \<Rightarrow> None
      | Some c \<Rightarrow> 
          (if usr2 c
           then Some (w\<lparr>procs := (procs w)(pid := if setting_up c then None else Some (child_sigusr2_handler c))\<rparr>)
           else None))"

end
