(* ===== verification/Child_Signals_Props.thy ===== *)
theory Child_Signals_Props
  imports Child_Signals
begin

text \<open>
  What the signals of Lab3 achieve: the numbers every child reports, that the parent's commands reach
  every child, and how a child comes to wait for ever.
\<close>

section \<open>The counts of a child\<close>

text \<open>
  \<open>rounds r n\<close> is the count of (1,1), \<open>n\<close> rounds into the report of number \<open>r\<close>: the first round of an
  even report sets the pair to (1,1), that of an odd report to (0,0).
\<close>

definition ones :: "nat \<Rightarrow> nat \<Rightarrow> nat" where
  "ones r n = (if even r then (n + 1) div 2 else n div 2)"

definition report :: "nat \<Rightarrow> int \<times> int \<times> int \<times> int" where
  "report k = (if even k then (50, 0, 0, 51) else (51, 0, 0, 50))"

definition bit :: "bool \<Rightarrow> int" where
  "bit t = (if t then 0 else 1)"

definition counts_ok :: "child \<Rightarrow> nat \<Rightarrow> nat \<Rightarrow> bool" where
  "counts_ok c r n \<longleftrightarrow>
     count00 c = int (n - ones r n) \<and> count01 c = 0 \<and> count10 c = 0 \<and> count11 c = int (ones r n) \<and> cycle_count c = int n"

text \<open>What holds at each statement, \<open>r\<close> being the number of reports made.\<close>

fun at_pc :: "child_pc \<Rightarrow> child \<Rightarrow> nat \<Rightarrow> bool" where
  "at_pc Install_usr1 c r \<longleftrightarrow> (\<exists>n \<le> 100. counts_ok c r n \<and> toggle c = odd (r + n))"
| "at_pc Install_usr2 c r \<longleftrightarrow> (\<exists>n \<le> 100. counts_ok c r n \<and> toggle c = odd (r + n))"
| "at_pc Nap c r \<longleftrightarrow> (\<exists>n \<le> 100. counts_ok c r n \<and> toggle c = odd (r + n))"
| "at_pc Set_a c r \<longleftrightarrow> (\<exists>n \<le> 100. counts_ok c r n \<and> toggle c = odd (r + n))"
| "at_pc Set_b c r \<longleftrightarrow> (\<exists>n \<le> 100. counts_ok c r n \<and> toggle c = odd (r + n)) \<and> data_a c = bit (toggle c)"
| "at_pc Flip c r \<longleftrightarrow>
     (\<exists>n \<le> 100. counts_ok c r n \<and> toggle c = odd (r + n)) \<and> data_a c = bit (toggle c) \<and> data_b c = bit (toggle c)"
| "at_pc Raise c r \<longleftrightarrow>
     (\<exists>n \<le> 100. counts_ok c r n \<and> toggle c = even (r + n)) \<and> data_a c = bit (\<not> toggle c) \<and> data_b c = bit (\<not> toggle c)"
| "at_pc Check c r \<longleftrightarrow> (\<exists>n \<le> 101. counts_ok c r n \<and> toggle c = odd (r + n))"
| "at_pc Clear_counts c r \<longleftrightarrow> toggle c = odd r"
| "at_pc Clear_cycle c r \<longleftrightarrow> toggle c = odd r \<and> count00 c = 0 \<and> count01 c = 0 \<and> count10 c = 0 \<and> count11 c = 0"
| "at_pc _ c r \<longleftrightarrow> counts_ok c r 101 \<and> toggle c = even r"

definition child_ok :: "child \<Rightarrow> bool" where
  "child_ok c \<longleftrightarrow> at_pc (place c) c (length (stats c)) \<and> (\<forall>k < length (stats c). stats c ! k = report k)"

lemma ones_le: "ones r n \<le> n"
  unfolding ones_def by presburger

lemma ones_Suc: "ones r (Suc n) = (if even (r + n) then Suc (ones r n) else ones r n)"
  by (auto simp: ones_def elim!: evenE oddE)

lemma counts_ok_next:
  assumes "counts_ok c r n" and "data_a c = bit (odd (r + n))" and "data_b c = bit (odd (r + n))"
  shows "counts_ok (child_sigusr1_handler c) r (Suc n)"
  using assms ones_le [of r n]
  by (auto simp: counts_ok_def child_sigusr1_handler_def Let_def bit_def ones_Suc Suc_diff_le)

lemma counts_ok_fields [simp]:
  "counts_ok (c\<lparr>place := p\<rparr>) r n = counts_ok c r n"
  "counts_ok (c\<lparr>toggle := t\<rparr>) r n = counts_ok c r n"
  "counts_ok (c\<lparr>data_a := a\<rparr>) r n = counts_ok c r n"
  "counts_ok (c\<lparr>data_b := a\<rparr>) r n = counts_ok c r n"
  "counts_ok (c\<lparr>usr2 := u\<rparr>) r n = counts_ok c r n"
  by (simp_all add: counts_ok_def)

lemma handler_fields [simp]:
  "place (child_sigusr1_handler c) = place c" "toggle (child_sigusr1_handler c) = toggle c"
  "usr2 (child_sigusr1_handler c) = usr2 c" "stats (child_sigusr1_handler c) = stats c"
  by (auto simp: child_sigusr1_handler_def Let_def)

lemma at_pc_usr2 [simp]: "at_pc p (c\<lparr>usr2 := u\<rparr>) r = at_pc p c r"
  by (cases p) auto

lemma at_pc_place [simp]: "at_pc p (c\<lparr>place := q\<rparr>) r = at_pc p c r"
  by (cases p) auto

lemma counts_ok_report: "counts_ok c r 101 \<Longrightarrow> (count00 c, count01 c, count10 c, count11 c) = report r"
  by (auto simp: counts_ok_def report_def ones_def)

lemma child_ok_start: "child_ok new_child"
  by (auto simp: child_ok_def new_child_def counts_ok_def ones_def intro!: exI [of _ 0])

lemma child_ok_process:
  assumes "child_ok c" and "child_process (place c) c = Some (c', tells)"
  shows "child_ok c'"
proof (cases "place c")
  case Raise
  then obtain n where n: "n \<le> 100" "counts_ok c (length (stats c)) n" "toggle c = even (length (stats c) + n)"
    "data_a c = bit (odd (length (stats c) + n))" "data_b c = bit (odd (length (stats c) + n))"
    using assms(1) by (auto simp: child_ok_def)
  have "at_pc Check (child_sigusr1_handler c) (length (stats c))"
    using counts_ok_next [OF n(2,4,5)] n(1,3) by (auto intro!: exI [of _ "Suc n"])
  then show ?thesis using assms Raise by (auto simp: child_ok_def)
next
  case Check
  then obtain n where n: "n \<le> 101" "counts_ok c (length (stats c)) n" "toggle c = odd (length (stats c) + n)"
    using assms(1) by (auto simp: child_ok_def)
  then have "cycle_count c = int n" by (simp add: counts_ok_def)
  show ?thesis
  proof (cases "n = 101")
    case True
    then show ?thesis using assms Check n \<open>cycle_count c = int n\<close> by (auto simp: child_ok_def CYCLE_LIMIT_def)
  next
    case False
    then have "at_pc Nap c (length (stats c))" using n by (auto intro!: exI [of _ n])
    moreover have "c' = c\<lparr>place := Nap\<rparr>"
      using assms(2) Check \<open>cycle_count c = int n\<close> n(1) False by (auto simp: CYCLE_LIMIT_def)
    ultimately show ?thesis using assms(1) by (auto simp: child_ok_def simp del: at_pc.simps)
  qed
next
  case Report
  then have "counts_ok c (length (stats c)) 101" "toggle c = even (length (stats c))"
    using assms(1) by (auto simp: child_ok_def)
  then show ?thesis
    using assms Report counts_ok_report [of c "length (stats c)"] by (auto simp: child_ok_def nth_append less_Suc_eq)
next
  case Clear_cycle
  then have "counts_ok c' (length (stats c)) 0 \<and> toggle c' = odd (length (stats c))"
    using assms by (auto simp: child_ok_def counts_ok_def ones_def)
  then have "at_pc Nap c' (length (stats c))" by (auto intro: exI [of _ 0])
  then show ?thesis using assms Clear_cycle by (auto simp: child_ok_def simp del: at_pc.simps)
qed (use assms in \<open>auto simp: child_ok_def bit_def\<close>)

lemma child_ok_deliver: "child_ok c \<Longrightarrow> child_ok (child_sigusr2_handler c)"
  by (cases "place c") (auto simp: child_ok_def child_sigusr2_handler_def)

section \<open>The parent and its children\<close>

definition registered :: "family \<Rightarrow> int list" where
  "registered w = take (child_count w) (children w)"

definition family_ok :: "family \<Rightarrow> bool" where
  "family_ok w \<longleftrightarrow>
     length (children w) = MAX_CHILDREN \<and> child_count w \<le> MAX_CHILDREN
     \<and> (\<forall>pid c. procs w pid = Some c \<longrightarrow> pid \<in> set (registered w) \<and> child_ok c)"

lemma report_line_fields [simp]:
  "children (say l w) = children w" "self (say l w) = self w" "child_count (say l w) = child_count w" "procs (say l w) = procs w"
  "usr1 (say l w) = usr1 w" "handling (say l w) = handling w" "exited (say l w) = exited w"
  by (simp_all add: say_def)

lemma terminate_fields [simp]:
  "children (terminate p w) = children w" "child_count (terminate p w) = child_count w"
  "usr1 (terminate p w) = usr1 w" "handling (terminate p w) = handling w" "exited (terminate p w) = exited w"
  by (simp_all add: terminate_def)

lemma terminate_all:
  "procs (foldl (\<lambda>v pid. terminate pid v) w ps) q = (if q \<in> set ps \<or> - 1 \<in> set ps then None else procs w q)"
  "children (foldl (\<lambda>v pid. terminate pid v) w ps) = children w"
  "child_count (foldl (\<lambda>v pid. terminate pid v) w ps) = child_count w"
  by (induction ps arbitrary: w) (auto simp: terminate_def)

lemma family_ok_say [simp]: "family_ok (say l w) = family_ok w"
  by (simp add: family_ok_def registered_def)

lemma family_ok_kill_all:
  "family_ok w \<Longrightarrow> family_ok (kill_all_child_processes w) \<and> procs (kill_all_child_processes w) = (\<lambda>_. None)"
  by (auto simp: kill_all_child_processes_def family_ok_def registered_def terminate_all fun_eq_iff)
    (metis not_Some_eq)+

lemma take_butlast_set:
  "n \<noteq> 0 \<Longrightarrow> n \<le> length xs \<Longrightarrow> x \<in> set (take n xs) \<Longrightarrow> x \<noteq> xs ! (n - 1) \<Longrightarrow> x \<in> set (take (n - 1) xs)"
  by (cases n) (auto simp: take_Suc_conv_app_nth)

lemma family_ok_kill_last: "family_ok w \<Longrightarrow> family_ok (kill_last_child_process w)"
  using take_butlast_set [of "child_count w" "children w"]
  by (auto simp: kill_last_child_process_def family_ok_def registered_def terminate_def Let_def split: if_splits)

lemma registered_new:
  "n < length xs \<Longrightarrow> set (take (n + 1) (xs[n := x])) = insert x (set (take n xs))"
  by (simp add: take_Suc_conv_app_nth)

lemma family_ok_create: "family_ok w \<Longrightarrow> create_child f w = Some w' \<Longrightarrow> family_ok w'"
  using registered_new [of "child_count w" "children w"]
  by (auto simp: create_child_def family_ok_def registered_def child_ok_start split: if_splits option.splits)

lemma family_ok_exit: "family_ok w \<Longrightarrow> family_ok (exit_the_program w)"
  using family_ok_kill_all [of w] by (auto simp: exit_the_program_def family_ok_def registered_def)

lemma family_ok_list: "family_ok w \<Longrightarrow> family_ok (list_children w)"
  by (simp add: family_ok_def registered_def list_children_def)

lemma family_ok_command: "family_ok w \<Longrightarrow> command symbol f w = Some w' \<Longrightarrow> family_ok w'"
  using family_ok_create [of w f w'] family_ok_kill_last [of w] family_ok_kill_all [of w] family_ok_exit [of w] family_ok_list [of w]
  by (auto simp: command_def split: if_split_asm)

lemma family_ok_child:
  "family_ok w \<Longrightarrow> procs w pid = Some c \<Longrightarrow> child_ok c' \<Longrightarrow> family_ok (w\<lparr>procs := (procs w)(pid \<mapsto> c')\<rparr>)"
  by (auto simp: family_ok_def registered_def)

lemma family_ok_gone: "family_ok w \<Longrightarrow> family_ok (w\<lparr>procs := (procs w)(pid := None)\<rparr>)"
  by (auto simp: family_ok_def registered_def)

lemma family_ok_usr1 [simp]:
  "family_ok (send_usr1 p w) = family_ok w" "family_ok (w\<lparr>handling := h\<rparr>) = family_ok w"
  "family_ok (w\<lparr>usr1 := u\<rparr>) = family_ok w"
  by (simp_all add: send_usr1_def family_ok_def registered_def)

lemma family_ok_usr2: "family_ok w \<Longrightarrow> family_ok (send_usr2 p w)"
  by (auto simp: send_usr2_def family_ok_def registered_def child_ok_def split: if_splits simp del: at_pc.simps)

lemma family_ok_step:
  assumes "family_ok w" and "signal_step w a = Some w'"
  shows "family_ok w'"
proof (cases a)
  case (Command symbol f)
  then show ?thesis using assms family_ok_command by (auto split: if_splits)
next
  case Handle
  then show ?thesis using assms by (auto split: if_splits option.splits)
next
  case Answer
  then show ?thesis using assms family_ok_usr2 by (auto split: option.splits)
next
  case (Child pid)
  then obtain c c' tells where c: "procs w pid = Some c" "child_process (place c) c = Some (c', tells)"
    "w' = (let v = w\<lparr>procs := (procs w)(pid \<mapsto> c')\<rparr> in if tells then send_usr1 pid v else v)"
    using assms(2) by (auto simp: Let_def split: option.splits)
  have "child_ok c'" using assms(1) c by (auto simp: family_ok_def intro: child_ok_process)
  from family_ok_child [OF assms(1) c(1) this] show ?thesis using c(3) by (simp add: Let_def)
next
  case (No_handler pid)
  then show ?thesis using assms family_ok_gone by (auto split: option.splits if_splits)
next
  case (Deliver pid)
  then obtain c where c: "procs w pid = Some c"
    "w' = w\<lparr>procs := (procs w)(pid := if setting_up c then None else Some (child_sigusr2_handler c))\<rparr>"
    using assms(2) by (auto split: option.splits if_splits)
  have "child_ok (child_sigusr2_handler c)" using assms(1) c(1) by (auto simp: family_ok_def intro: child_ok_deliver)
  from family_ok_child [OF assms(1) c(1) this] family_ok_gone [OF assms(1), of pid] show ?thesis
    using c(2) by (cases "setting_up c") simp_all
qed

lemmas start_simps = start_family_def greeting_def setup_parent_signal_handlers_def

lemma family_ok_start: "family_ok (start_family me installed)"
  by (auto simp: family_ok_def registered_def start_simps)

interpretation signals: invariant_machine signal_step "start_family me installed" family_ok for me installed
proof unfold_locales
  show "family_ok (start_family me installed)" for me installed by (rule family_ok_start)
  show "family_ok w \<Longrightarrow> signal_step w a = Some w' \<Longrightarrow> family_ok w'" for w a w' by (rule family_ok_step)
qed

text \<open>
  C14 In every interleaving of the parent, its children and the deliveries of signals, each report of a
  child, but never a mixed pair, is the whole 101 rounds: (0,0) 50 times and (1,1) 51 times in its first
  report, then the other way round, and so on by turns.
\<close>

theorem reports_alternate:
  assumes "reachable signal_step (start_family me installed) w" and "procs w pid = Some c" and "k < length (stats c)"
  shows "stats c ! k = (if even k then (50, 0, 0, 51) else (51, 0, 0, 50))"
  using signals.inv_reachable [OF assms(1)] assms(2,3) by (auto simp: family_ok_def child_ok_def report_def)

text \<open>
  C25 The parent knows all its children: at every moment its array is within its 100 places, each live
  child is among the registered ones, and a \<open>k\<close> or \<open>q\<close> leaves no child alive, even after a \<open>fork\<close> failed.
\<close>

theorem commands_reach_every_child:
  assumes "reachable signal_step (start_family me installed) w"
  shows "length (children w) = MAX_CHILDREN \<and> child_count w \<le> MAX_CHILDREN
    \<and> dom (procs w) \<subseteq> set (take (child_count w) (children w))
    \<and> (\<forall>symbol f w'. symbol \<in> {CHR ''k'', CHR ''q''} \<and> signal_step w (Command symbol f) = Some w' \<longrightarrow> dom (procs w') = {})"
proof -
  have ok: "family_ok w" using assms by (rule signals.inv_reachable)
  have dead: "dom (procs w') = {}" if "symbol \<in> {CHR ''k'', CHR ''q''}" "signal_step w (Command symbol f) = Some w'" for symbol f w'
    using that ok family_ok_kill_all [OF ok]
    by (auto simp: command_def exit_the_program_def family_ok_def registered_def split: if_splits)
  have "length (children w) = MAX_CHILDREN" "child_count w \<le> MAX_CHILDREN"
    "dom (procs w) \<subseteq> set (take (child_count w) (children w))"
    using ok by (auto simp: family_ok_def registered_def)
  then show ?thesis using dead by (intro conjI allI impI) (assumption | (elim conjE, assumption) | (elim conjE, rule dead, assumption+))+
qed

section \<open>Waiting for ever\<close>

text \<open>
  A child in \<open>pause\<close> with no SIGUSR2 on its way: none pending for it, its request not pending at the
  parent and not being answered.
\<close>

definition abandoned :: "int \<Rightarrow> family \<Rightarrow> bool" where
  "abandoned pid w \<longleftrightarrow>
     (case procs w pid of None \<Rightarrow> False
      | Some c \<Rightarrow> place c = Paused \<and> \<not> usr2 c \<and> usr1 w \<noteq> Some pid \<and> handling w \<noteq> Some pid)"

fun kills :: "signal_action \<Rightarrow> bool" where
  "kills (Command symbol f) = (symbol \<in> {CHR ''-'', CHR ''k'', CHR ''q''})"
| "kills _ = False"

lemma abandoned_step:
  assumes "abandoned pid w" and "signal_step w a = Some w'" and "\<not> kills a"
  shows "abandoned pid w' \<and> procs w' pid = procs w pid"
proof (cases a)
  case (Command symbol f)
  then have "create_child f w = Some w' \<or> procs w' = procs w \<and> usr1 w' = usr1 w \<and> handling w' = handling w"
    using assms(2,3) by (auto simp: command_def list_children_def split: if_splits)
  then show ?thesis
    using assms(1) by (auto simp: abandoned_def create_child_def split: option.splits if_splits)
next
  case (Child q)
  then show ?thesis
    using assms(1,2)
    by (cases "q = pid") (auto simp: abandoned_def send_usr1_def Let_def split: option.splits if_splits)
qed (use assms in \<open>auto simp: abandoned_def send_usr2_def setting_up_def split: option.splits if_splits\<close>)

lemma abandoned_run:
  "abandoned pid w \<Longrightarrow> run signal_step w as = Some w' \<Longrightarrow> \<forall>a \<in> set as. \<not> kills a
    \<Longrightarrow> abandoned pid w' \<and> procs w' pid = procs w pid"
proof (induction as arbitrary: w)
  case (Cons a as)
  then obtain v where "signal_step w a = Some v" "run signal_step v as = Some w'" by (auto split: option.splits)
  then show ?case using Cons.prems abandoned_step [of pid w a v] Cons.IH [of v] by simp
qed simp

lemma abandoned_for_ever:
  "abandoned pid w \<Longrightarrow> \<forall>as v. run signal_step w as = Some v \<and> (\<forall>a \<in> set as. \<not> kills a) \<longrightarrow> procs v pid = procs w pid"
  using abandoned_run by blast

lemma abandoned_iff:
  "procs w pid = Some c \<Longrightarrow>
     abandoned pid w \<longleftrightarrow> place c = Paused \<and> \<not> usr2 c \<and> usr1 w \<noteq> Some pid \<and> handling w \<noteq> Some pid"
  by (simp add: abandoned_def)

text \<open>
  C13 The wait for the parent is a race. A child that has filled its counts asks the parent and only then
  calls \<open>pause\<close>: if \<open>pause\<close> comes first it reports, but if the answer comes first, the \<open>pause\<close> after it never
  ends. Whatever is done from then on, short of killing it, the child stays there and reports nothing.
\<close>

theorem answer_before_pause_is_lost:
  assumes "procs w pid = Some c" and "place c = Tell" and "\<not> usr2 c"
    and "usr1 w = None" and "handling w = None" and "\<not> exited w"
  shows "(\<exists>v. run signal_step w [Child pid, Handle, Answer, Deliver pid, Child pid] = Some v \<and> abandoned pid v
        \<and> (\<forall>as u. run signal_step v as = Some u \<and> (\<forall>a \<in> set as. \<not> kills a) \<longrightarrow> procs u pid = procs v pid))
    \<and> (\<exists>v d. run signal_step w [Child pid, Child pid, Handle, Answer, Deliver pid, Child pid] = Some v \<and> procs v pid = Some d
        \<and> stats d = stats c @ [(count00 c, count01 c, count10 c, count11 c)])"
proof (intro conjI)
  obtain v where v: "run signal_step w [Child pid, Handle, Answer, Deliver pid, Child pid] = Some v"
    "procs v pid = Some (c\<lparr>place := Paused, usr2 := False\<rparr>)" "usr1 v = None" "handling v = None"
    using assms by (simp add: Let_def send_usr1_def send_usr2_def child_sigusr2_handler_def setting_up_def)
  then have "abandoned pid v" by (simp add: abandoned_iff)
  then show "\<exists>v. run signal_step w [Child pid, Handle, Answer, Deliver pid, Child pid] = Some v \<and> abandoned pid v
        \<and> (\<forall>as u. run signal_step v as = Some u \<and> (\<forall>a \<in> set as. \<not> kills a) \<longrightarrow> procs u pid = procs v pid)"
    using v(1) abandoned_for_ever by blast
next
  show "\<exists>v d. run signal_step w [Child pid, Child pid, Handle, Answer, Deliver pid, Child pid] = Some v \<and> procs v pid = Some d
        \<and> stats d = stats c @ [(count00 c, count01 c, count10 c, count11 c)]"
    using assms by (simp add: Let_def send_usr1_def send_usr2_def child_sigusr2_handler_def setting_up_def)
qed

text \<open>
  C24 Requests of two children merge. When a second child asks while the request of the first is pending,
  the parent answers the first only; the second pauses for ever, though it was in \<open>pause\<close> in time.
\<close>

theorem merged_request_is_lost:
  assumes "procs w p = Some c" and "place c = Tell" and "procs w q = Some d" and "place d = Tell" and "p \<noteq> q"
    and "\<not> usr2 d" and "usr1 w = None" and "handling w = None" and "\<not> exited w"
  shows "\<exists>v. run signal_step w [Child p, Child q, Child p, Child q, Handle, Answer, Deliver p] = Some v
    \<and> map_option place (procs v p) = Some Report \<and> abandoned q v
    \<and> (\<forall>as u. run signal_step v as = Some u \<and> (\<forall>a \<in> set as. \<not> kills a) \<longrightarrow> procs u q = procs v q)"
proof -
  obtain v where v: "run signal_step w [Child p, Child q, Child p, Child q, Handle, Answer, Deliver p] = Some v"
    "map_option place (procs v p) = Some Report" "procs v q = Some (d\<lparr>place := Paused\<rparr>)" "usr1 v = None" "handling v = None"
    using assms by (simp add: Let_def send_usr1_def send_usr2_def child_sigusr2_handler_def setting_up_def)
  then have "abandoned q v" using assms(6) by (simp add: abandoned_iff)
  then show ?thesis using v(1,2) abandoned_for_ever by blast
qed

section \<open>Reaching a full count\<close>

definition with_child :: "int \<Rightarrow> child \<Rightarrow> family \<Rightarrow> family" where
  "with_child pid c w = w\<lparr>procs := (procs w)(pid \<mapsto> c)\<rparr>"

lemma with_child_fields [simp]:
  "procs (with_child pid c w) = (procs w)(pid \<mapsto> c)" "usr1 (with_child pid c w) = usr1 w"
  "handling (with_child pid c w) = handling w" "exited (with_child pid c w) = exited w"
  "with_child pid c (with_child pid d w) = with_child pid c w"
  by (simp_all add: with_child_def)

lemma child_alone:
  "procs w pid = Some c \<Longrightarrow> child_process (place c) c = Some (d, False) \<Longrightarrow> signal_step w (Child pid) = Some (with_child pid d w)"
  by (simp add: with_child_def)

lemma one_round:
  assumes "procs w pid = Some c" and "place c = Nap"
  shows "\<exists>d. run signal_step w (replicate 6 (Child pid)) = Some (with_child pid d w)
    \<and> place d = (if 100 \<le> cycle_count c then Tell else Nap) \<and> cycle_count d = cycle_count c + 1 \<and> usr2 d = usr2 c"
proof -
  define e where "e = c\<lparr>data_a := bit (toggle c), data_b := bit (toggle c), toggle := \<not> toggle c\<rparr>"
  have n: "cycle_count (child_sigusr1_handler e) = cycle_count c + 1" "usr2 e = usr2 c"
    by (simp_all add: child_sigusr1_handler_def Let_def e_def)
  define d where "d = (child_sigusr1_handler e)\<lparr>place := if 100 \<le> cycle_count c then Tell else Nap\<rparr>"
  have pl: "child_sigusr1_handler (e\<lparr>place := p\<rparr>) = (child_sigusr1_handler e)\<lparr>place := p\<rparr>" for p
    by (simp add: child_sigusr1_handler_def Let_def)
  have "run signal_step w [Child pid, Child pid, Child pid, Child pid] = Some (with_child pid (e\<lparr>place := Raise\<rparr>) w)"
    using assms by (simp add: e_def with_child_def bit_def)
  moreover have "run signal_step (with_child pid (e\<lparr>place := Raise\<rparr>) w) [Child pid, Child pid] = Some (with_child pid d w)"
    using n(1) by (simp add: pl CYCLE_LIMIT_def d_def with_child_def)
  moreover have "replicate 6 (Child pid) = [Child pid, Child pid, Child pid, Child pid] @ [Child pid, Child pid]"
    by (simp add: eval_nat_numeral)
  ultimately have "run signal_step w (replicate 6 (Child pid)) = Some (with_child pid d w)"
    by (simp only: run_append option.case)
  moreover have "cycle_count d = cycle_count c + 1" "usr2 d = usr2 c" "place d = (if 100 \<le> cycle_count c then Tell else Nap)"
    using n by (simp_all add: d_def)
  ultimately show ?thesis by blast
qed

lemma count_fills:
  "procs w pid = Some c \<Longrightarrow> place c = Nap \<Longrightarrow> cycle_count c = 100 - int k \<Longrightarrow>
     \<exists>as d. run signal_step w as = Some (with_child pid d w) \<and> place d = Tell \<and> usr2 d = usr2 c"
proof (induction k arbitrary: w c)
  case 0
  then show ?case using one_round [of w pid c] by auto
next
  case (Suc k)
  then obtain d where d: "run signal_step w (replicate 6 (Child pid)) = Some (with_child pid d w)"
    "place d = Nap" "cycle_count d = 100 - int k" "usr2 d = usr2 c"
    using one_round [of w pid c] by auto
  then obtain as e where "run signal_step (with_child pid d w) as = Some (with_child pid e w)" "place e = Tell" "usr2 e = usr2 c"
    using Suc.IH [of "with_child pid d w" d] by auto
  then have "run signal_step w (replicate 6 (Child pid) @ as) = Some (with_child pid e w)" using d(1) by (simp add: run_append)
  then show ?case using \<open>place e = Tell\<close> \<open>usr2 e = usr2 c\<close> by blast
qed

text \<open>Two children, both with full counts and about to ask the parent.\<close>

lemma two_full_counts:
  "\<exists>w c d. reachable signal_step (start_family 4 True) w \<and> procs w 5 = Some c \<and> procs w 6 = Some d \<and> place c = Tell \<and> place d = Tell
    \<and> \<not> usr2 c \<and> \<not> usr2 d \<and> usr1 w = None \<and> handling w = None \<and> \<not> exited w"
proof -
  define as where "as = [Command (CHR ''+'') (Some 5), Command (CHR ''+'') (Some 6), Child 5, Child 5, Child 6, Child 6]"
  define nc where "nc = new_child\<lparr>place := Nap\<rparr>"
  define w0 where "w0 = the (run signal_step (start_family 4 True) as)"
  have w0: "run signal_step (start_family 4 True) as = Some w0"
    "procs w0 5 = Some nc" "procs w0 6 = Some nc" "usr1 w0 = None" "handling w0 = None" "\<not> exited w0"
    by (simp_all add: w0_def as_def nc_def start_simps command_def create_child_def MAX_CHILDREN_def new_child_def)
  have nc: "place nc = Nap" "cycle_count nc = 100 - int 100" "\<not> usr2 nc" by (simp_all add: nc_def new_child_def)
  from count_fills [OF w0(2) nc(1,2)] obtain cs c where c: "run signal_step w0 cs = Some (with_child 5 c w0)" "place c = Tell" "\<not> usr2 c"
    using nc(3) by auto
  have "procs (with_child 5 c w0) 6 = Some nc" using w0(3) by simp
  from count_fills [OF this nc(1,2)] obtain bs d where
    d: "run signal_step (with_child 5 c w0) bs = Some (with_child 6 d (with_child 5 c w0))" "place d = Tell" "\<not> usr2 d"
    using nc(3) by auto
  have "reachable signal_step (start_family 4 True) (with_child 6 d (with_child 5 c w0))"
    using run_reachable [OF w0(1)] c(1) d(1) by (blast intro: reachable_run)
  then show ?thesis using c d w0(4-) by (intro exI [of _ "with_child 6 d (with_child 5 c w0)"] exI [of _ c] exI [of _ d]) simp
qed

lemma answer_before_pause_is_lost_witness:
  "\<exists>v. reachable signal_step (start_family 4 True) v \<and> abandoned 5 v"
proof -
  obtain w c where w: "reachable signal_step (start_family 4 True) w" "procs w 5 = Some c" "place c = Tell" "\<not> usr2 c"
    "usr1 w = None" "handling w = None" "\<not> exited w"
    using two_full_counts by blast
  show ?thesis using answer_before_pause_is_lost [OF w(2-)] w(1) by (blast intro: reachable_run)
qed

lemma merged_request_is_lost_witness:
  "\<exists>v. reachable signal_step (start_family 4 True) v \<and> abandoned 6 v \<and> map_option place (procs v 5) = Some Report"
proof -
  obtain w c d where w: "reachable signal_step (start_family 4 True) w" "procs w 5 = Some c" "place c = Tell" "procs w 6 = Some d" "place d = Tell"
    "\<not> usr2 d" "usr1 w = None" "handling w = None" "\<not> exited w"
    using two_full_counts by blast
  have "(5 :: int) \<noteq> 6" by simp
  from merged_request_is_lost [OF w(2-5) this w(6-)] show ?thesis using w(1) by (blast intro: reachable_run)
qed

text \<open>A child that has reported once.\<close>

lemma reports_alternate_witness:
  "\<exists>w c. reachable signal_step (start_family 4 True) w \<and> procs w 5 = Some c \<and> stats c ! 0 = (50, 0, 0, 51)"
proof -
  obtain w c where w: "reachable signal_step (start_family 4 True) w" "procs w 5 = Some c" "place c = Tell" "\<not> usr2 c"
    "usr1 w = None" "handling w = None" "\<not> exited w"
    using two_full_counts by blast
  obtain v d where v: "run signal_step w [Child 5, Child 5, Handle, Answer, Deliver 5, Child 5] = Some v" "procs v 5 = Some d"
    "0 < length (stats d)"
    using w(2-) by (simp add: Let_def send_usr1_def send_usr2_def child_sigusr2_handler_def setting_up_def)
  have "reachable signal_step (start_family 4 True) v" using w(1) v(1) by (rule reachable_run)
  from this reports_alternate [OF this v(2,3)] v(2) show ?thesis by auto
qed

lemma commands_reach_every_child_witness:
  "\<exists>w. run signal_step (start_family 4 True) [Command (CHR ''+'') (Some 5), Command (CHR ''+'') None] = Some w
     \<and> take 2 (children w) = [5, - 1] \<and> dom (procs w) \<subseteq> {5, - 1}"
proof -
  define w where "w = the (run signal_step (start_family 4 True) [Command (CHR ''+'') (Some 5), Command (CHR ''+'') None])"
  have r: "run signal_step (start_family 4 True) [Command (CHR ''+'') (Some 5), Command (CHR ''+'') None] = Some w"
    and c: "child_count w = 2" "take 2 (children w) = [5, - 1]"
    by (simp_all add: w_def start_simps command_def create_child_def MAX_CHILDREN_def eval_nat_numeral say_def)
  have "dom (procs w) \<subseteq> set (take (child_count w) (children w))"
    using commands_reach_every_child [OF run_reachable [OF r]] by blast
  then show ?thesis using c r by (intro exI [of _ w]) simp
qed

end
