(* ===== verification/Env_Children.thy ===== *)
theory Env_Children
  imports Text "HOL-Library.Char_ord" "HOL-Library.List_Lexorder"
begin

text \<open>
  Lab2: a parent that starts children with a chosen environment, and the child, which prints it. The
  file \<open>env.txt\<close>, the environment of the parent, and whether \<open>malloc\<close>, \<open>fork\<close> and \<open>execve\<close> succeed
  are given.
\<close>

definition MAX_CHILD :: nat where "MAX_CHILD = 99"
definition MAX_ENV :: nat where "MAX_ENV = 1024"

section \<open>Environments\<close>

definition getenv :: "string list \<Rightarrow> string \<Rightarrow> string option" where
  "getenv env name =
     (if name = [] then None
      else map_option (drop (length name + 1)) (find (\<lambda>e. take (length name + 1) e = name @ ''='') env))"

text \<open>
  \<open>env_list\<close> has \<open>MAX_ENV\<close> places; \<open>None\<close> is a write past it. No locale is set, so \<open>strcoll\<close> compares bytes.
\<close>

definition print_env_vars :: "string list \<Rightarrow> string list option" where
  "print_env_vars env = (if MAX_ENV < length env then None else Some (sort env))"

datatype env_array = No_file | No_memory | Overrun | Envp "string list"

text \<open>
  \<open>envp\<close> has 10 places, the last one written being the terminator. The result of \<open>fopen\<close> is not
  tested, that of \<open>malloc\<close> is: \<open>room n\<close> is whether \<open>n\<close> bytes can be had.
\<close>

fun fill_envp :: "(nat \<Rightarrow> bool) \<Rightarrow> string list \<Rightarrow> string list \<Rightarrow> string list \<Rightarrow> env_array" where
  "fill_envp room env envp [] = (if length envp < 10 then Envp envp else Overrun)"
| "fill_envp room env envp (name # names) =
     (case getenv env name of
        None \<Rightarrow> fill_envp room env envp names
      | Some value \<Rightarrow>
          (if length envp < 10 then
             (if room (length name + length value + 2) then fill_envp room env (envp @ [name @ ''='' @ value]) names
              else No_memory)
           else Overrun))"

definition read_env_file :: "(nat \<Rightarrow> bool) \<Rightarrow> string list \<Rightarrow> string option \<Rightarrow> env_array" where
  "read_env_file room env content =
     (case content of None \<Rightarrow> No_file | Some s \<Rightarrow> fill_envp room env [] (read_lines 256 s))"

section \<open>The child\<close>

definition env_from_file :: "string list \<Rightarrow> string option \<Rightarrow> string list option" where
  "env_from_file envp content =
     (case content of
        None \<Rightarrow> None
      | Some s \<Rightarrow>
          Some (concat (map (\<lambda>name. case getenv envp name of None \<Rightarrow> [] | Some value \<Rightarrow> [name @ ''='' @ value]) (read_lines 256 s))))"

definition env_from_envp :: "string list \<Rightarrow> string list" where
  "env_from_envp envp = envp"

text \<open>The lines a child prints after the line with its name; \<open>None\<close> when it exits with an error.\<close>

definition child_main :: "(string \<Rightarrow> string option) \<Rightarrow> string list \<Rightarrow> string list \<Rightarrow> string list option" where
  "child_main files argv envp =
     (if 1 < length argv then env_from_file envp (files (argv ! 1)) else Some (env_from_envp envp))"

section \<open>The parent\<close>

record machine =
  environ :: "string list"
  files :: "string \<Rightarrow> string option"
  malloc_ok :: "nat \<Rightarrow> bool"
  fork_ok :: bool
  execve :: "string \<Rightarrow> string list \<Rightarrow> string list \<Rightarrow> bool"

datatype creation = No_child_path | Exit_failure | Undefined_behaviour | Exec string "string list" "string list"

definition creat_child :: "machine \<Rightarrow> nat \<Rightarrow> bool \<Rightarrow> creation" where
  "creat_child m child_num from_file =
     (case getenv (environ m) ''CHILD_PATH'' of
        None \<Rightarrow> No_child_path
      | Some child_path \<Rightarrow>
          (let child = snprintf 256 (child_path @ ''/child'');
               child_name = snprintf 16 (''child_'' @ decimal2 child_num)
           in case read_env_file (malloc_ok m) (environ m) (files m ''env.txt'') of
                No_memory \<Rightarrow> Exit_failure
              | Envp envp \<Rightarrow> Exec child (if from_file then [child_name, ''env.txt''] else [child_name]) envp
              | _ \<Rightarrow> Undefined_behaviour))"

text \<open>
  The loop of the parent on input that is in its buffer: the children that were started, and how every
  process that runs this loop ends. After a failed \<open>execve\<close> the new process goes on in the loop, with
  a copy of all that the parent has, the rest of the buffer included.
\<close>

datatype ending = Waits | Fails | Reads_for_ever | Crashed

fun parent_loop :: "machine \<Rightarrow> nat \<Rightarrow> string \<Rightarrow> (string list \<times> string list) list \<times> ending list" where
  "parent_loop m child_num [] = ([], [Reads_for_ever])"
| "parent_loop m child_num (symbol # rest) =
     (if symbol = CHR ''+'' \<or> symbol = CHR ''*'' then
        (if child_num < MAX_CHILD then
           (case creat_child m child_num (symbol = CHR ''+'') of
              No_child_path \<Rightarrow> parent_loop m (child_num + 1) rest
            | Exit_failure \<Rightarrow> ([], [Fails])
            | Undefined_behaviour \<Rightarrow> ([], [Crashed])
            | Exec child argv envp \<Rightarrow>
                (case parent_loop m (child_num + 1) rest of (started, ends) \<Rightarrow>
                   (if \<not> fork_ok m then (started, ends)
                    else if execve m child argv envp then ((argv, envp) # started, ends)
                    else (started @ started, ends @ ends))))
         else parent_loop m child_num rest)
      else if symbol = CHR ''q'' then ([], [Waits])
      else parent_loop m child_num rest)"

definition parent_main :: "machine \<Rightarrow> string \<Rightarrow> (string list \<times> (string list \<times> string list) list \<times> ending list) option" where
  "parent_main m buffer = map_option (\<lambda>shown. (shown, parent_loop m 0 buffer)) (print_env_vars (environ m))"

end
