(* ===== verification/Env_Children_Props.thy ===== *)
theory Env_Children_Props
  imports Env_Children
begin

text \<open>
  What the two programs of Lab2 do: the two ways to print the environment agree, how long the list of
  names may be, and what a failed \<open>execve\<close> leads to.
\<close>

section \<open>The environment of a child\<close>

text \<open>What the file selects of an environment, in the order of the file.\<close>

definition selected :: "string list \<Rightarrow> string list \<Rightarrow> string list" where
  "selected env names = concat (map (\<lambda>n. case getenv env n of None \<Rightarrow> [] | Some v \<Rightarrow> [n @ ''='' @ v]) names)"

definition var_name :: "string \<Rightarrow> string" where
  "var_name e = takeWhile (\<lambda>c. c \<noteq> CHR ''='') e"

lemma selected_simps [simp]:
  "selected env [] = []"
  "selected env (n # ns) = (case getenv env n of None \<Rightarrow> [] | Some v \<Rightarrow> [n @ ''='' @ v]) @ selected env ns"
  by (simp_all add: selected_def)

lemma fill_envp_selected:
  "length envp \<le> 10 \<Longrightarrow> (\<And>n. room n) \<Longrightarrow>
     fill_envp room env envp names =
       (if length (envp @ selected env names) < 10 then Envp (envp @ selected env names) else Overrun)"
  by (induction names arbitrary: envp) (auto split: option.split)

lemma fill_envp_Envp: "fill_envp room env envp names = Envp e \<Longrightarrow> e = envp @ selected env names"
  by (induction names arbitrary: envp) (fastforce split: option.splits if_splits)+

lemma read_env_file_Envp: "read_env_file room env (Some s) = Envp e \<Longrightarrow> e = selected env (read_lines 256 s)"
  by (auto simp: read_env_file_def dest: fill_envp_Envp)

lemma read_env_file_selected:
  "(\<And>n. room n) \<Longrightarrow> read_env_file room env (Some s) =
     (if length (selected env (read_lines 256 s)) < 10 then Envp (selected env (read_lines 256 s)) else Overrun)"
  by (simp add: read_env_file_def fill_envp_selected)

lemma getenv_Some:
  "getenv env name = Some v \<Longrightarrow> name @ ''='' @ v \<in> set env \<and> name \<noteq> []"
proof -
  assume "getenv env name = Some v"
  then obtain e where e: "find (\<lambda>e. take (length name + 1) e = name @ ''='') env = Some e" "v = drop (length name + 1) e" "name \<noteq> []"
    by (auto simp: getenv_def split: if_splits)
  then have "e \<in> set env" "take (length name + 1) e = name @ ''=''" by (auto simp: find_Some_iff)
  moreover have "e = take (length name + 1) e @ drop (length name + 1) e" by simp
  ultimately show ?thesis using e(2,3) by (metis append.assoc)
qed

lemma var_name_eq [simp]: "var_name (name @ ''='' @ v) = var_name (name @ ''='')"
  by (auto simp: var_name_def takeWhile_append)

lemma find_unique: "x \<in> set xs \<Longrightarrow> P x \<Longrightarrow> (\<And>y. y \<in> set xs \<Longrightarrow> P y \<Longrightarrow> y = x) \<Longrightarrow> find P xs = Some x"
proof (induction xs)
  case (Cons a xs)
  show ?case
  proof (cases "P a")
    case True
    then show ?thesis using Cons.prems(3) [of a] by simp
  next
    case False
    then have "x \<in> set xs" using Cons.prems(1,2) by auto
    then have "find P xs = Some x" by (rule Cons.IH [OF _ Cons.prems(2)]) (rule Cons.prems(3), simp_all)
    then show ?thesis using False by simp
  qed
qed simp

lemma getenv_unique:
  assumes "distinct (map var_name env)" and "name @ ''='' @ v \<in> set env" and "name \<noteq> []"
  shows "getenv env name = Some v"
proof -
  have unique: "e = name @ ''='' @ v" if "e \<in> set env" "take (length name + 1) e = name @ ''=''" for e
  proof -
    have "e = name @ ''='' @ drop (length name + 1) e" using that(2) append_take_drop_id [of "length name + 1" e] by simp
    then have "var_name e = var_name (name @ ''='' @ v)" by (metis var_name_eq)
    then show ?thesis using assms(1,2) that(1) by (auto simp: distinct_map dest: inj_onD)
  qed
  have "find (\<lambda>e. take (length name + 1) e = name @ ''='') env = Some (name @ ''='' @ v)"
    by (rule find_unique [OF assms(2)]) (simp, erule (1) unique)
  then show ?thesis using assms(3) by (simp add: getenv_def)
qed

lemma selected_in_env: "set (selected env names) \<subseteq> set env"
  by (induction names) (auto dest: getenv_Some [OF sym] split: option.splits)

text \<open>A child that is given the selected variables finds for each name what the parent found.\<close>

lemma getenv_selected:
  assumes "distinct (map var_name env)" and "name \<in> set names"
  shows "getenv (selected env names) name = getenv env name"
proof (cases "getenv env name")
  case None
  have "getenv (selected env names) name \<noteq> Some v" for v
  proof
    assume "getenv (selected env names) name = Some v"
    then have "name @ ''='' @ v \<in> set env" "name \<noteq> []" using getenv_Some selected_in_env by fastforce+
    then show False using getenv_unique [OF assms(1)] None by simp
  qed
  then show ?thesis using None by (cases "getenv (selected env names) name") auto
next
  case (Some v)
  then have "name @ ''='' @ v \<in> set (selected env names)" using assms(2) by (auto simp: selected_def intro!: bexI [of _ name])
  then obtain w where w: "getenv (selected env names) name = Some w"
    using getenv_Some [OF Some]
    by (cases "find (\<lambda>e. take (length name + 1) e = name @ ''='') (selected env names)") (auto simp: getenv_def find_None_iff)
  then have "name @ ''='' @ w \<in> set env" "name \<noteq> []" using getenv_Some selected_in_env by fastforce+
  then show ?thesis using getenv_unique [OF assms(1)] w by simp
qed

text \<open>
  C23 The two kinds of children print the same: when the parent's environment has no variable twice, a
  child started by \<open>+\<close>, which looks up the names of \<open>env.txt\<close> in its environment, and one started by \<open>*\<close>,
  which prints its environment, both print the parent's variables named in the file, in its order.
\<close>

theorem both_children_print_the_same:
  assumes "distinct (map var_name (environ m))" and "files m ''env.txt'' = Some s"
    and "creat_child m n True = Exec child argv envp"
  shows "child_main (files m) argv envp = Some (selected (environ m) (read_lines 256 s))
    \<and> (\<exists>argv'. creat_child m n False = Exec child argv' envp
        \<and> child_main (files m) argv' envp = Some (selected (environ m) (read_lines 256 s)))"
proof -
  define sel where "sel = selected (environ m) (read_lines 256 s)"
  from assms(3) have e: "envp = sel" and a: "argv = [snprintf 16 (''child_'' @ decimal2 n), ''env.txt'']"
    and f: "creat_child m n False = Exec child [snprintf 16 (''child_'' @ decimal2 n)] envp"
    by (auto simp: creat_child_def Let_def assms(2) sel_def dest: read_env_file_Envp split: option.splits env_array.splits if_splits)
  have same: "map (\<lambda>x. case getenv sel x of None \<Rightarrow> [] | Some v \<Rightarrow> [x @ ''='' @ v]) (read_lines 256 s)
      = map (\<lambda>x. case getenv (environ m) x of None \<Rightarrow> [] | Some v \<Rightarrow> [x @ ''='' @ v]) (read_lines 256 s)"
    by (rule map_cong [OF refl]) (simp add: getenv_selected [OF assms(1)] sel_def)
  have "env_from_file sel (Some s)
      = Some (concat (map (\<lambda>x. case getenv (environ m) x of None \<Rightarrow> [] | Some v \<Rightarrow> [x @ ''='' @ v]) (read_lines 256 s)))"
    unfolding env_from_file_def option.case same by (rule refl)
  also have "\<dots> = Some sel" by (simp only: sel_def selected_def)
  finally have "env_from_file sel (Some s) = Some sel" .
  then show ?thesis using e a f by (simp add: child_main_def env_from_envp_def assms(2) sel_def)
qed

text \<open>
  Nine variables at most: with \<open>CHILD_PATH\<close> set, the file readable and memory to be had, creating a child writes past the
  array exactly when the file has ten or more lines that name a variable, the same name counted as often
  as it stands there; otherwise the child gets just those.
\<close>

theorem envp_overrun_iff:
  assumes "files m ''env.txt'' = Some s" and "getenv (environ m) ''CHILD_PATH'' = Some p"
    and "\<And>k. malloc_ok m k"
  shows "(creat_child m n b = Undefined_behaviour
      \<longleftrightarrow> 10 \<le> length (filter (\<lambda>name. getenv (environ m) name \<noteq> None) (read_lines 256 s)))
    \<and> (\<forall>child argv envp. creat_child m n b = Exec child argv envp \<longrightarrow> envp = selected (environ m) (read_lines 256 s))"
proof -
  have "length (selected env names) = length (filter (\<lambda>name. getenv env name \<noteq> None) names)" for env names
    by (induction names) (auto split: option.split)
  then show ?thesis using assms by (auto simp: creat_child_def Let_def read_env_file_selected split: if_splits)
qed

section \<open>A failed execve\<close>

lemma parent_loop_started:
  assumes "\<And>i b. i < MAX_CHILD \<Longrightarrow> creat_child m i b = Exec p (a i b) e" and "fork_ok m"
    and "\<And>i b. execve m p (a i b) e = ok"
  shows "n + length cs \<le> MAX_CHILD \<Longrightarrow> set cs \<subseteq> {CHR ''+'', CHR ''*''} \<Longrightarrow>
     parent_loop m n (cs @ ''q'') =
       (if ok then (map (\<lambda>i. (a (n + i) (cs ! i = CHR ''+''), e)) [0..<length cs], [Waits])
        else ([], replicate (2 ^ length cs) Waits))"
proof (induction cs arbitrary: n)
  case (Cons c cs)
  have u: "map f [0..<Suc (length cs)] = f 0 # map (\<lambda>i. f (Suc i)) [0..<length cs]" for f :: "nat \<Rightarrow> string list \<times> string list"
    by (simp add: map_upt_Suc del: upt_Suc)
  have d: "replicate k x @ replicate k x = replicate (2 * k) x" for k and x :: ending
    by (simp add: replicate_add [symmetric] mult_2)
  have "creat_child m n (c = CHR ''+'') = Exec p (a n (c = CHR ''+'')) e" using assms(1) Cons.prems(1) by simp
  moreover have "parent_loop m (n + 1) (cs @ ''q'') =
       (if ok then (map (\<lambda>i. (a (n + 1 + i) (cs ! i = CHR ''+''), e)) [0..<length cs], [Waits])
        else ([], replicate (2 ^ length cs) Waits))"
    using Cons by simp
  moreover have "c = CHR ''+'' \<or> c = CHR ''*''" "n < MAX_CHILD" using Cons.prems by auto
  ultimately show ?case
    using assms(2,3) by (simp add: u d del: upt_Suc)
qed simp

text \<open>
  C26 A failed \<open>execve\<close> doubles the parent. On a buffered input of up to 99 commands and a \<open>q\<close>, when the
  program of the child can be executed the children are started in the order of the commands, with
  numbers from 0, and only the parent is left waiting; when it cannot, no child runs and the processes
  that run the parent's loop are doubled by every command: \<open>2 ^ k\<close> of them at the end.
\<close>

theorem failed_exec_doubles_parent:
  assumes "\<And>i b. i < MAX_CHILD \<Longrightarrow> creat_child m i b = Exec p (a i b) e" and "fork_ok m"
    and "\<And>i b. execve m p (a i b) e = ok"
    and "length cs \<le> MAX_CHILD" and "set cs \<subseteq> {CHR ''+'', CHR ''*''}"
  shows "parent_loop m 0 (cs @ ''q'') =
     (if ok then (map (\<lambda>i. (a i (cs ! i = CHR ''+''), e)) [0..<length cs], [Waits])
      else ([], replicate (2 ^ length cs) Waits))"
  using parent_loop_started [OF assms(1-3), of 0 cs] assms(4,5) by simp

text \<open>The variables are printed in order, all of them, when there are no more than 1024.\<close>

lemma print_env_vars_sorts:
  "length env \<le> MAX_ENV \<Longrightarrow> \<exists>shown. print_env_vars env = Some shown \<and> sorted shown \<and> mset shown = mset env"
  by (simp add: print_env_vars_def)

section \<open>A concrete machine\<close>

definition small_machine :: machine where
  "small_machine =
     \<lparr>environ = [''CHILD_PATH=/l'', ''A=1'', ''B=2''], files = (\<lambda>f. Some (''B'' @ [line_break] @ ''C'' @ [line_break] @ ''A'')),
      malloc_ok = (\<lambda>n. True), fork_ok = True, execve = (\<lambda>path argv envp. False)\<rparr>"

lemma small_lines: "read_lines 256 (''B'' @ [line_break] @ ''C'' @ [line_break] @ ''A'') = [''B'', ''C'', ''A'']"
  by (simp add: read_lines.simps fgets_line_def line_break_def cstr_def Let_def)

lemma small_creation:
  "creat_child small_machine n b =
     Exec ''/l/child'' (if b then [snprintf 16 (''child_'' @ decimal2 n), ''env.txt''] else [snprintf 16 (''child_'' @ decimal2 n)])
       [''B=2'', ''A=1'']"
  using small_lines by (simp add: creat_child_def small_machine_def getenv_def read_env_file_def Let_def)

lemma both_children_print_the_same_witness:
  "child_main (files small_machine) [snprintf 16 (''child_'' @ decimal2 0), ''env.txt''] [''B=2'', ''A=1''] = Some [''B=2'', ''A=1'']"
proof -
  have d: "distinct (map var_name (environ small_machine))" by (simp add: small_machine_def var_name_def)
  have f: "files small_machine ''env.txt'' = Some (''B'' @ [line_break] @ ''C'' @ [line_break] @ ''A'')" by (simp add: small_machine_def)
  have s: "selected (environ small_machine) [''B'', ''C'', ''A''] = [''B=2'', ''A=1'']" by (simp add: small_machine_def getenv_def)
  from both_children_print_the_same [OF d f small_creation [of 0 True, simplified]] show ?thesis
    unfolding small_lines s by simp
qed

lemma envp_overrun_iff_witness:
  "creat_child small_machine 0 True \<noteq> Undefined_behaviour"
proof -
  have f: "files small_machine ''env.txt'' = Some (''B'' @ [line_break] @ ''C'' @ [line_break] @ ''A'')" by (simp add: small_machine_def)
  have p: "getenv (environ small_machine) ''CHILD_PATH'' = Some ''/l''" by (simp add: small_machine_def getenv_def)
  have "malloc_ok small_machine k" for k by (simp add: small_machine_def)
  from envp_overrun_iff [OF f p this, of 0 True] show ?thesis unfolding small_lines by simp
qed

lemma failed_exec_doubles_parent_witness:
  "parent_loop small_machine 0 ''+*+q'' = ([], replicate 8 Waits)"
proof -
  have "parent_loop small_machine 0 (''+*+'' @ ''q'') = (if False then (map (\<lambda>i. ((\<lambda>i b. if b then [snprintf 16 (''child_'' @ decimal2 i), ''env.txt'']
          else [snprintf 16 (''child_'' @ decimal2 i)]) i (''+*+'' ! i = CHR ''+''), [''B=2'', ''A=1''])) [0..<length ''+*+''], [Waits])
      else ([], replicate (2 ^ length ''+*+'') Waits))"
    by (rule failed_exec_doubles_parent) (auto simp: small_creation, auto simp: small_machine_def MAX_CHILD_def)
  then show ?thesis by simp
qed

end
