(* ===== verification/Dir_Walk.thy ===== *)
theory Dir_Walk
  imports Text "HOL-Library.Char_ord" "HOL-Library.List_Lexorder"
begin

text \<open>
  Lab1: \<open>dirwalk\<close>, which lists what is below a directory. Memory is not modelled: \<open>realloc\<close> and \<open>strdup\<close>
  succeed, and the stack holds as many calls as there are descriptors to open (about 1.4 KB each, so
  that the usual 1024 descriptors and 8 MB of stack leave room).
\<close>

section \<open>scan\<close>

record walk_options =
  list_symlinks :: bool
  list_dirs :: bool
  list_files :: bool
  sort_names :: bool

text \<open>The path of an entry is cut to the 1023 characters its buffer holds.\<close>

definition full_path :: "string \<Rightarrow> string \<Rightarrow> string" where
  "full_path path name = snprintf 1024 (path @ ''/'' @ name)"

definition wanted :: "walk_options \<Rightarrow> kind \<Rightarrow> bool" where
  "wanted opts k \<longleftrightarrow>
     (list_dirs opts \<and> k = Directory) \<or> (list_files opts \<and> k = Regular) \<or> (list_symlinks opts \<and> k = Link)"

text \<open>The loop over the entries: the names it collects, and what the recursive calls print meanwhile.\<close>

fun scan_entries ::
    "directories \<Rightarrow> walk_options \<Rightarrow> (string \<Rightarrow> string list) \<Rightarrow> string \<Rightarrow> string list \<Rightarrow> string list \<times> string list" where
  "scan_entries fs opts rec path [] = ([], [])"
| "scan_entries fs opts rec path (name # entries) =
     (if name = ''.'' \<or> name = ''..'' then scan_entries fs opts rec path entries
      else
        (case lstat fs (full_path path name) of
           None \<Rightarrow> scan_entries fs opts rec path entries
         | Some k \<Rightarrow>
             (let inner = (if k = Directory \<and> list_dirs opts then rec (full_path path name) else []);
                  (names, printed) = scan_entries fs opts rec path entries
              in (if wanted opts k then full_path path name # names else names, inner @ printed))))"

text \<open>
  \<open>scan\<close>, the lines printed. A call keeps its directory open until the loop over its entries has ended,
  the recursive calls of the loop included, so that it leaves one descriptor less to each of them;
  \<open>scan fs opts free\<close> is the call that finds \<open>free\<close> descriptors to open. When there is none, \<open>opendir\<close> fails
  with \<open>EMFILE\<close> and the call returns at once, as it does from a directory that cannot be opened for
  another reason; \<open>opendir fs\<close> is the answer when there is a descriptor. The names are compared by
  \<open>strcmp\<close>, as bytes, whatever the locale.
\<close>

primrec scan :: "directories \<Rightarrow> walk_options \<Rightarrow> nat \<Rightarrow> string \<Rightarrow> string list" where
  "scan fs opts 0 path = []"
| "scan fs opts (Suc free) path =
     (case opendir fs path of
        None \<Rightarrow> []
      | Some entries \<Rightarrow>
          (case scan_entries fs opts (scan fs opts free) path entries of
             (names, printed) \<Rightarrow> printed @ (if sort_names opts then sort names else names)))"

section \<open>The options\<close>

text \<open>
  \<open>getopt\<close> with the string \<open>ldfs\<close>: options may follow other arguments, \<open>--\<close> ends them, and any other letter
  leads to the usage. The result is the options and the other arguments.
\<close>

fun set_options :: "string \<Rightarrow> walk_options \<Rightarrow> walk_options option" where
  "set_options [] opts = Some opts"
| "set_options (c # cs) opts =
     (if c = CHR ''l'' then set_options cs (opts\<lparr>list_symlinks := True\<rparr>)
      else if c = CHR ''d'' then set_options cs (opts\<lparr>list_dirs := True\<rparr>)
      else if c = CHR ''f'' then set_options cs (opts\<lparr>list_files := True\<rparr>)
      else if c = CHR ''s'' then set_options cs (opts\<lparr>sort_names := True\<rparr>)
      else None)"

fun getopt_loop :: "string list \<Rightarrow> walk_options \<Rightarrow> (walk_options \<times> string list) option" where
  "getopt_loop [] opts = Some (opts, [])"
| "getopt_loop (arg # args) opts =
     (if arg = ''--'' then Some (opts, args)
      else if 1 < length arg \<and> hd arg = CHR ''-'' then
        (case set_options (tl arg) opts of None \<Rightarrow> None | Some opts' \<Rightarrow> getopt_loop args opts')
      else map_option (\<lambda>(opts', others). (opts', arg # others)) (getopt_loop args opts))"

datatype walk_result = Print_usage | Lines "string list"

text \<open>\<open>free\<close> is the number of descriptors the process may open besides those it starts with.\<close>

definition dirwalk_main :: "directories \<Rightarrow> nat \<Rightarrow> string list \<Rightarrow> walk_result" where
  "dirwalk_main fs free args =
     (case getopt_loop args \<lparr>list_symlinks = False, list_dirs = False, list_files = False, sort_names = False\<rparr> of
        None \<Rightarrow> Print_usage
      | Some (opts, others) \<Rightarrow> Lines (scan fs opts free (if others = [] then ''/home/bedroom'' else hd others)))"

end
