(* ===== verification/Dir_Walk_Props.thy ===== *)
theory Dir_Walk_Props
  imports Dir_Walk
begin

text \<open>
  What \<open>dirwalk\<close> of Lab1 lists, that the option \<open>-s\<close> only reorders it, and what the number of descriptors
  the process may open does to it.
\<close>

section \<open>A directory and its subdirectories\<close>

text \<open>The entries the loop looks at, with their kinds, and the subdirectories it goes into.\<close>

fun looked_at :: "directories \<Rightarrow> string \<Rightarrow> string list \<Rightarrow> (string \<times> kind) list" where
  "looked_at fs path [] = []"
| "looked_at fs path (name # names) =
     (if name = ''.'' \<or> name = ''..'' then looked_at fs path names
      else
        (case lstat fs (full_path path name) of
           None \<Rightarrow> looked_at fs path names
         | Some k \<Rightarrow> (full_path path name, k) # looked_at fs path names))"

definition entries :: "directories \<Rightarrow> string \<Rightarrow> (string \<times> kind) list" where
  "entries fs dir = (case opendir fs dir of None \<Rightarrow> [] | Some names \<Rightarrow> looked_at fs dir names)"

definition subdirs :: "walk_options \<Rightarrow> (string \<times> kind) list \<Rightarrow> string list" where
  "subdirs opts L = (if list_dirs opts then map fst (filter (\<lambda>(p, k). k = Directory) L) else [])"

definition chosen :: "walk_options \<Rightarrow> (string \<times> kind) list \<Rightarrow> string list" where
  "chosen opts L = map fst (filter (\<lambda>(p, k). wanted opts k) L)"

lemma scan_entries_looked_at:
  "scan_entries fs opts rec path names =
     (chosen opts (looked_at fs path names), concat (map rec (subdirs opts (looked_at fs path names))))"
  by (induction names) (auto simp: subdirs_def chosen_def split: option.split)

text \<open>One level of \<open>scan\<close>: first what is below the subdirectories, then the names of this directory.\<close>

lemma scan_level:
  "scan fs opts (Suc free) dir =
     concat (map (scan fs opts free) (subdirs opts (entries fs dir)))
       @ (if sort_names opts then sort (chosen opts (entries fs dir)) else chosen opts (entries fs dir))"
  by (auto simp: scan_entries_looked_at entries_def subdirs_def chosen_def split: option.split)

declare scan.simps(2) [simp del]

section \<open>What is listed\<close>

text \<open>The entries of a directory as they are on disk, by the path \<open>scan\<close> gives them.\<close>

definition entry_of :: "directories \<Rightarrow> string \<Rightarrow> string \<Rightarrow> kind \<Rightarrow> bool" where
  "entry_of fs dir p k \<longleftrightarrow>
     (\<exists>names name. opendir fs dir = Some names \<and> name \<in> set names \<and> name \<noteq> ''.'' \<and> name \<noteq> ''..''
       \<and> p = full_path dir name \<and> lstat fs p = Some k)"

text \<open>\<open>below fs root n dir\<close>: the directory \<open>dir\<close> lies \<open>n\<close> levels below \<open>root\<close>.\<close>

inductive below :: "directories \<Rightarrow> string \<Rightarrow> nat \<Rightarrow> string \<Rightarrow> bool" for fs root where
  start: "below fs root 0 root"
| deeper: "below fs root n dir \<Longrightarrow> entry_of fs dir p Directory \<Longrightarrow> below fs root (Suc n) p"

lemma set_looked_at:
  "(p, k) \<in> set (looked_at fs dir names) \<longleftrightarrow>
     (\<exists>name. name \<in> set names \<and> name \<noteq> ''.'' \<and> name \<noteq> ''..'' \<and> p = full_path dir name \<and> lstat fs p = Some k)"
  by (induction names) (auto split: option.splits)

lemma set_entries: "(p, k) \<in> set (entries fs dir) \<longleftrightarrow> entry_of fs dir p k"
  by (cases "opendir fs dir") (simp_all add: entries_def entry_of_def set_looked_at)

lemma set_subdirs: "d \<in> set (subdirs opts (entries fs dir)) \<longleftrightarrow> list_dirs opts \<and> entry_of fs dir d Directory"
  by (auto simp: subdirs_def set_entries image_iff)

lemma set_chosen: "p \<in> set (chosen opts (entries fs dir)) \<longleftrightarrow> (\<exists>k. entry_of fs dir p k \<and> wanted opts k)"
  by (auto simp: chosen_def set_entries image_iff)

text \<open>The levels below a directory, counted from its subdirectories.\<close>

lemma below_first: "entry_of fs root d Directory \<Longrightarrow> below fs d n e \<Longrightarrow> below fs root (Suc n) e"
  by (rotate_tac, induction rule: below.induct) (auto intro: below.intros)

lemma below_split: "below fs root n e \<Longrightarrow> n = Suc m \<Longrightarrow> \<exists>d. entry_of fs root d Directory \<and> below fs d m e"
proof (induction arbitrary: m rule: below.induct)
  case (deeper n dir p)
  then show ?case
  proof (cases n)
    case 0
    then have "dir = root" using deeper.hyps(1) by (auto elim: below.cases)
    then show ?thesis using deeper.hyps(2) deeper.prems 0 by (auto intro: below.start)
  next
    case (Suc n')
    then obtain d where "entry_of fs root d Directory" "below fs d n' dir" using deeper.IH by blast
    then show ?thesis using deeper.hyps(2) deeper.prems Suc by (auto intro: below.deeper)
  qed
qed simp

lemma below_0 [simp]: "below fs root 0 e \<longleftrightarrow> e = root"
  by (auto intro: below.start elim: below.cases)

lemma below_Suc: "below fs root (Suc n) e \<longleftrightarrow> (\<exists>d. entry_of fs root d Directory \<and> below fs d n e)"
  using below_first below_split by blast

text \<open>
  C19 With any number of descriptors to open, the lines are exactly the paths of the entries of a wanted
  kind in the directories that are fewer levels below the start directory than there are descriptors; only
  the start directory counts when directories are not listed.
\<close>

theorem scan_lists_wanted_entries:
  "set (scan fs opts free root) =
     {p. \<exists>n dir k. n < free \<and> (n = 0 \<or> list_dirs opts) \<and> below fs root n dir \<and> entry_of fs dir p k \<and> wanted opts k}"
proof (induction free arbitrary: root)
  case (Suc free)
  let ?listed = "\<lambda>free root p n dir k. n < free \<and> (n = 0 \<or> list_dirs opts) \<and> below fs root n dir
    \<and> entry_of fs dir p k \<and> wanted opts k"
  have level: "p \<in> set (scan fs opts (Suc free) root) \<longleftrightarrow>
      (\<exists>k. entry_of fs root p k \<and> wanted opts k)
        \<or> (\<exists>d. list_dirs opts \<and> entry_of fs root d Directory \<and> p \<in> set (scan fs opts free d))" for p
    by (auto simp: scan_level set_chosen set_subdirs)
  show ?case
  proof (intro set_eqI iffI)
    fix p
    assume "p \<in> set (scan fs opts (Suc free) root)"
    then consider k where "entry_of fs root p k" "wanted opts k"
      | d n dir k where "list_dirs opts" "entry_of fs root d Directory" "?listed free d p n dir k"
      unfolding level Suc.IH by blast
    then have "\<exists>n dir k. ?listed (Suc free) root p n dir k"
    proof cases
      case 1
      then have "?listed (Suc free) root p 0 root k" by simp
      then show ?thesis by blast
    next
      case 2
      then have "?listed (Suc free) root p (Suc n) dir k" using below_first by auto
      then show ?thesis by blast
    qed
    then show "p \<in> {p. \<exists>n dir k. ?listed (Suc free) root p n dir k}" by simp
  next
    fix p
    assume "p \<in> {p. \<exists>n dir k. ?listed (Suc free) root p n dir k}"
    then obtain n dir k where l: "?listed (Suc free) root p n dir k" by blast
    show "p \<in> set (scan fs opts (Suc free) root)"
    proof (cases n)
      case 0
      then show ?thesis using l unfolding level by auto
    next
      case (Suc n')
      then obtain d where d: "entry_of fs root d Directory" "below fs d n' dir" using l by (auto simp: below_Suc)
      then have "?listed free d p n' dir k" using l Suc by simp
      then have "p \<in> set (scan fs opts free d)" unfolding Suc.IH by blast
      then show ?thesis using d(1) l Suc unfolding level by blast
    qed
  qed
qed simp

section \<open>Sorting\<close>

lemma sort_option_irrelevant [simp]:
  "chosen (opts\<lparr>sort_names := b\<rparr>) L = chosen opts L" "subdirs (opts\<lparr>sort_names := b\<rparr>) L = subdirs opts L"
  by (auto simp: chosen_def subdirs_def wanted_def)

lemma mset_concat_same: "(\<And>x. x \<in> set xs \<Longrightarrow> mset (f x) = mset (g x)) \<Longrightarrow> mset (concat (map f xs)) = mset (concat (map g xs))"
  by (induction xs) auto

text \<open>
  The option \<open>-s\<close> lists the same lines as often, each directory's own lines in the order of their
  bytes; the groups of lines stay in the order in which the directories are left, so that the whole
  is not sorted.
\<close>

theorem sort_option_permutes:
  "mset (scan fs (opts\<lparr>sort_names := True\<rparr>) free root) = mset (scan fs (opts\<lparr>sort_names := False\<rparr>) free root)"
proof (induction free arbitrary: root)
  case (Suc free)
  then show ?case
    using mset_concat_same [of _ "scan fs (opts\<lparr>sort_names := True\<rparr>) free" "scan fs (opts\<lparr>sort_names := False\<rparr>) free"]
    by (simp add: scan_level)
qed simp

section \<open>Descriptors\<close>

text \<open>When every subdirectory has a smaller rank than its directory, the rank bounds the levels.\<close>

definition ranked :: "directories \<Rightarrow> (string \<Rightarrow> nat) \<Rightarrow> string \<Rightarrow> bool" where
  "ranked fs rank root \<longleftrightarrow> (\<forall>n dir d. below fs root n dir \<and> entry_of fs dir d Directory \<longrightarrow> rank d < rank dir)"

lemma ranked_first: "ranked fs rank root \<Longrightarrow> entry_of fs root d Directory \<Longrightarrow> rank d < rank root \<and> ranked fs rank d"
  unfolding ranked_def using below_first below.start by metis

lemma scan_same_when_ranked:
  "ranked fs rank root \<Longrightarrow> rank root < free \<Longrightarrow> rank root < free' \<Longrightarrow> scan fs opts free root = scan fs opts free' root"
proof (induction free arbitrary: root free')
  case (Suc free)
  obtain more where more: "free' = Suc more" using Suc.prems(3) by (cases free') auto
  have "scan fs opts free d = scan fs opts more d" if "d \<in> set (subdirs opts (entries fs root))" for d
    using that Suc.prems ranked_first [OF Suc.prems(1), of d]
    by (intro Suc.IH) (auto simp: set_subdirs more)
  then have "map (scan fs opts free) (subdirs opts (entries fs root)) = map (scan fs opts more) (subdirs opts (entries fs root))"
    by simp
  then show ?case by (simp only: scan_level more)
qed simp

text \<open>A directory whose path fills the buffer of 1023 characters: every entry gets the path of the directory.\<close>

lemma full_path_cut: "length dir = 1023 \<Longrightarrow> full_path dir n = dir"
  by (simp add: full_path_def snprintf_def)

lemma looked_at_cut:
  "length dir = 1023 \<Longrightarrow> lstat fs dir = Some Directory \<Longrightarrow>
   looked_at fs dir names = replicate (length (filter (\<lambda>n. n \<notin> {''.'', ''..''}) names)) (dir, Directory)"
  by (induction names) (auto simp: full_path_cut)

lemma concat_map_replicate: "concat (map f (replicate m x)) = concat (replicate m (f x))"
  by simp

lemma concat_replicate_replicate: "concat (replicate m (replicate k x)) = replicate (m * k) x"
  by (induction m) (simp_all add: replicate_add)

lemma sort_replicate: "sort (replicate m x) = replicate m x"
  by (rule sorted_sort_id) simp

lemma powers_sum: "(\<Sum>i = 1..Suc n. m ^ i) = m * (\<Sum>i = 1..n. m ^ i) + (m :: nat)"
proof (induction n)
  case (Suc n)
  have "(\<Sum>i = 1..Suc (Suc n). m ^ i) = (\<Sum>i = 1..Suc n. m ^ i) + m * m ^ Suc n" by simp
  also have "\<dots> = m * (\<Sum>i = 1..n. m ^ i) + m + m * m ^ Suc n" unfolding Suc ..
  also have "\<dots> = m * ((\<Sum>i = 1..n. m ^ i) + m ^ Suc n) + m" by (simp only: distrib_left add.assoc add.commute)
  also have "\<dots> = m * (\<Sum>i = 1..Suc n. m ^ i) + m" by simp
  finally show ?case .
qed simp

text \<open>
  C22 Each call keeps its directory open while the calls for the subdirectories run, so that the descriptors
  bound the depth. When every subdirectory has a smaller rank than its directory, one descriptor more than
  the rank of the start directory is enough: more of them change nothing. But from a directory whose path
  fills the buffer of 1023 characters, when directories are listed, the path of each of its \<open>m\<close> entries is
  cut to the path of the directory itself, which is scanned again for each of them until no descriptor is
  left: its path is printed \<open>m + m^2 + \<dots> + m^free\<close> times, and nothing else.
\<close>

theorem scan_bounded_by_descriptors:
  "(ranked fs rank root \<and> rank root < free \<longrightarrow> scan fs opts free root = scan fs opts (Suc (rank root)) root)
    \<and> (length dir = 1023 \<and> list_dirs opts \<and> lstat fs dir = Some Directory \<and> opendir fs dir = Some names
        \<and> m = length (filter (\<lambda>n. n \<notin> {''.'', ''..''}) names)
       \<longrightarrow> scan fs opts free dir = replicate (\<Sum>i = 1..free. m ^ i) dir)"
proof (intro conjI impI)
  show "scan fs opts free root = scan fs opts (Suc (rank root)) root" if "ranked fs rank root \<and> rank root < free"
    using that by (intro scan_same_when_ranked [where rank = rank]) auto
next
  assume h: "length dir = 1023 \<and> list_dirs opts \<and> lstat fs dir = Some Directory \<and> opendir fs dir = Some names
    \<and> m = length (filter (\<lambda>n. n \<notin> {''.'', ''..''}) names)"
  then have e: "entries fs dir = replicate m (dir, Directory)" by (simp add: entries_def looked_at_cut)
  have s: "subdirs opts (entries fs dir) = replicate m dir" "chosen opts (entries fs dir) = replicate m dir"
    using h unfolding e by (simp_all add: subdirs_def chosen_def wanted_def filter_replicate map_replicate)
  show "scan fs opts free dir = replicate (\<Sum>i = 1..free. m ^ i) dir"
  proof (induction free)
    case (Suc free)
    then show ?case
      unfolding scan_level s concat_map_replicate powers_sum
      by (simp add: concat_replicate_replicate replicate_add sort_replicate)
  qed simp
qed

text \<open>Without a letter that selects a kind, nothing is listed, whatever the directory holds.\<close>

lemma no_kind_lists_nothing:
  "\<not> list_symlinks opts \<Longrightarrow> \<not> list_dirs opts \<Longrightarrow> \<not> list_files opts \<Longrightarrow> scan fs opts free root = []"
  by (cases free) (auto simp: scan_level chosen_def subdirs_def wanted_def)

lemma dirwalk_needs_a_kind:
  assumes "hd root \<noteq> CHR ''-''" and "root \<noteq> []"
  shows "dirwalk_main fs free [''-s'', root] = Lines []"
proof -
  define plain where "plain = \<lparr>list_symlinks = False, list_dirs = False, list_files = False, sort_names = False\<rparr>"
  have g: "getopt_loop [''-s'', root] plain = Some (plain\<lparr>sort_names := True\<rparr>, [root])"
    using assms by (cases root) auto
  have n: "scan fs (plain\<lparr>sort_names := True\<rparr>) free root = []"
    by (rule no_kind_lists_nothing) (simp_all add: plain_def)
  show ?thesis
    unfolding dirwalk_main_def plain_def [symmetric] g
    by (simp only: option.case prod.case list.distinct if_False list.sel n)
qed

section \<open>A concrete tree\<close>

definition tree_fs :: directories where
  "tree_fs =
     \<lparr>opendir = (\<lambda>p. if p = ''/t'' then Some [''.'', ''b'', ''d'', ''a''] else if p = ''/t/d'' then Some [''x''] else None),
      lstat = (\<lambda>p. if p \<in> {''/t/a'', ''/t/b'', ''/t/d/x''} then Some Regular else if p = ''/t/d'' then Some Directory else None)\<rparr>"

definition all_options :: walk_options where
  "all_options = \<lparr>list_symlinks = True, list_dirs = True, list_files = True, sort_names = False\<rparr>"

lemma tree_entries:
  "entries tree_fs ''/t'' = [(''/t/b'', Regular), (''/t/d'', Directory), (''/t/a'', Regular)]"
  "entries tree_fs ''/t/d'' = [(''/t/d/x'', Regular)]"
  by (simp_all add: entries_def tree_fs_def full_path_def)

text \<open>With two descriptors or more the whole tree is listed; with one only its first level.\<close>

lemma tree_scan:
  "scan tree_fs all_options (Suc (Suc 0)) ''/t'' = [''/t/d/x'', ''/t/b'', ''/t/d'', ''/t/a'']"
  "scan tree_fs all_options (Suc 0) ''/t'' = [''/t/b'', ''/t/d'', ''/t/a'']"
  by (simp_all add: scan_level tree_entries subdirs_def chosen_def wanted_def all_options_def)

lemma tree_ranked: "ranked tree_fs (\<lambda>p. if p = ''/t'' then 1 else 0) ''/t''"
proof -
  have v: "dir = ''/t'' \<or> dir = ''/t/d''" if "below tree_fs ''/t'' n dir" for n dir
    using that by (induction rule: below.induct) (auto simp: set_entries [symmetric] tree_entries)
  show ?thesis
    unfolding ranked_def using v by (force simp: set_entries [symmetric] tree_entries)
qed

text \<open>A directory with a path of 1023 characters and two entries.\<close>

definition long_dir :: string where
  "long_dir = replicate 1023 CHR ''x''"

definition long_fs :: directories where
  "long_fs = \<lparr>opendir = (\<lambda>p. if p = long_dir then Some [''.'', ''..'', ''a'', ''b''] else None), lstat = (\<lambda>p. Some Directory)\<rparr>"

lemma scan_bounded_by_descriptors_witness:
  "scan tree_fs all_options 1000 ''/t'' = [''/t/d/x'', ''/t/b'', ''/t/d'', ''/t/a'']
    \<and> scan long_fs all_options 3 long_dir = replicate 14 long_dir"
proof -
  define rank :: "string \<Rightarrow> nat" where "rank = (\<lambda>p. if p = ''/t'' then 1 else 0)"
  have l: "opendir long_fs long_dir = Some [''.'', ''..'', ''a'', ''b'']" "lstat long_fs long_dir = Some Directory"
    by (simp_all add: long_fs_def)
  have "scan tree_fs all_options 1000 ''/t'' = scan tree_fs all_options (Suc (rank ''/t'')) ''/t''"
    by (rule scan_bounded_by_descriptors [THEN conjunct1, rule_format])
      (use tree_ranked in \<open>simp add: rank_def\<close>)
  moreover have "scan long_fs all_options 3 long_dir = replicate (\<Sum>i = 1..3. 2 ^ i) long_dir"
    by (rule scan_bounded_by_descriptors [where names = "[''.'', ''..'', ''a'', ''b'']", THEN conjunct2, rule_format])
      (use l in \<open>simp add: long_dir_def all_options_def\<close>)
  moreover have "(\<Sum>i = 1..3. 2 ^ i) = (14 :: nat)" by (simp add: numeral_3_eq_3)
  ultimately show ?thesis by (simp add: rank_def tree_scan)
qed

end
