(* ===== verification/Preproc.thy ===== *)
theory Preproc
  imports Text "HOL-Library.Signed_Division"
begin

text \<open>
  What CMakeCCompilerId.c and CMakeCXXCompilerId.cpp, the probes CMake put into the build
  directories of the laboratories, use of the C preprocessor: predefined macros with an integer or a
  string value, the integer expressions of \<open>#if\<close> and of the initialisers, and the macros \<open>DEC\<close> and
  \<open>HEX\<close> that spell a number as eight character constants.
\<close>

unbundle bit_operations_syntax

section \<open>Macros and expressions\<close>

datatype macro_value = IntM int | StrM string

type_synonym macros = "string \<Rightarrow> macro_value option"

text \<open>\<open>defined(x)\<close>\<close>

definition df :: "macros \<Rightarrow> string \<Rightarrow> bool" where
  "df m x \<longleftrightarrow> m x \<noteq> None"

datatype cexp = Mac string | Num int | Quo cexp cexp | Rem cexp cexp | Sub cexp cexp | Mul cexp cexp
  | Shr cexp cexp | Band cexp cexp

text \<open>In a \<open>#if\<close>, an identifier that is no macro stands for 0.\<close>

fun pp :: "macros \<Rightarrow> cexp \<Rightarrow> int" where
  "pp m (Mac x) = (case m x of Some (IntM n) \<Rightarrow> n | _ \<Rightarrow> 0)"
| "pp m (Num n) = n"
| "pp m (Quo a b) = pp m a sdiv pp m b"
| "pp m (Rem a b) = pp m a smod pp m b"
| "pp m (Sub a b) = pp m a - pp m b"
| "pp m (Mul a b) = pp m a * pp m b"
| "pp m (Shr a b) = drop_bit (nat (pp m b)) (pp m a)"
| "pp m (Band a b) = pp m a AND pp m b"

text \<open>In an initialiser it is an undeclared identifier, and the file does not compile.\<close>

fun compiles :: "macros \<Rightarrow> cexp \<Rightarrow> bool" where
  "compiles m (Mac x) = (case m x of Some (IntM n) \<Rightarrow> True | _ \<Rightarrow> False)"
| "compiles m (Num n) = True"
| "compiles m (Quo a b) = (compiles m a \<and> compiles m b)"
| "compiles m (Rem a b) = (compiles m a \<and> compiles m b)"
| "compiles m (Sub a b) = (compiles m a \<and> compiles m b)"
| "compiles m (Mul a b) = (compiles m a \<and> compiles m b)"
| "compiles m (Shr a b) = (compiles m a \<and> compiles m b)"
| "compiles m (Band a b) = (compiles m a \<and> compiles m b)"

text \<open>\<open>STRINGIFY(x)\<close>: the text of what the macro stands for.\<close>

definition stringify :: "macros \<Rightarrow> string \<Rightarrow> string" where
  "stringify m x = (case m x of None \<Rightarrow> x | Some (IntM n) \<Rightarrow> decimal_int n | Some (StrM s) \<Rightarrow> s)"

section \<open>Numbers as digit characters\<close>

definition digit_char :: "int \<Rightarrow> char" where
  "digit_char d = char_of (nat (48 + d))"

definition DEC_chars :: "int \<Rightarrow> string" where
  "DEC_chars n =
     [digit_char ((n sdiv 10000000) smod 10), digit_char ((n sdiv 1000000) smod 10),
      digit_char ((n sdiv 100000) smod 10), digit_char ((n sdiv 10000) smod 10),
      digit_char ((n sdiv 1000) smod 10), digit_char ((n sdiv 100) smod 10),
      digit_char ((n sdiv 10) smod 10), digit_char (n smod 10)]"

definition HEX_chars :: "int \<Rightarrow> string" where
  "HEX_chars n =
     [digit_char (drop_bit 28 n AND 15), digit_char (drop_bit 24 n AND 15),
      digit_char (drop_bit 20 n AND 15), digit_char (drop_bit 16 n AND 15),
      digit_char (drop_bit 12 n AND 15), digit_char (drop_bit 8 n AND 15),
      digit_char (drop_bit 4 n AND 15), digit_char (n AND 15)]"

datatype literal = DEC cexp | HEX cexp

fun spell :: "macros \<Rightarrow> literal \<Rightarrow> string option" where
  "spell m (DEC e) = (if compiles m e then Some (DEC_chars (pp m e)) else None)"
| "spell m (HEX e) = (if compiles m e then Some (HEX_chars (pp m e)) else None)"

text \<open>Reading the characters back, in base 10 or 16.\<close>

definition char_digit :: "char \<Rightarrow> int" where
  "char_digit c = int (of_char c) - 48"

definition read_digits :: "int \<Rightarrow> string \<Rightarrow> int" where
  "read_digits b cs = foldl (\<lambda>n c. n * b + char_digit c) 0 cs"

lemma char_digit_char [simp]: "0 \<le> d \<Longrightarrow> d < 16 \<Longrightarrow> char_digit (digit_char d) = d"
  by (simp add: char_digit_def digit_char_def)

lemma sdiv_smod_nonneg:
  fixes a b :: int
  assumes "0 \<le> a" "0 < b"
  shows "a sdiv b = a div b" "a smod b = a mod b"
  using assms by (cases "a = 0"; simp add: signed_divide_int_def signed_modulo_int_def sgn_1_pos)+

lemma digit_of:
  fixes n k :: int
  assumes "0 \<le> n" "0 < k"
  shows "(n sdiv k) smod 10 = (n div k) mod 10"
  using assms by (simp add: sdiv_smod_nonneg pos_imp_zdiv_nonneg_iff)

lemma last_digit_of:
  fixes n :: int
  assumes "0 \<le> n"
  shows "n smod 10 = n mod 10"
  using assms by (simp add: sdiv_smod_nonneg)

lemma read_digits_8:
  "read_digits b [c0, c1, c2, c3, c4, c5, c6, c7] =
     char_digit c7 + b * (char_digit c6 + b * (char_digit c5 + b * (char_digit c4 + b * (char_digit c3
       + b * (char_digit c2 + b * (char_digit c1 + b * char_digit c0))))))"
  by (simp add: read_digits_def algebra_simps)

lemma split_digits:
  fixes n b :: int
  assumes "0 \<le> n" "n < b ^ 8" "0 < b"
  shows "n mod b + b * ((n div b) mod b + b * ((n div b ^ 2) mod b + b * ((n div b ^ 3) mod b
    + b * ((n div b ^ 4) mod b + b * ((n div b ^ 5) mod b + b * ((n div b ^ 6) mod b
    + b * ((n div b ^ 7) mod b))))))) = n"
proof -
  have step: "(n div b ^ k) mod b + b * (n div b ^ Suc k) = n div b ^ k" for k
  proof -
    have "n div b ^ Suc k = (n div b ^ k) div b" using assms(3) by (simp add: power_Suc2 zdiv_zmult2_eq del: power_Suc)
    then show ?thesis by (simp add: add.commute)
  qed
  have top: "(n div b ^ 7) mod b = n div b ^ 7"
  proof -
    have "n div b ^ 8 = 0" using assms by simp
    with step [of 7] show ?thesis by (simp add: eval_nat_numeral)
  qed
  show ?thesis
    using step [of 0] step [of 1] step [of 2] step [of 3] step [of 4] step [of 5] step [of 6]
    unfolding top by (simp add: eval_nat_numeral)
qed

lemma split_decimal:
  fixes n :: int
  assumes "0 \<le> n" "n < 100000000"
  shows "n mod 10 + 10 * ((n div 10) mod 10 + 10 * ((n div 100) mod 10 + 10 * ((n div 1000) mod 10
    + 10 * ((n div 10000) mod 10 + 10 * ((n div 100000) mod 10 + 10 * ((n div 1000000) mod 10
    + 10 * ((n div 10000000) mod 10))))))) = n"
proof -
  have p: "(10::int) ^ 2 = 100"
    "(10::int) ^ 3 = 1000"
    "(10::int) ^ 4 = 10000"
    "(10::int) ^ 5 = 100000"
    "(10::int) ^ 6 = 1000000"
    "(10::int) ^ 7 = 10000000"
    "(10::int) ^ 8 = 100000000"
    by simp_all
  show ?thesis using split_digits [of n 10, unfolded p] assms by (simp only: zero_less_numeral simp_thms)
qed

lemma split_hexadecimal:
  fixes n :: int
  assumes "0 \<le> n" "n < 4294967296"
  shows "n mod 16 + 16 * ((n div 16) mod 16 + 16 * ((n div 256) mod 16 + 16 * ((n div 4096) mod 16
    + 16 * ((n div 65536) mod 16 + 16 * ((n div 1048576) mod 16 + 16 * ((n div 16777216) mod 16
    + 16 * ((n div 268435456) mod 16))))))) = n"
proof -
  have p: "(16::int) ^ 2 = 256"
    "(16::int) ^ 3 = 4096"
    "(16::int) ^ 4 = 65536"
    "(16::int) ^ 5 = 1048576"
    "(16::int) ^ 6 = 16777216"
    "(16::int) ^ 7 = 268435456"
    "(16::int) ^ 8 = 4294967296"
    by simp_all
  show ?thesis using split_digits [of n 16, unfolded p] assms by (simp only: zero_less_numeral simp_thms)
qed

lemma read_DEC_chars:
  assumes "0 \<le> n" "n < 100000000"
  shows "length (DEC_chars n) = 8 \<and> read_digits 10 (DEC_chars n) = n"
proof -
  have c: "char_digit (digit_char (k mod 10)) = k mod 10" for k :: int
    by (rule char_digit_char) (simp_all add: order.strict_trans [OF pos_mod_bound])
  have "read_digits 10 (DEC_chars n) = n"
    unfolding DEC_chars_def read_digits_8
    by (simp only: digit_of [OF assms(1)] last_digit_of [OF assms(1)] zero_less_numeral c
        split_decimal [OF assms])
  then show ?thesis by (simp add: DEC_chars_def)
qed

lemma read_HEX_chars:
  assumes "0 \<le> n" "n < 4294967296"
  shows "length (HEX_chars n) = 8 \<and> read_digits 16 (HEX_chars n) = n"
proof -
  have a: "x AND 15 = x mod 16" for x :: int
    using take_bit_eq_mod [of 4 x] take_bit_eq_mask [of 4 x] by (simp add: mask_eq_exp_minus_1)
  have c: "char_digit (digit_char (k mod 16)) = k mod 16" for k :: int
    by (rule char_digit_char) simp_all
  have d: "drop_bit 4 n = n div 16" "drop_bit 8 n = n div 256" "drop_bit 12 n = n div 4096"
    "drop_bit 16 n = n div 65536" "drop_bit 20 n = n div 1048576" "drop_bit 24 n = n div 16777216"
    "drop_bit 28 n = n div 268435456"
    by (simp_all add: drop_bit_eq_div)
  have "read_digits 16 (HEX_chars n) = n"
    unfolding HEX_chars_def read_digits_8 by (simp only: d a c split_hexadecimal [OF assms])
  then show ?thesis by (simp add: HEX_chars_def)
qed

text \<open>All eight characters are decimal digits for \<open>DEC\<close>, never a dot or a bracket.\<close>

lemma digit_char_cases: "0 \<le> d \<Longrightarrow> d < 16 \<Longrightarrow> of_char (digit_char d) = (48 + nat d :: nat)"
  by (simp add: digit_char_def nat_add_distrib)

lemma DEC_chars_digits:
  assumes "0 \<le> n"
  shows "\<forall>c \<in> set (DEC_chars n). 48 \<le> (of_char c :: nat) \<and> (of_char c :: nat) \<le> 57"
proof -
  have d: "48 \<le> (of_char (digit_char (k mod 10)) :: nat) \<and> (of_char (digit_char (k mod 10)) :: nat) \<le> 57"
    for k :: int
    using pos_mod_bound [of 10 k] pos_mod_sign [of 10 k]
    by (simp add: digit_char_cases nat_le_iff del: pos_mod_bound pos_mod_sign)
  show ?thesis unfolding DEC_chars_def digit_of [OF assms zero_less_numeral] last_digit_of [OF assms]
    by (simp only: list.set ball_simps d simp_thms)
qed

end
