(* ===== verification/Compiler_Branches.thy ===== *)
theory Compiler_Branches
  imports Preproc
begin

text \<open>
  The branches of the chain \<open>#if ... #elif ... #endif\<close> by which CMakeCCompilerId.c identifies the compiler:
  for each, its condition and the identification macros it defines.
\<close>

section \<open>What a branch defines\<close>

text \<open>
  \<open>COMPILER_ID\<close>, \<open>SIMULATE_ID\<close>, the macro \<open>COMPILER_VERSION\<close> stands for, \<open>COMPILER_VERSION_MAJOR\<close> to \<open>_TWEAK\<close>,
  \<open>_INTERNAL\<close> and \<open>_INTERNAL_STR\<close>, and \<open>SIMULATE_VERSION_MAJOR\<close> to \<open>_PATCH\<close>.
\<close>

record idents =
  cid :: string
  sim_id :: "string option"
  ver_str :: "string option"
  major :: "literal option"
  minor :: "literal option"
  patch :: "literal option"
  tweak :: "literal option"
  internal :: "literal option"
  internal_str :: "string option"
  sim_major :: "literal option"
  sim_minor :: "literal option"
  sim_patch :: "literal option"

definition no_ids :: idents where
  "no_ids = \<lparr>cid = [], sim_id = None, ver_str = None, major = None, minor = None, patch = None,
     tweak = None, internal = None, internal_str = None, sim_major = None, sim_minor = None,
     sim_patch = None\<rparr>"

type_synonym branch = "(macros \<Rightarrow> bool) \<times> (macros \<Rightarrow> idents)"

section \<open>The branches of the C probe\<close>

definition intel_branch :: branch where
  "intel_branch =
  (\<lambda>m. df m ''__INTEL_COMPILER'' \<or> df m ''__ICC'',
   \<lambda>m. let r = no_ids\<lparr>cid := ''Intel''\<rparr>;
      r = (if df m ''_MSC_VER'' then r\<lparr>sim_id := Some ''MSVC''\<rparr> else r);
      r = (if df m ''__GNUC__'' then r\<lparr>sim_id := Some ''GNU''\<rparr> else r);
      r = (if pp m (Mac ''__INTEL_COMPILER'') < 2021 \<or> pp m (Mac ''__INTEL_COMPILER'') = 202110
          \<or> pp m (Mac ''__INTEL_COMPILER'') = 202111 then (let
        r = r\<lparr>major := Some (DEC (Quo (Mac ''__INTEL_COMPILER'') (Num 100))),
          minor := Some (DEC (Rem (Quo (Mac ''__INTEL_COMPILER'') (Num 10)) (Num 10)))\<rparr>;
        r = (if df m ''__INTEL_COMPILER_UPDATE'' then r\<lparr>patch := Some (DEC (Mac
          ''__INTEL_COMPILER_UPDATE''))\<rparr> else
           r\<lparr>patch := Some (DEC (Rem (Mac ''__INTEL_COMPILER'') (Num 10)))\<rparr>)
        in r) else
           r\<lparr>major := Some (DEC (Mac ''__INTEL_COMPILER'')),
          minor := Some (DEC (Mac ''__INTEL_COMPILER_UPDATE'')),
          patch := Some (DEC (Num 0))\<rparr>);
      r = (if df m ''__INTEL_COMPILER_BUILD_DATE'' then r\<lparr>tweak := Some (DEC (Mac
          ''__INTEL_COMPILER_BUILD_DATE''))\<rparr> else r);
      r = (if df m ''_MSC_VER'' then r\<lparr>sim_major := Some (DEC (Quo (Mac ''_MSC_VER'') (Num
          100))),
          sim_minor := Some (DEC (Rem (Mac ''_MSC_VER'') (Num 100)))\<rparr> else r);
      r = (if df m ''__GNUC__'' then r\<lparr>sim_major := Some (DEC (Mac ''__GNUC__''))\<rparr> else
           if df m ''__GNUG__'' then r\<lparr>sim_major := Some (DEC (Mac ''__GNUG__''))\<rparr> else
          r);
      r = (if df m ''__GNUC_MINOR__'' then r\<lparr>sim_minor := Some (DEC (Mac
          ''__GNUC_MINOR__''))\<rparr> else r);
      r = (if df m ''__GNUC_PATCHLEVEL__'' then r\<lparr>sim_patch := Some (DEC (Mac
          ''__GNUC_PATCHLEVEL__''))\<rparr> else r)
   in r)"

definition intel_llvm_branch :: branch where
  "intel_llvm_branch =
  (\<lambda>m. (df m ''__clang__'' \<and> df m ''__INTEL_CLANG_COMPILER'') \<or> df m
          ''__INTEL_LLVM_COMPILER'',
   \<lambda>m. let r = no_ids\<lparr>cid := ''IntelLLVM''\<rparr>;
      r = (if df m ''_MSC_VER'' then r\<lparr>sim_id := Some ''MSVC''\<rparr> else r);
      r = (if df m ''__GNUC__'' then r\<lparr>sim_id := Some ''GNU''\<rparr> else r);
      r = (if pp m (Mac ''__INTEL_LLVM_COMPILER'') < 1000000 then r\<lparr>major := Some (DEC (Quo (Mac
          ''__INTEL_LLVM_COMPILER'') (Num 100))),
          minor := Some (DEC (Rem (Quo (Mac ''__INTEL_LLVM_COMPILER'') (Num 10)) (Num 10))),
          patch := Some (DEC (Rem (Mac ''__INTEL_LLVM_COMPILER'') (Num 10)))\<rparr> else
           r\<lparr>major := Some (DEC (Quo (Mac ''__INTEL_LLVM_COMPILER'') (Num 10000))),
          minor := Some (DEC (Rem (Quo (Mac ''__INTEL_LLVM_COMPILER'') (Num 100)) (Num 100))),
          patch := Some (DEC (Rem (Mac ''__INTEL_LLVM_COMPILER'') (Num 100)))\<rparr>);
      r = (if df m ''_MSC_VER'' then r\<lparr>sim_major := Some (DEC (Quo (Mac ''_MSC_VER'') (Num
          100))),
          sim_minor := Some (DEC (Rem (Mac ''_MSC_VER'') (Num 100)))\<rparr> else r);
      r = (if df m ''__GNUC__'' then r\<lparr>sim_major := Some (DEC (Mac ''__GNUC__''))\<rparr> else
           if df m ''__GNUG__'' then r\<lparr>sim_major := Some (DEC (Mac ''__GNUG__''))\<rparr> else
          r);
      r = (if df m ''__GNUC_MINOR__'' then r\<lparr>sim_minor := Some (DEC (Mac
          ''__GNUC_MINOR__''))\<rparr> else r);
      r = (if df m ''__GNUC_PATCHLEVEL__'' then r\<lparr>sim_patch := Some (DEC (Mac
          ''__GNUC_PATCHLEVEL__''))\<rparr> else r)
   in r)"

definition pathscale_branch :: branch where
  "pathscale_branch =
  (\<lambda>m. df m ''__PATHCC__'',
   \<lambda>m. let r = no_ids\<lparr>cid := ''PathScale'', major := Some (DEC (Mac ''__PATHCC__'')),
          minor := Some (DEC (Mac ''__PATHCC_MINOR__''))\<rparr>;
      r = (if df m ''__PATHCC_PATCHLEVEL__'' then r\<lparr>patch := Some (DEC (Mac
          ''__PATHCC_PATCHLEVEL__''))\<rparr> else r)
   in r)"

definition embarcadero_branch :: branch where
  "embarcadero_branch =
  (\<lambda>m. df m ''__BORLANDC__'' \<and> df m ''__CODEGEARC_VERSION__'',
   \<lambda>_. no_ids\<lparr>cid := ''Embarcadero'', major := Some (HEX (Band (Shr (Mac
          ''__CODEGEARC_VERSION__'') (Num 24)) (Num 255))),
          minor := Some (HEX (Band (Shr (Mac ''__CODEGEARC_VERSION__'') (Num 16)) (Num 255))),
          patch := Some (DEC (Band (Mac ''__CODEGEARC_VERSION__'') (Num 65535)))\<rparr>)"

definition borland_branch :: branch where
  "borland_branch =
  (\<lambda>m. df m ''__BORLANDC__'',
   \<lambda>_. no_ids\<lparr>cid := ''Borland'', major := Some (HEX (Shr (Mac ''__BORLANDC__'') (Num
          8))),
          minor := Some (HEX (Band (Mac ''__BORLANDC__'') (Num 255)))\<rparr>)"

definition watcom_branch :: branch where
  "watcom_branch =
  (\<lambda>m. df m ''__WATCOMC__'' \<and> pp m (Mac ''__WATCOMC__'') < 1200,
   \<lambda>m. let r = no_ids\<lparr>cid := ''Watcom'', major := Some (DEC (Quo (Mac ''__WATCOMC__'')
          (Num 100))),
          minor := Some (DEC (Rem (Quo (Mac ''__WATCOMC__'') (Num 10)) (Num 10)))\<rparr>;
      r = (if pp m (Rem (Mac ''__WATCOMC__'') (Num 10)) > 0 then r\<lparr>patch := Some (DEC (Rem (Mac
          ''__WATCOMC__'') (Num 10)))\<rparr> else r)
   in r)"

definition openwatcom_branch :: branch where
  "openwatcom_branch =
  (\<lambda>m. df m ''__WATCOMC__'',
   \<lambda>m. let r = no_ids\<lparr>cid := ''OpenWatcom'', major := Some (DEC (Quo (Sub (Mac
          ''__WATCOMC__'') (Num 1100)) (Num 100))),
          minor := Some (DEC (Rem (Quo (Mac ''__WATCOMC__'') (Num 10)) (Num 10)))\<rparr>;
      r = (if pp m (Rem (Mac ''__WATCOMC__'') (Num 10)) > 0 then r\<lparr>patch := Some (DEC (Rem (Mac
          ''__WATCOMC__'') (Num 10)))\<rparr> else r)
   in r)"

definition sunpro_branch :: branch where
  "sunpro_branch =
  (\<lambda>m. df m ''__SUNPRO_C'',
   \<lambda>m. let r = no_ids\<lparr>cid := ''SunPro''\<rparr>;
      r = (if pp m (Mac ''__SUNPRO_C'') \<ge> 20736 then r\<lparr>major := Some (HEX (Shr (Mac
          ''__SUNPRO_C'') (Num 12))),
          minor := Some (HEX (Band (Shr (Mac ''__SUNPRO_C'') (Num 4)) (Num 255))),
          patch := Some (HEX (Band (Mac ''__SUNPRO_C'') (Num 15)))\<rparr> else
           r\<lparr>major := Some (HEX (Shr (Mac ''__SUNPRO_C'') (Num 8))),
          minor := Some (HEX (Band (Shr (Mac ''__SUNPRO_C'') (Num 4)) (Num 15))),
          patch := Some (HEX (Band (Mac ''__SUNPRO_C'') (Num 15)))\<rparr>)
   in r)"

definition hp_compiler :: branch where
  "hp_compiler =
  (\<lambda>m. df m ''__HP_cc'',
   \<lambda>_. no_ids\<lparr>cid := ''HP'', major := Some (DEC (Quo (Mac ''__HP_cc'') (Num 10000))),
          minor := Some (DEC (Rem (Quo (Mac ''__HP_cc'') (Num 100)) (Num 100))),
          patch := Some (DEC (Rem (Mac ''__HP_cc'') (Num 100)))\<rparr>)"

definition compaq_branch :: branch where
  "compaq_branch =
  (\<lambda>m. df m ''__DECC'',
   \<lambda>_. no_ids\<lparr>cid := ''Compaq'', major := Some (DEC (Quo (Mac ''__DECC_VER'') (Num
          10000000))),
          minor := Some (DEC (Rem (Quo (Mac ''__DECC_VER'') (Num 100000)) (Num 100))),
          patch := Some (DEC (Rem (Mac ''__DECC_VER'') (Num 10000)))\<rparr>)"

definition zos_branch :: branch where
  "zos_branch =
  (\<lambda>m. df m ''__IBMC__'' \<and> df m ''__COMPILER_VER__'',
   \<lambda>_. no_ids\<lparr>cid := ''zOS'', major := Some (DEC (Quo (Mac ''__IBMC__'') (Num 100))),
          minor := Some (DEC (Rem (Quo (Mac ''__IBMC__'') (Num 10)) (Num 10))),
          patch := Some (DEC (Rem (Mac ''__IBMC__'') (Num 10)))\<rparr>)"

definition ibmclang_branch :: branch where
  "ibmclang_branch =
  (\<lambda>m. df m ''__open_xl__'' \<and> df m ''__clang__'',
   \<lambda>_. no_ids\<lparr>cid := ''IBMClang'', major := Some (DEC (Mac ''__open_xl_version__'')),
          minor := Some (DEC (Mac ''__open_xl_release__'')),
          patch := Some (DEC (Mac ''__open_xl_modification__'')),
          tweak := Some (DEC (Mac ''__open_xl_ptf_fix_level__''))\<rparr>)"

definition xlclang_branch :: branch where
  "xlclang_branch =
  (\<lambda>m. df m ''__ibmxl__'' \<and> df m ''__clang__'',
   \<lambda>_. no_ids\<lparr>cid := ''XLClang'', major := Some (DEC (Mac ''__ibmxl_version__'')),
          minor := Some (DEC (Mac ''__ibmxl_release__'')),
          patch := Some (DEC (Mac ''__ibmxl_modification__'')),
          tweak := Some (DEC (Mac ''__ibmxl_ptf_fix_level__''))\<rparr>)"

definition xl_compiler :: branch where
  "xl_compiler =
  (\<lambda>m. df m ''__IBMC__'' \<and> \<not> df m ''__COMPILER_VER__'' \<and> pp m (Mac ''__IBMC__'')
          \<ge> 800,
   \<lambda>_. no_ids\<lparr>cid := ''XL'', major := Some (DEC (Quo (Mac ''__IBMC__'') (Num 100))),
          minor := Some (DEC (Rem (Quo (Mac ''__IBMC__'') (Num 10)) (Num 10))),
          patch := Some (DEC (Rem (Mac ''__IBMC__'') (Num 10)))\<rparr>)"

definition visualage_branch :: branch where
  "visualage_branch =
  (\<lambda>m. df m ''__IBMC__'' \<and> \<not> df m ''__COMPILER_VER__'' \<and> pp m (Mac ''__IBMC__'')
          < 800,
   \<lambda>_. no_ids\<lparr>cid := ''VisualAge'', major := Some (DEC (Quo (Mac ''__IBMC__'') (Num
          100))),
          minor := Some (DEC (Rem (Quo (Mac ''__IBMC__'') (Num 10)) (Num 10))),
          patch := Some (DEC (Rem (Mac ''__IBMC__'') (Num 10)))\<rparr>)"

definition nvhpc_branch :: branch where
  "nvhpc_branch =
  (\<lambda>m. df m ''__NVCOMPILER'',
   \<lambda>m. let r = no_ids\<lparr>cid := ''NVHPC'', major := Some (DEC (Mac
          ''__NVCOMPILER_MAJOR__'')),
          minor := Some (DEC (Mac ''__NVCOMPILER_MINOR__''))\<rparr>;
      r = (if df m ''__NVCOMPILER_PATCHLEVEL__'' then r\<lparr>patch := Some (DEC (Mac
          ''__NVCOMPILER_PATCHLEVEL__''))\<rparr> else r)
   in r)"

definition pgi_branch :: branch where
  "pgi_branch =
  (\<lambda>m. df m ''__PGI'',
   \<lambda>m. let r = no_ids\<lparr>cid := ''PGI'', major := Some (DEC (Mac ''__PGIC__'')),
          minor := Some (DEC (Mac ''__PGIC_MINOR__''))\<rparr>;
      r = (if df m ''__PGIC_PATCHLEVEL__'' then r\<lparr>patch := Some (DEC (Mac
          ''__PGIC_PATCHLEVEL__''))\<rparr> else r)
   in r)"

definition crayclang_branch :: branch where
  "crayclang_branch =
  (\<lambda>m. df m ''__clang__'' \<and> df m ''__cray__'',
   \<lambda>_. no_ids\<lparr>cid := ''CrayClang'', major := Some (DEC (Mac ''__cray_major__'')),
          minor := Some (DEC (Mac ''__cray_minor__'')),
          patch := Some (DEC (Mac ''__cray_patchlevel__'')),
          internal_str := Some ''__clang_version__''\<rparr>)"

definition cray_branch :: branch where
  "cray_branch =
  (\<lambda>m. df m ''_CRAYC'',
   \<lambda>_. no_ids\<lparr>cid := ''Cray'', major := Some (DEC (Mac ''_RELEASE_MAJOR'')),
          minor := Some (DEC (Mac ''_RELEASE_MINOR''))\<rparr>)"

definition ti_compiler :: branch where
  "ti_compiler =
  (\<lambda>m. df m ''__TI_COMPILER_VERSION__'',
   \<lambda>_. no_ids\<lparr>cid := ''TI'', major := Some (DEC (Quo (Mac ''__TI_COMPILER_VERSION__'')
          (Num 1000000))),
          minor := Some (DEC (Rem (Quo (Mac ''__TI_COMPILER_VERSION__'') (Num 1000)) (Num 1000))),
          patch := Some (DEC (Rem (Mac ''__TI_COMPILER_VERSION__'') (Num 1000)))\<rparr>)"

definition fujitsuclang_branch :: branch where
  "fujitsuclang_branch =
  (\<lambda>m. df m ''__CLANG_FUJITSU'',
   \<lambda>_. no_ids\<lparr>cid := ''FujitsuClang'', major := Some (DEC (Mac ''__FCC_major__'')),
          minor := Some (DEC (Mac ''__FCC_minor__'')),
          patch := Some (DEC (Mac ''__FCC_patchlevel__'')),
          internal_str := Some ''__clang_version__''\<rparr>)"

definition fujitsu_branch :: branch where
  "fujitsu_branch =
  (\<lambda>m. df m ''__FUJITSU'',
   \<lambda>m. let r = no_ids\<lparr>cid := ''Fujitsu''\<rparr>;
      r = (if df m ''__FCC_version__'' then r\<lparr>ver_str := Some ''__FCC_version__''\<rparr> else
           if df m ''__FCC_major__'' then r\<lparr>major := Some (DEC (Mac ''__FCC_major__'')),
          minor := Some (DEC (Mac ''__FCC_minor__'')),
          patch := Some (DEC (Mac ''__FCC_patchlevel__''))\<rparr> else r);
      r = (if df m ''__fcc_version'' then r\<lparr>internal := Some (DEC (Mac
          ''__fcc_version''))\<rparr> else
           if df m ''__FCC_VERSION'' then r\<lparr>internal := Some (DEC (Mac
          ''__FCC_VERSION''))\<rparr> else r)
   in r)"

definition ghs_branch :: branch where
  "ghs_branch =
  (\<lambda>m. df m ''__ghs__'',
   \<lambda>m. let r = no_ids\<lparr>cid := ''GHS''\<rparr>;
      r = (if df m ''__GHS_VERSION_NUMBER'' then r\<lparr>major := Some (DEC (Quo (Mac
          ''__GHS_VERSION_NUMBER'') (Num 100))),
          minor := Some (DEC (Rem (Quo (Mac ''__GHS_VERSION_NUMBER'') (Num 10)) (Num 10))),
          patch := Some (DEC (Rem (Mac ''__GHS_VERSION_NUMBER'') (Num 10)))\<rparr> else r)
   in r)"

definition tasking_branch :: branch where
  "tasking_branch =
  (\<lambda>m. df m ''__TASKING__'',
   \<lambda>_. no_ids\<lparr>cid := ''Tasking'', major := Some (DEC (Quo (Mac ''__VERSION__'') (Num
          1000))),
          minor := Some (DEC (Rem (Mac ''__VERSION__'') (Num 100))),
          internal := Some (DEC (Mac ''__VERSION__''))\<rparr>)"

definition orangec_branch :: branch where
  "orangec_branch =
  (\<lambda>m. df m ''__ORANGEC__'',
   \<lambda>_. no_ids\<lparr>cid := ''OrangeC'', major := Some (DEC (Mac ''__ORANGEC_MAJOR__'')),
          minor := Some (DEC (Mac ''__ORANGEC_MINOR__'')),
          patch := Some (DEC (Mac ''__ORANGEC_PATCHLEVEL__''))\<rparr>)"

definition tinycc_branch :: branch where
  "tinycc_branch =
  (\<lambda>m. df m ''__TINYC__'',
   \<lambda>_. no_ids\<lparr>cid := ''TinyCC''\<rparr>)"

definition bruce_branch :: branch where
  "bruce_branch =
  (\<lambda>m. df m ''__BCC__'',
   \<lambda>_. no_ids\<lparr>cid := ''Bruce''\<rparr>)"

definition sco_compiler :: branch where
  "sco_compiler =
  (\<lambda>m. df m ''__SCO_VERSION__'',
   \<lambda>_. no_ids\<lparr>cid := ''SCO''\<rparr>)"

definition armcc_branch :: branch where
  "armcc_branch =
  (\<lambda>m. df m ''__ARMCC_VERSION'' \<and> \<not> df m ''__clang__'',
   \<lambda>m. let r = no_ids\<lparr>cid := ''ARMCC''\<rparr>;
      r = (if pp m (Mac ''__ARMCC_VERSION'') \<ge> 1000000 then r\<lparr>major := Some (DEC (Quo (Mac
          ''__ARMCC_VERSION'') (Num 1000000))),
          minor := Some (DEC (Rem (Quo (Mac ''__ARMCC_VERSION'') (Num 10000)) (Num 100))),
          patch := Some (DEC (Rem (Mac ''__ARMCC_VERSION'') (Num 10000)))\<rparr> else
           r\<lparr>major := Some (DEC (Quo (Mac ''__ARMCC_VERSION'') (Num 100000))),
          minor := Some (DEC (Rem (Quo (Mac ''__ARMCC_VERSION'') (Num 10000)) (Num 10))),
          patch := Some (DEC (Rem (Mac ''__ARMCC_VERSION'') (Num 10000)))\<rparr>)
   in r)"

definition appleclang_branch :: branch where
  "appleclang_branch =
  (\<lambda>m. df m ''__clang__'' \<and> df m ''__apple_build_version__'',
   \<lambda>m. let r = no_ids\<lparr>cid := ''AppleClang''\<rparr>;
      r = (if df m ''_MSC_VER'' then r\<lparr>sim_id := Some ''MSVC''\<rparr> else r);
      r = r\<lparr>major := Some (DEC (Mac ''__clang_major__'')),
          minor := Some (DEC (Mac ''__clang_minor__'')),
          patch := Some (DEC (Mac ''__clang_patchlevel__''))\<rparr>;
      r = (if df m ''_MSC_VER'' then r\<lparr>sim_major := Some (DEC (Quo (Mac ''_MSC_VER'') (Num
          100))),
          sim_minor := Some (DEC (Rem (Mac ''_MSC_VER'') (Num 100)))\<rparr> else r);
      r = r\<lparr>tweak := Some (DEC (Mac ''__apple_build_version__''))\<rparr>
   in r)"

definition armclang_branch :: branch where
  "armclang_branch =
  (\<lambda>m. df m ''__clang__'' \<and> df m ''__ARMCOMPILER_VERSION'',
   \<lambda>_. no_ids\<lparr>cid := ''ARMClang'', major := Some (DEC (Quo (Mac
          ''__ARMCOMPILER_VERSION'') (Num 1000000))),
          minor := Some (DEC (Rem (Quo (Mac ''__ARMCOMPILER_VERSION'') (Num 10000)) (Num 100))),
          patch := Some (DEC (Rem (Quo (Mac ''__ARMCOMPILER_VERSION'') (Num 100)) (Num 100))),
          internal := Some (DEC (Mac ''__ARMCOMPILER_VERSION''))\<rparr>)"

definition ticlang_branch :: branch where
  "ticlang_branch =
  (\<lambda>m. df m ''__clang__'' \<and> df m ''__ti__'',
   \<lambda>_. no_ids\<lparr>cid := ''TIClang'', major := Some (DEC (Mac ''__ti_major__'')),
          minor := Some (DEC (Mac ''__ti_minor__'')),
          patch := Some (DEC (Mac ''__ti_patchlevel__'')),
          internal := Some (DEC (Mac ''__ti_version__''))\<rparr>)"

definition clang_branch :: branch where
  "clang_branch =
  (\<lambda>m. df m ''__clang__'',
   \<lambda>m. let r = no_ids\<lparr>cid := ''Clang''\<rparr>;
      r = (if df m ''_MSC_VER'' then r\<lparr>sim_id := Some ''MSVC''\<rparr> else r);
      r = r\<lparr>major := Some (DEC (Mac ''__clang_major__'')),
          minor := Some (DEC (Mac ''__clang_minor__'')),
          patch := Some (DEC (Mac ''__clang_patchlevel__''))\<rparr>;
      r = (if df m ''_MSC_VER'' then r\<lparr>sim_major := Some (DEC (Quo (Mac ''_MSC_VER'') (Num
          100))),
          sim_minor := Some (DEC (Rem (Mac ''_MSC_VER'') (Num 100)))\<rparr> else r)
   in r)"

definition lcc_branch :: branch where
  "lcc_branch =
  (\<lambda>m. df m ''__LCC__'' \<and> (df m ''__GNUC__'' \<or> df m ''__GNUG__'' \<or> df m
          ''__MCST__''),
   \<lambda>m. let r = no_ids\<lparr>cid := ''LCC'', major := Some (DEC (Quo (Mac ''__LCC__'') (Num
          100))),
          minor := Some (DEC (Rem (Mac ''__LCC__'') (Num 100)))\<rparr>;
      r = (if df m ''__LCC_MINOR__'' then r\<lparr>patch := Some (DEC (Mac ''__LCC_MINOR__''))\<rparr>
          else r);
      r = (if df m ''__GNUC__'' \<and> df m ''__GNUC_MINOR__'' then (let
        r = r\<lparr>sim_id := Some ''GNU'',
          sim_major := Some (DEC (Mac ''__GNUC__'')),
          sim_minor := Some (DEC (Mac ''__GNUC_MINOR__''))\<rparr>;
        r = (if df m ''__GNUC_PATCHLEVEL__'' then r\<lparr>sim_patch := Some (DEC (Mac
          ''__GNUC_PATCHLEVEL__''))\<rparr> else r)
        in r) else r)
   in r)"

definition gnu_branch :: branch where
  "gnu_branch =
  (\<lambda>m. df m ''__GNUC__'',
   \<lambda>m. let r = no_ids\<lparr>cid := ''GNU'', major := Some (DEC (Mac ''__GNUC__''))\<rparr>;
      r = (if df m ''__GNUC_MINOR__'' then r\<lparr>minor := Some (DEC (Mac
          ''__GNUC_MINOR__''))\<rparr> else r);
      r = (if df m ''__GNUC_PATCHLEVEL__'' then r\<lparr>patch := Some (DEC (Mac
          ''__GNUC_PATCHLEVEL__''))\<rparr> else r)
   in r)"

definition msvc_branch :: branch where
  "msvc_branch =
  (\<lambda>m. df m ''_MSC_VER'',
   \<lambda>m. let r = no_ids\<lparr>cid := ''MSVC'', major := Some (DEC (Quo (Mac ''_MSC_VER'') (Num
          100))),
          minor := Some (DEC (Rem (Mac ''_MSC_VER'') (Num 100)))\<rparr>;
      r = (if df m ''_MSC_FULL_VER'' then (let
        r = (if pp m (Mac ''_MSC_VER'') \<ge> 1400 then r\<lparr>patch := Some (DEC (Rem (Mac
          ''_MSC_FULL_VER'') (Num 100000)))\<rparr> else
           r\<lparr>patch := Some (DEC (Rem (Mac ''_MSC_FULL_VER'') (Num 10000)))\<rparr>)
        in r) else r);
      r = (if df m ''_MSC_BUILD'' then r\<lparr>tweak := Some (DEC (Mac ''_MSC_BUILD''))\<rparr> else r)
   in r)"

definition adsp_branch :: branch where
  "adsp_branch =
  (\<lambda>m. df m ''_ADI_COMPILER'',
   \<lambda>m. let r = no_ids\<lparr>cid := ''ADSP''\<rparr>;
      r = (if df m ''__VERSIONNUM__'' then r\<lparr>major := Some (DEC (Band (Shr (Mac
          ''__VERSIONNUM__'') (Num 24)) (Num 255))),
          minor := Some (DEC (Band (Shr (Mac ''__VERSIONNUM__'') (Num 16)) (Num 255))),
          patch := Some (DEC (Band (Shr (Mac ''__VERSIONNUM__'') (Num 8)) (Num 255))),
          tweak := Some (DEC (Band (Mac ''__VERSIONNUM__'') (Num 255)))\<rparr> else r)
   in r)"

definition iar_branch :: branch where
  "iar_branch =
  (\<lambda>m. df m ''__IAR_SYSTEMS_ICC__'' \<or> df m ''__IAR_SYSTEMS_ICC'',
   \<lambda>m. let r = no_ids\<lparr>cid := ''IAR''\<rparr>;
      r = (if df m ''__VER__'' \<and> df m ''__ICCARM__'' then r\<lparr>major := Some (DEC (Quo (Mac
          ''__VER__'') (Num 1000000))),
          minor := Some (DEC (Rem (Quo (Mac ''__VER__'') (Num 1000)) (Num 1000))),
          patch := Some (DEC (Rem (Mac ''__VER__'') (Num 1000))),
          internal := Some (DEC (Mac ''__IAR_SYSTEMS_ICC__''))\<rparr> else
           if df m ''__VER__'' \<and> (df m ''__ICCAVR__'' \<or> df m ''__ICCRX__'' \<or> df m
          ''__ICCRH850__'' \<or> df m ''__ICCRL78__'' \<or> df m ''__ICC430__'' \<or> df m
          ''__ICCRISCV__'' \<or> df m ''__ICCV850__'' \<or> df m ''__ICC8051__'' \<or> df m
          ''__ICCSTM8__'') then r\<lparr>major := Some (DEC (Quo (Mac ''__VER__'') (Num 100))),
          minor := Some (DEC (Sub (Mac ''__VER__'') (Mul (Quo (Mac ''__VER__'') (Num 100)) (Num 100)))),
          patch := Some (DEC (Mac ''__SUBVERSION__'')),
          internal := Some (DEC (Mac ''__IAR_SYSTEMS_ICC__''))\<rparr> else r)
   in r)"

definition sdcc_branch :: branch where
  "sdcc_branch =
  (\<lambda>m. df m ''__SDCC_VERSION_MAJOR'' \<or> df m ''SDCC'',
   \<lambda>m. let r = no_ids\<lparr>cid := ''SDCC''\<rparr>;
      r = (if df m ''__SDCC_VERSION_MAJOR'' then r\<lparr>major := Some (DEC (Mac
          ''__SDCC_VERSION_MAJOR'')),
          minor := Some (DEC (Mac ''__SDCC_VERSION_MINOR'')),
          patch := Some (DEC (Mac ''__SDCC_VERSION_PATCH''))\<rparr> else
           r\<lparr>major := Some (DEC (Quo (Mac ''SDCC'') (Num 100))),
          minor := Some (DEC (Rem (Quo (Mac ''SDCC'') (Num 10)) (Num 10))),
          patch := Some (DEC (Rem (Mac ''SDCC'') (Num 10)))\<rparr>)
   in r)"

definition hp_compiler_guess :: branch where
  "hp_compiler_guess =
  (\<lambda>m. df m ''__hpux'' \<or> df m ''__hpua'',
   \<lambda>_. no_ids\<lparr>cid := ''HP''\<rparr>)"

end
