(* ===== verification/Compiler_Branches_Cxx.thy ===== *)
theory Compiler_Branches_Cxx
  imports Compiler_Branches
begin

text \<open>
  CMakeCXXCompilerId.cpp, from its own text: the branches of the chain that identifies the compiler, all
  with the prefix \<open>cxx\<close>, and the chains for the platform and the architecture.
\<close>

section \<open>The branches\<close>

definition cxx_intel_branch :: branch where
  "cxx_intel_branch =
  (\<lambda>m. df m ''__INTEL_COMPILER'' \<or> df m ''__ICC'',
   \<lambda>m. let r = no_ids\<lparr>cid := ''Intel''\<rparr>;
      r = (if df m ''_MSC_VER'' then r\<lparr>sim_id := Some ''MSVC''\<rparr> else r);
      r = (if df m ''__GNUC__'' then r\<lparr>sim_id := Some ''GNU''\<rparr> else r);
      r = (if pp m (Mac ''__INTEL_COMPILER'') < 2021 \<or> pp m (Mac ''__INTEL_COMPILER'') = 202110
          \<or> pp m (Mac ''__INTEL_COMPILER'') = 202111 then (let
        r = r\<lparr>major := Some (DEC (Quo (Mac ''__INTEL_COMPILER'') (Num 100))),
          minor := Some (DEC (Rem (Quo (Mac ''__INTEL_COMPILER'') (Num 10)) (Num 10)))\<rparr>;
        r = (if df m ''__INTEL_COMPILER_UPDATE'' then r\<lparr>patch := Some (DEC (Mac
          ''__INTEL_COMPILER_UPDATE''))\<rparr> else
           r\<lparr>patch := Some (DEC (Rem (Mac ''__INTEL_COMPILER'') (Num 10)))\<rparr>)
        in r) else
           r\<lparr>major := Some (DEC (Mac ''__INTEL_COMPILER'')),
          minor := Some (DEC (Mac ''__INTEL_COMPILER_UPDATE'')),
          patch := Some (DEC (Num 0))\<rparr>);
      r = (if df m ''__INTEL_COMPILER_BUILD_DATE'' then r\<lparr>tweak := Some (DEC (Mac
          ''__INTEL_COMPILER_BUILD_DATE''))\<rparr> else r);
      r = (if df m ''_MSC_VER'' then r\<lparr>sim_major := Some (DEC (Quo (Mac ''_MSC_VER'') (Num
          100))),
          sim_minor := Some (DEC (Rem (Mac ''_MSC_VER'') (Num 100)))\<rparr> else r);
      r = (if df m ''__GNUC__'' then r\<lparr>sim_major := Some (DEC (Mac ''__GNUC__''))\<rparr> else
           if df m ''__GNUG__'' then r\<lparr>sim_major := Some (DEC (Mac ''__GNUG__''))\<rparr> else
          r);
      r = (if df m ''__GNUC_MINOR__'' then r\<lparr>sim_minor := Some (DEC (Mac
          ''__GNUC_MINOR__''))\<rparr> else r);
      r = (if df m ''__GNUC_PATCHLEVEL__'' then r\<lparr>sim_patch := Some (DEC (Mac
          ''__GNUC_PATCHLEVEL__''))\<rparr> else r)
   in r)"

definition cxx_intel_llvm_branch :: branch where
  "cxx_intel_llvm_branch =
  (\<lambda>m. (df m ''__clang__'' \<and> df m ''__INTEL_CLANG_COMPILER'') \<or> df m
          ''__INTEL_LLVM_COMPILER'',
   \<lambda>m. let r = no_ids\<lparr>cid := ''IntelLLVM''\<rparr>;
      r = (if df m ''_MSC_VER'' then r\<lparr>sim_id := Some ''MSVC''\<rparr> else r);
      r = (if df m ''__GNUC__'' then r\<lparr>sim_id := Some ''GNU''\<rparr> else r);
      r = (if pp m (Mac ''__INTEL_LLVM_COMPILER'') < 1000000 then r\<lparr>major := Some (DEC (Quo (Mac
          ''__INTEL_LLVM_COMPILER'') (Num 100))),
          minor := Some (DEC (Rem (Quo (Mac ''__INTEL_LLVM_COMPILER'') (Num 10)) (Num 10))),
          patch := Some (DEC (Rem (Mac ''__INTEL_LLVM_COMPILER'') (Num 10)))\<rparr> else
           r\<lparr>major := Some (DEC (Quo (Mac ''__INTEL_LLVM_COMPILER'') (Num 10000))),
          minor := Some (DEC (Rem (Quo (Mac ''__INTEL_LLVM_COMPILER'') (Num 100)) (Num 100))),
          patch := Some (DEC (Rem (Mac ''__INTEL_LLVM_COMPILER'') (Num 100)))\<rparr>);
      r = (if df m ''_MSC_VER'' then r\<lparr>sim_major := Some (DEC (Quo (Mac ''_MSC_VER'') (Num
          100))),
          sim_minor := Some (DEC (Rem (Mac ''_MSC_VER'') (Num 100)))\<rparr> else r);
      r = (if df m ''__GNUC__'' then r\<lparr>sim_major := Some (DEC (Mac ''__GNUC__''))\<rparr> else
           if df m ''__GNUG__'' then r\<lparr>sim_major := Some (DEC (Mac ''__GNUG__''))\<rparr> else
          r);
      r = (if df m ''__GNUC_MINOR__'' then r\<lparr>sim_minor := Some (DEC (Mac
          ''__GNUC_MINOR__''))\<rparr> else r);
      r = (if df m ''__GNUC_PATCHLEVEL__'' then r\<lparr>sim_patch := Some (DEC (Mac
          ''__GNUC_PATCHLEVEL__''))\<rparr> else r)
   in r)"

definition cxx_pathscale_branch :: branch where
  "cxx_pathscale_branch =
  (\<lambda>m. df m ''__PATHCC__'',
   \<lambda>m. let r = no_ids\<lparr>cid := ''PathScale'', major := Some (DEC (Mac ''__PATHCC__'')),
          minor := Some (DEC (Mac ''__PATHCC_MINOR__''))\<rparr>;
      r = (if df m ''__PATHCC_PATCHLEVEL__'' then r\<lparr>patch := Some (DEC (Mac
          ''__PATHCC_PATCHLEVEL__''))\<rparr> else r)
   in r)"

definition cxx_embarcadero_branch :: branch where
  "cxx_embarcadero_branch =
  (\<lambda>m. df m ''__BORLANDC__'' \<and> df m ''__CODEGEARC_VERSION__'',
   \<lambda>_. no_ids\<lparr>cid := ''Embarcadero'', major := Some (HEX (Band (Shr (Mac
          ''__CODEGEARC_VERSION__'') (Num 24)) (Num 255))),
          minor := Some (HEX (Band (Shr (Mac ''__CODEGEARC_VERSION__'') (Num 16)) (Num 255))),
          patch := Some (DEC (Band (Mac ''__CODEGEARC_VERSION__'') (Num 65535)))\<rparr>)"

definition cxx_borland_branch :: branch where
  "cxx_borland_branch =
  (\<lambda>m. df m ''__BORLANDC__'',
   \<lambda>_. no_ids\<lparr>cid := ''Borland'', major := Some (HEX (Shr (Mac ''__BORLANDC__'') (Num
          8))),
          minor := Some (HEX (Band (Mac ''__BORLANDC__'') (Num 255)))\<rparr>)"

definition cxx_watcom_branch :: branch where
  "cxx_watcom_branch =
  (\<lambda>m. df m ''__WATCOMC__'' \<and> pp m (Mac ''__WATCOMC__'') < 1200,
   \<lambda>m. let r = no_ids\<lparr>cid := ''Watcom'', major := Some (DEC (Quo (Mac ''__WATCOMC__'')
          (Num 100))),
          minor := Some (DEC (Rem (Quo (Mac ''__WATCOMC__'') (Num 10)) (Num 10)))\<rparr>;
      r = (if pp m (Rem (Mac ''__WATCOMC__'') (Num 10)) > 0 then r\<lparr>patch := Some (DEC (Rem (Mac
          ''__WATCOMC__'') (Num 10)))\<rparr> else r)
   in r)"

definition cxx_openwatcom_branch :: branch where
  "cxx_openwatcom_branch =
  (\<lambda>m. df m ''__WATCOMC__'',
   \<lambda>m. let r = no_ids\<lparr>cid := ''OpenWatcom'', major := Some (DEC (Quo (Sub (Mac
          ''__WATCOMC__'') (Num 1100)) (Num 100))),
          minor := Some (DEC (Rem (Quo (Mac ''__WATCOMC__'') (Num 10)) (Num 10)))\<rparr>;
      r = (if pp m (Rem (Mac ''__WATCOMC__'') (Num 10)) > 0 then r\<lparr>patch := Some (DEC (Rem (Mac
          ''__WATCOMC__'') (Num 10)))\<rparr> else r)
   in r)"

definition cxx_sunpro_branch :: branch where
  "cxx_sunpro_branch =
  (\<lambda>m. df m ''__SUNPRO_CC'',
   \<lambda>m. let r = no_ids\<lparr>cid := ''SunPro''\<rparr>;
      r = (if pp m (Mac ''__SUNPRO_CC'') \<ge> 20736 then r\<lparr>major := Some (HEX (Shr (Mac
          ''__SUNPRO_CC'') (Num 12))),
          minor := Some (HEX (Band (Shr (Mac ''__SUNPRO_CC'') (Num 4)) (Num 255))),
          patch := Some (HEX (Band (Mac ''__SUNPRO_CC'') (Num 15)))\<rparr> else
           r\<lparr>major := Some (HEX (Shr (Mac ''__SUNPRO_CC'') (Num 8))),
          minor := Some (HEX (Band (Shr (Mac ''__SUNPRO_CC'') (Num 4)) (Num 15))),
          patch := Some (HEX (Band (Mac ''__SUNPRO_CC'') (Num 15)))\<rparr>)
   in r)"

definition cxx_hp_compiler :: branch where
  "cxx_hp_compiler =
  (\<lambda>m. df m ''__HP_aCC'',
   \<lambda>_. no_ids\<lparr>cid := ''HP'', major := Some (DEC (Quo (Mac ''__HP_aCC'') (Num 10000))),
          minor := Some (DEC (Rem (Quo (Mac ''__HP_aCC'') (Num 100)) (Num 100))),
          patch := Some (DEC (Rem (Mac ''__HP_aCC'') (Num 100)))\<rparr>)"

definition cxx_compaq_branch :: branch where
  "cxx_compaq_branch =
  (\<lambda>m. df m ''__DECCXX'',
   \<lambda>_. no_ids\<lparr>cid := ''Compaq'', major := Some (DEC (Quo (Mac ''__DECCXX_VER'') (Num
          10000000))),
          minor := Some (DEC (Rem (Quo (Mac ''__DECCXX_VER'') (Num 100000)) (Num 100))),
          patch := Some (DEC (Rem (Mac ''__DECCXX_VER'') (Num 10000)))\<rparr>)"

definition cxx_zos_branch :: branch where
  "cxx_zos_branch =
  (\<lambda>m. df m ''__IBMCPP__'' \<and> df m ''__COMPILER_VER__'',
   \<lambda>_. no_ids\<lparr>cid := ''zOS'', major := Some (DEC (Quo (Mac ''__IBMCPP__'') (Num 100))),
          minor := Some (DEC (Rem (Quo (Mac ''__IBMCPP__'') (Num 10)) (Num 10))),
          patch := Some (DEC (Rem (Mac ''__IBMCPP__'') (Num 10)))\<rparr>)"

definition cxx_ibmclang_branch :: branch where
  "cxx_ibmclang_branch =
  (\<lambda>m. df m ''__open_xl__'' \<and> df m ''__clang__'',
   \<lambda>_. no_ids\<lparr>cid := ''IBMClang'', major := Some (DEC (Mac ''__open_xl_version__'')),
          minor := Some (DEC (Mac ''__open_xl_release__'')),
          patch := Some (DEC (Mac ''__open_xl_modification__'')),
          tweak := Some (DEC (Mac ''__open_xl_ptf_fix_level__''))\<rparr>)"

definition cxx_xlclang_branch :: branch where
  "cxx_xlclang_branch =
  (\<lambda>m. df m ''__ibmxl__'' \<and> df m ''__clang__'',
   \<lambda>_. no_ids\<lparr>cid := ''XLClang'', major := Some (DEC (Mac ''__ibmxl_version__'')),
          minor := Some (DEC (Mac ''__ibmxl_release__'')),
          patch := Some (DEC (Mac ''__ibmxl_modification__'')),
          tweak := Some (DEC (Mac ''__ibmxl_ptf_fix_level__''))\<rparr>)"

definition cxx_xl_compiler :: branch where
  "cxx_xl_compiler =
  (\<lambda>m. df m ''__IBMCPP__'' \<and> \<not> df m ''__COMPILER_VER__'' \<and> pp m (Mac
          ''__IBMCPP__'') \<ge> 800,
   \<lambda>_. no_ids\<lparr>cid := ''XL'', major := Some (DEC (Quo (Mac ''__IBMCPP__'') (Num 100))),
          minor := Some (DEC (Rem (Quo (Mac ''__IBMCPP__'') (Num 10)) (Num 10))),
          patch := Some (DEC (Rem (Mac ''__IBMCPP__'') (Num 10)))\<rparr>)"

definition cxx_visualage_branch :: branch where
  "cxx_visualage_branch =
  (\<lambda>m. df m ''__IBMCPP__'' \<and> \<not> df m ''__COMPILER_VER__'' \<and> pp m (Mac
          ''__IBMCPP__'') < 800,
   \<lambda>_. no_ids\<lparr>cid := ''VisualAge'', major := Some (DEC (Quo (Mac ''__IBMCPP__'') (Num
          100))),
          minor := Some (DEC (Rem (Quo (Mac ''__IBMCPP__'') (Num 10)) (Num 10))),
          patch := Some (DEC (Rem (Mac ''__IBMCPP__'') (Num 10)))\<rparr>)"

definition cxx_nvhpc_branch :: branch where
  "cxx_nvhpc_branch =
  (\<lambda>m. df m ''__NVCOMPILER'',
   \<lambda>m. let r = no_ids\<lparr>cid := ''NVHPC'', major := Some (DEC (Mac
          ''__NVCOMPILER_MAJOR__'')),
          minor := Some (DEC (Mac ''__NVCOMPILER_MINOR__''))\<rparr>;
      r = (if df m ''__NVCOMPILER_PATCHLEVEL__'' then r\<lparr>patch := Some (DEC (Mac
          ''__NVCOMPILER_PATCHLEVEL__''))\<rparr> else r)
   in r)"

definition cxx_pgi_branch :: branch where
  "cxx_pgi_branch =
  (\<lambda>m. df m ''__PGI'',
   \<lambda>m. let r = no_ids\<lparr>cid := ''PGI'', major := Some (DEC (Mac ''__PGIC__'')),
          minor := Some (DEC (Mac ''__PGIC_MINOR__''))\<rparr>;
      r = (if df m ''__PGIC_PATCHLEVEL__'' then r\<lparr>patch := Some (DEC (Mac
          ''__PGIC_PATCHLEVEL__''))\<rparr> else r)
   in r)"

definition cxx_crayclang_branch :: branch where
  "cxx_crayclang_branch =
  (\<lambda>m. df m ''__clang__'' \<and> df m ''__cray__'',
   \<lambda>_. no_ids\<lparr>cid := ''CrayClang'', major := Some (DEC (Mac ''__cray_major__'')),
          minor := Some (DEC (Mac ''__cray_minor__'')),
          patch := Some (DEC (Mac ''__cray_patchlevel__'')),
          internal_str := Some ''__clang_version__''\<rparr>)"

definition cxx_cray_branch :: branch where
  "cxx_cray_branch =
  (\<lambda>m. df m ''_CRAYC'',
   \<lambda>_. no_ids\<lparr>cid := ''Cray'', major := Some (DEC (Mac ''_RELEASE_MAJOR'')),
          minor := Some (DEC (Mac ''_RELEASE_MINOR''))\<rparr>)"

definition cxx_ti_compiler :: branch where
  "cxx_ti_compiler =
  (\<lambda>m. df m ''__TI_COMPILER_VERSION__'',
   \<lambda>_. no_ids\<lparr>cid := ''TI'', major := Some (DEC (Quo (Mac ''__TI_COMPILER_VERSION__'')
          (Num 1000000))),
          minor := Some (DEC (Rem (Quo (Mac ''__TI_COMPILER_VERSION__'') (Num 1000)) (Num 1000))),
          patch := Some (DEC (Rem (Mac ''__TI_COMPILER_VERSION__'') (Num 1000)))\<rparr>)"

definition cxx_fujitsuclang_branch :: branch where
  "cxx_fujitsuclang_branch =
  (\<lambda>m. df m ''__CLANG_FUJITSU'',
   \<lambda>_. no_ids\<lparr>cid := ''FujitsuClang'', major := Some (DEC (Mac ''__FCC_major__'')),
          minor := Some (DEC (Mac ''__FCC_minor__'')),
          patch := Some (DEC (Mac ''__FCC_patchlevel__'')),
          internal_str := Some ''__clang_version__''\<rparr>)"

definition cxx_fujitsu_branch :: branch where
  "cxx_fujitsu_branch =
  (\<lambda>m. df m ''__FUJITSU'',
   \<lambda>m. let r = no_ids\<lparr>cid := ''Fujitsu''\<rparr>;
      r = (if df m ''__FCC_version__'' then r\<lparr>ver_str := Some ''__FCC_version__''\<rparr> else
           if df m ''__FCC_major__'' then r\<lparr>major := Some (DEC (Mac ''__FCC_major__'')),
          minor := Some (DEC (Mac ''__FCC_minor__'')),
          patch := Some (DEC (Mac ''__FCC_patchlevel__''))\<rparr> else r);
      r = (if df m ''__fcc_version'' then r\<lparr>internal := Some (DEC (Mac
          ''__fcc_version''))\<rparr> else
           if df m ''__FCC_VERSION'' then r\<lparr>internal := Some (DEC (Mac
          ''__FCC_VERSION''))\<rparr> else r)
   in r)"

definition cxx_ghs_branch :: branch where
  "cxx_ghs_branch =
  (\<lambda>m. df m ''__ghs__'',
   \<lambda>m. let r = no_ids\<lparr>cid := ''GHS''\<rparr>;
      r = (if df m ''__GHS_VERSION_NUMBER'' then r\<lparr>major := Some (DEC (Quo (Mac
          ''__GHS_VERSION_NUMBER'') (Num 100))),
          minor := Some (DEC (Rem (Quo (Mac ''__GHS_VERSION_NUMBER'') (Num 10)) (Num 10))),
          patch := Some (DEC (Rem (Mac ''__GHS_VERSION_NUMBER'') (Num 10)))\<rparr> else r)
   in r)"

definition cxx_tasking_branch :: branch where
  "cxx_tasking_branch =
  (\<lambda>m. df m ''__TASKING__'',
   \<lambda>_. no_ids\<lparr>cid := ''Tasking'', major := Some (DEC (Quo (Mac ''__VERSION__'') (Num
          1000))),
          minor := Some (DEC (Rem (Mac ''__VERSION__'') (Num 100))),
          internal := Some (DEC (Mac ''__VERSION__''))\<rparr>)"

definition cxx_orangec_branch :: branch where
  "cxx_orangec_branch =
  (\<lambda>m. df m ''__ORANGEC__'',
   \<lambda>_. no_ids\<lparr>cid := ''OrangeC'', major := Some (DEC (Mac ''__ORANGEC_MAJOR__'')),
          minor := Some (DEC (Mac ''__ORANGEC_MINOR__'')),
          patch := Some (DEC (Mac ''__ORANGEC_PATCHLEVEL__''))\<rparr>)"

definition cxx_sco_compiler :: branch where
  "cxx_sco_compiler =
  (\<lambda>m. df m ''__SCO_VERSION__'',
   \<lambda>_. no_ids\<lparr>cid := ''SCO''\<rparr>)"

definition cxx_armcc_branch :: branch where
  "cxx_armcc_branch =
  (\<lambda>m. df m ''__ARMCC_VERSION'' \<and> \<not> df m ''__clang__'',
   \<lambda>m. let r = no_ids\<lparr>cid := ''ARMCC''\<rparr>;
      r = (if pp m (Mac ''__ARMCC_VERSION'') \<ge> 1000000 then r\<lparr>major := Some (DEC (Quo (Mac
          ''__ARMCC_VERSION'') (Num 1000000))),
          minor := Some (DEC (Rem (Quo (Mac ''__ARMCC_VERSION'') (Num 10000)) (Num 100))),
          patch := Some (DEC (Rem (Mac ''__ARMCC_VERSION'') (Num 10000)))\<rparr> else
           r\<lparr>major := Some (DEC (Quo (Mac ''__ARMCC_VERSION'') (Num 100000))),
          minor := Some (DEC (Rem (Quo (Mac ''__ARMCC_VERSION'') (Num 10000)) (Num 10))),
          patch := Some (DEC (Rem (Mac ''__ARMCC_VERSION'') (Num 10000)))\<rparr>)
   in r)"

definition cxx_appleclang_branch :: branch where
  "cxx_appleclang_branch =
  (\<lambda>m. df m ''__clang__'' \<and> df m ''__apple_build_version__'',
   \<lambda>m. let r = no_ids\<lparr>cid := ''AppleClang''\<rparr>;
      r = (if df m ''_MSC_VER'' then r\<lparr>sim_id := Some ''MSVC''\<rparr> else r);
      r = r\<lparr>major := Some (DEC (Mac ''__clang_major__'')),
          minor := Some (DEC (Mac ''__clang_minor__'')),
          patch := Some (DEC (Mac ''__clang_patchlevel__''))\<rparr>;
      r = (if df m ''_MSC_VER'' then r\<lparr>sim_major := Some (DEC (Quo (Mac ''_MSC_VER'') (Num
          100))),
          sim_minor := Some (DEC (Rem (Mac ''_MSC_VER'') (Num 100)))\<rparr> else r);
      r = r\<lparr>tweak := Some (DEC (Mac ''__apple_build_version__''))\<rparr>
   in r)"

definition cxx_armclang_branch :: branch where
  "cxx_armclang_branch =
  (\<lambda>m. df m ''__clang__'' \<and> df m ''__ARMCOMPILER_VERSION'',
   \<lambda>_. no_ids\<lparr>cid := ''ARMClang'', major := Some (DEC (Quo (Mac
          ''__ARMCOMPILER_VERSION'') (Num 1000000))),
          minor := Some (DEC (Rem (Quo (Mac ''__ARMCOMPILER_VERSION'') (Num 10000)) (Num 100))),
          patch := Some (DEC (Rem (Quo (Mac ''__ARMCOMPILER_VERSION'') (Num 100)) (Num 100))),
          internal := Some (DEC (Mac ''__ARMCOMPILER_VERSION''))\<rparr>)"

definition cxx_ticlang_branch :: branch where
  "cxx_ticlang_branch =
  (\<lambda>m. df m ''__clang__'' \<and> df m ''__ti__'',
   \<lambda>_. no_ids\<lparr>cid := ''TIClang'', major := Some (DEC (Mac ''__ti_major__'')),
          minor := Some (DEC (Mac ''__ti_minor__'')),
          patch := Some (DEC (Mac ''__ti_patchlevel__'')),
          internal := Some (DEC (Mac ''__ti_version__''))\<rparr>)"

definition cxx_clang_branch :: branch where
  "cxx_clang_branch =
  (\<lambda>m. df m ''__clang__'',
   \<lambda>m. let r = no_ids\<lparr>cid := ''Clang''\<rparr>;
      r = (if df m ''_MSC_VER'' then r\<lparr>sim_id := Some ''MSVC''\<rparr> else r);
      r = r\<lparr>major := Some (DEC (Mac ''__clang_major__'')),
          minor := Some (DEC (Mac ''__clang_minor__'')),
          patch := Some (DEC (Mac ''__clang_patchlevel__''))\<rparr>;
      r = (if df m ''_MSC_VER'' then r\<lparr>sim_major := Some (DEC (Quo (Mac ''_MSC_VER'') (Num
          100))),
          sim_minor := Some (DEC (Rem (Mac ''_MSC_VER'') (Num 100)))\<rparr> else r)
   in r)"

definition cxx_lcc_branch :: branch where
  "cxx_lcc_branch =
  (\<lambda>m. df m ''__LCC__'' \<and> (df m ''__GNUC__'' \<or> df m ''__GNUG__'' \<or> df m
          ''__MCST__''),
   \<lambda>m. let r = no_ids\<lparr>cid := ''LCC'', major := Some (DEC (Quo (Mac ''__LCC__'') (Num
          100))),
          minor := Some (DEC (Rem (Mac ''__LCC__'') (Num 100)))\<rparr>;
      r = (if df m ''__LCC_MINOR__'' then r\<lparr>patch := Some (DEC (Mac ''__LCC_MINOR__''))\<rparr>
          else r);
      r = (if df m ''__GNUC__'' \<and> df m ''__GNUC_MINOR__'' then (let
        r = r\<lparr>sim_id := Some ''GNU'',
          sim_major := Some (DEC (Mac ''__GNUC__'')),
          sim_minor := Some (DEC (Mac ''__GNUC_MINOR__''))\<rparr>;
        r = (if df m ''__GNUC_PATCHLEVEL__'' then r\<lparr>sim_patch := Some (DEC (Mac
          ''__GNUC_PATCHLEVEL__''))\<rparr> else r)
        in r) else r)
   in r)"

definition cxx_gnu_branch :: branch where
  "cxx_gnu_branch =
  (\<lambda>m. df m ''__GNUC__'' \<or> df m ''__GNUG__'',
   \<lambda>m. let r = no_ids\<lparr>cid := ''GNU''\<rparr>;
      r = (if df m ''__GNUC__'' then r\<lparr>major := Some (DEC (Mac ''__GNUC__''))\<rparr> else
           r\<lparr>major := Some (DEC (Mac ''__GNUG__''))\<rparr>);
      r = (if df m ''__GNUC_MINOR__'' then r\<lparr>minor := Some (DEC (Mac
          ''__GNUC_MINOR__''))\<rparr> else r);
      r = (if df m ''__GNUC_PATCHLEVEL__'' then r\<lparr>patch := Some (DEC (Mac
          ''__GNUC_PATCHLEVEL__''))\<rparr> else r)
   in r)"

definition cxx_msvc_branch :: branch where
  "cxx_msvc_branch =
  (\<lambda>m. df m ''_MSC_VER'',
   \<lambda>m. let r = no_ids\<lparr>cid := ''MSVC'', major := Some (DEC (Quo (Mac ''_MSC_VER'') (Num
          100))),
          minor := Some (DEC (Rem (Mac ''_MSC_VER'') (Num 100)))\<rparr>;
      r = (if df m ''_MSC_FULL_VER'' then (let
        r = (if pp m (Mac ''_MSC_VER'') \<ge> 1400 then r\<lparr>patch := Some (DEC (Rem (Mac
          ''_MSC_FULL_VER'') (Num 100000)))\<rparr> else
           r\<lparr>patch := Some (DEC (Rem (Mac ''_MSC_FULL_VER'') (Num 10000)))\<rparr>)
        in r) else r);
      r = (if df m ''_MSC_BUILD'' then r\<lparr>tweak := Some (DEC (Mac ''_MSC_BUILD''))\<rparr> else r)
   in r)"

definition cxx_adsp_branch :: branch where
  "cxx_adsp_branch =
  (\<lambda>m. df m ''_ADI_COMPILER'',
   \<lambda>m. let r = no_ids\<lparr>cid := ''ADSP''\<rparr>;
      r = (if df m ''__VERSIONNUM__'' then r\<lparr>major := Some (DEC (Band (Shr (Mac
          ''__VERSIONNUM__'') (Num 24)) (Num 255))),
          minor := Some (DEC (Band (Shr (Mac ''__VERSIONNUM__'') (Num 16)) (Num 255))),
          patch := Some (DEC (Band (Shr (Mac ''__VERSIONNUM__'') (Num 8)) (Num 255))),
          tweak := Some (DEC (Band (Mac ''__VERSIONNUM__'') (Num 255)))\<rparr> else r)
   in r)"

definition cxx_iar_branch :: branch where
  "cxx_iar_branch =
  (\<lambda>m. df m ''__IAR_SYSTEMS_ICC__'' \<or> df m ''__IAR_SYSTEMS_ICC'',
   \<lambda>m. let r = no_ids\<lparr>cid := ''IAR''\<rparr>;
      r = (if df m ''__VER__'' \<and> df m ''__ICCARM__'' then r\<lparr>major := Some (DEC (Quo (Mac
          ''__VER__'') (Num 1000000))),
          minor := Some (DEC (Rem (Quo (Mac ''__VER__'') (Num 1000)) (Num 1000))),
          patch := Some (DEC (Rem (Mac ''__VER__'') (Num 1000))),
          internal := Some (DEC (Mac ''__IAR_SYSTEMS_ICC__''))\<rparr> else
           if df m ''__VER__'' \<and> (df m ''__ICCAVR__'' \<or> df m ''__ICCRX__'' \<or> df m
          ''__ICCRH850__'' \<or> df m ''__ICCRL78__'' \<or> df m ''__ICC430__'' \<or> df m
          ''__ICCRISCV__'' \<or> df m ''__ICCV850__'' \<or> df m ''__ICC8051__'' \<or> df m
          ''__ICCSTM8__'') then r\<lparr>major := Some (DEC (Quo (Mac ''__VER__'') (Num 100))),
          minor := Some (DEC (Sub (Mac ''__VER__'') (Mul (Quo (Mac ''__VER__'') (Num 100)) (Num 100)))),
          patch := Some (DEC (Mac ''__SUBVERSION__'')),
          internal := Some (DEC (Mac ''__IAR_SYSTEMS_ICC__''))\<rparr> else r)
   in r)"

definition cxx_hp_compiler_guess :: branch where
  "cxx_hp_compiler_guess =
  (\<lambda>m. df m ''__hpux'' \<or> df m ''__hpua'',
   \<lambda>_. no_ids\<lparr>cid := ''HP''\<rparr>)"

section \<open>The platform and the architecture\<close>

definition cxx_platform_id :: "macros \<Rightarrow> string" where
  "cxx_platform_id m =
    (if df m ''__linux'' \<or> df m ''__linux__'' \<or> df m ''linux'' then ''Linux''
     else if df m ''__MSYS__'' then ''MSYS''
     else if df m ''__CYGWIN__'' then ''Cygwin''
     else if df m ''__MINGW32__'' then ''MinGW''
     else if df m ''__APPLE__'' then ''Darwin''
     else if df m ''_WIN32'' \<or> df m ''__WIN32__'' \<or> df m ''WIN32'' then ''Windows''
     else if df m ''__FreeBSD__'' \<or> df m ''__FreeBSD'' then ''FreeBSD''
     else if df m ''__NetBSD__'' \<or> df m ''__NetBSD'' then ''NetBSD''
     else if df m ''__OpenBSD__'' \<or> df m ''__OPENBSD'' then ''OpenBSD''
     else if df m ''__sun'' \<or> df m ''sun'' then ''SunOS''
     else if df m ''_AIX'' \<or> df m ''__AIX'' \<or> df m ''__AIX__'' \<or> df m ''__aix'' \<or> df m
          ''__aix__'' then ''AIX''
     else if df m ''__hpux'' \<or> df m ''__hpux__'' then ''HP-UX''
     else if df m ''__HAIKU__'' then ''Haiku''
     else if df m ''__BeOS'' \<or> df m ''__BEOS__'' \<or> df m ''_BEOS'' then ''BeOS''
     else if df m ''__QNX__'' \<or> df m ''__QNXNTO__'' then ''QNX''
     else if df m ''__tru64'' \<or> df m ''_tru64'' \<or> df m ''__TRU64__'' then ''Tru64''
     else if df m ''__riscos'' \<or> df m ''__riscos__'' then ''RISCos''
     else if df m ''__sinix'' \<or> df m ''__sinix__'' \<or> df m ''__SINIX__'' then ''SINIX''
     else if df m ''__UNIX_SV__'' then ''UNIX_SV''
     else if df m ''__bsdos__'' then ''BSDOS''
     else if df m ''_MPRAS'' \<or> df m ''MPRAS'' then ''MP-RAS''
     else if df m ''__osf'' \<or> df m ''__osf__'' then ''OSF1''
     else if df m ''_SCO_SV'' \<or> df m ''SCO_SV'' \<or> df m ''sco_sv'' then ''SCO_SV''
     else if df m ''__ultrix'' \<or> df m ''__ultrix__'' \<or> df m ''_ULTRIX'' then ''ULTRIX''
     else if df m ''__XENIX__'' \<or> df m ''_XENIX'' \<or> df m ''XENIX'' then ''Xenix''
     else if df m ''__WATCOMC__'' then
       (if df m ''__LINUX__'' then ''Linux''
       else if df m ''__DOS__'' then ''DOS''
       else if df m ''__OS2__'' then ''OS2''
       else if df m ''__WINDOWS__'' then ''Windows3x''
       else if df m ''__VXWORKS__'' then ''VxWorks''
       else [])
     else if df m ''__INTEGRITY'' then
       (if df m ''INT_178B'' then ''Integrity178''
       else ''Integrity'')
     else if df m ''_ADI_COMPILER'' then ''ADSP''
     else [])"

definition cxx_architecture_id :: "macros \<Rightarrow> string" where
  "cxx_architecture_id m =
    (if df m ''_WIN32'' \<and> df m ''_MSC_VER'' then
       (if df m ''_M_IA64'' then ''IA64''
       else if df m ''_M_ARM64EC'' then ''ARM64EC''
       else if df m ''_M_X64'' \<or> df m ''_M_AMD64'' then ''x64''
       else if df m ''_M_IX86'' then ''X86''
       else if df m ''_M_ARM64'' then ''ARM64''
       else if df m ''_M_ARM'' then
         (if pp m (Mac ''_M_ARM'') = 4 then ''ARMV4I''
         else if pp m (Mac ''_M_ARM'') = 5 then ''ARMV5I''
         else ''ARMV'' @ stringify m ''_M_ARM'')
       else if df m ''_M_MIPS'' then ''MIPS''
       else if df m ''_M_SH'' then ''SHx''
       else [])
     else if df m ''__WATCOMC__'' then
       (if df m ''_M_I86'' then ''I86''
       else if df m ''_M_IX86'' then ''X86''
       else [])
     else if df m ''__IAR_SYSTEMS_ICC__'' \<or> df m ''__IAR_SYSTEMS_ICC'' then
       (if df m ''__ICCARM__'' then ''ARM''
       else if df m ''__ICCRX__'' then ''RX''
       else if df m ''__ICCRH850__'' then ''RH850''
       else if df m ''__ICCRL78__'' then ''RL78''
       else if df m ''__ICCRISCV__'' then ''RISCV''
       else if df m ''__ICCAVR__'' then ''AVR''
       else if df m ''__ICC430__'' then ''MSP430''
       else if df m ''__ICCV850__'' then ''V850''
       else if df m ''__ICC8051__'' then ''8051''
       else if df m ''__ICCSTM8__'' then ''STM8''
       else [])
     else if df m ''__ghs__'' then
       (if df m ''__PPC64__'' then ''PPC64''
       else if df m ''__ppc__'' then ''PPC''
       else if df m ''__ARM__'' then ''ARM''
       else if df m ''__x86_64__'' then ''x64''
       else if df m ''__i386__'' then ''X86''
       else [])
     else if df m ''__clang__'' \<and> df m ''__ti__'' then
       (if df m ''__ARM_ARCH'' then ''Arm''
       else [])
     else if df m ''__TI_COMPILER_VERSION__'' then
       (if df m ''__TI_ARM__'' then ''ARM''
       else if df m ''__MSP430__'' then ''MSP430''
       else if df m ''__TMS320C28XX__'' then ''TMS320C28x''
       else if df m ''__TMS320C6X__'' \<or> df m ''_TMS320C6X'' then ''TMS320C6x''
       else [])
     else if df m ''__ADSPSHARC__'' then ''SHARC''
     else if df m ''__ADSPBLACKFIN__'' then ''Blackfin''
     else if df m ''__TASKING__'' then
       (if df m ''__CTC__'' \<or> df m ''__CPTC__'' then ''TriCore''
       else if df m ''__CMCS__'' then ''MCS''
       else if df m ''__CARM__'' then ''ARM''
       else if df m ''__CARC__'' then ''ARC''
       else if df m ''__C51__'' then ''8051''
       else if df m ''__CPCP__'' then ''PCP''
       else [])
     else [])"

end
