(* ===== verification/Compiler_Id.thy ===== *)
theory Compiler_Id
  imports Compiler_Branches_Cxx
begin

text \<open>
  CMakeCCompilerId.c and CMakeCXXCompilerId.cpp: the choice of the first branch whose condition holds,
  the platform and the architecture, the \<open>info_\<close> strings that CMake searches the binary for, and \<open>main\<close>,
  which reads one character of each string at the index \<open>argc\<close>.
\<close>

section \<open>The identified compiler\<close>

definition c_compilers :: "branch list" where
  "c_compilers =
    [
     intel_branch, intel_llvm_branch, pathscale_branch, embarcadero_branch, borland_branch,
     watcom_branch, openwatcom_branch, sunpro_branch, hp_compiler, compaq_branch, zos_branch,
     ibmclang_branch, xlclang_branch, xl_compiler, visualage_branch, nvhpc_branch, pgi_branch,
     crayclang_branch, cray_branch, ti_compiler, fujitsuclang_branch, fujitsu_branch,
     ghs_branch, tasking_branch, orangec_branch, tinycc_branch, bruce_branch, sco_compiler,
     armcc_branch, appleclang_branch, armclang_branch, ticlang_branch, clang_branch,
     lcc_branch, gnu_branch, msvc_branch, adsp_branch, iar_branch, sdcc_branch,
     hp_compiler_guess]"

definition cxx_compilers_vendor :: "branch list" where
  "cxx_compilers_vendor =
    [
     cxx_intel_branch, cxx_intel_llvm_branch, cxx_pathscale_branch, cxx_embarcadero_branch,
     cxx_borland_branch, cxx_watcom_branch, cxx_openwatcom_branch, cxx_sunpro_branch,
     cxx_hp_compiler, cxx_compaq_branch]"

definition cxx_compilers_ibm :: "branch list" where
  "cxx_compilers_ibm =
    [
     cxx_zos_branch, cxx_ibmclang_branch, cxx_xlclang_branch, cxx_xl_compiler,
     cxx_visualage_branch, cxx_nvhpc_branch, cxx_pgi_branch, cxx_crayclang_branch,
     cxx_cray_branch, cxx_ti_compiler, cxx_fujitsuclang_branch, cxx_fujitsu_branch,
     cxx_ghs_branch, cxx_tasking_branch, cxx_orangec_branch, cxx_sco_compiler, cxx_armcc_branch,
     cxx_appleclang_branch]"

definition cxx_compilers_clang :: "branch list" where
  "cxx_compilers_clang =
    [
     cxx_armclang_branch, cxx_ticlang_branch, cxx_clang_branch, cxx_lcc_branch, cxx_gnu_branch,
     cxx_msvc_branch, cxx_adsp_branch, cxx_iar_branch, cxx_hp_compiler_guess]"

definition cxx_compilers :: "branch list" where
  "cxx_compilers = cxx_compilers_vendor @ cxx_compilers_ibm @ cxx_compilers_clang"

fun first_branch :: "branch list \<Rightarrow> macros \<Rightarrow> idents" where
  "first_branch [] m = no_ids"
| "first_branch ((cond, ids) # bs) m = (if cond m then ids m else first_branch bs m)"

section \<open>The platform and the architecture\<close>

definition platform_id :: "macros \<Rightarrow> string" where
  "platform_id m =
    (if df m ''__linux'' \<or> df m ''__linux__'' \<or> df m ''linux'' then ''Linux''
     else if df m ''__MSYS__'' then ''MSYS''
     else if df m ''__CYGWIN__'' then ''Cygwin''
     else if df m ''__MINGW32__'' then ''MinGW''
     else if df m ''__APPLE__'' then ''Darwin''
     else if df m ''_WIN32'' \<or> df m ''__WIN32__'' \<or> df m ''WIN32'' then ''Windows''
     else if df m ''__FreeBSD__'' \<or> df m ''__FreeBSD'' then ''FreeBSD''
     else if df m ''__NetBSD__'' \<or> df m ''__NetBSD'' then ''NetBSD''
     else if df m ''__OpenBSD__'' \<or> df m ''__OPENBSD'' then ''OpenBSD''
     else if df m ''__sun'' \<or> df m ''sun'' then ''SunOS''
     else if df m ''_AIX'' \<or> df m ''__AIX'' \<or> df m ''__AIX__'' \<or> df m ''__aix'' \<or> df m
          ''__aix__'' then ''AIX''
     else if df m ''__hpux'' \<or> df m ''__hpux__'' then ''HP-UX''
     else if df m ''__HAIKU__'' then ''Haiku''
     else if df m ''__BeOS'' \<or> df m ''__BEOS__'' \<or> df m ''_BEOS'' then ''BeOS''
     else if df m ''__QNX__'' \<or> df m ''__QNXNTO__'' then ''QNX''
     else if df m ''__tru64'' \<or> df m ''_tru64'' \<or> df m ''__TRU64__'' then ''Tru64''
     else if df m ''__riscos'' \<or> df m ''__riscos__'' then ''RISCos''
     else if df m ''__sinix'' \<or> df m ''__sinix__'' \<or> df m ''__SINIX__'' then ''SINIX''
     else if df m ''__UNIX_SV__'' then ''UNIX_SV''
     else if df m ''__bsdos__'' then ''BSDOS''
     else if df m ''_MPRAS'' \<or> df m ''MPRAS'' then ''MP-RAS''
     else if df m ''__osf'' \<or> df m ''__osf__'' then ''OSF1''
     else if df m ''_SCO_SV'' \<or> df m ''SCO_SV'' \<or> df m ''sco_sv'' then ''SCO_SV''
     else if df m ''__ultrix'' \<or> df m ''__ultrix__'' \<or> df m ''_ULTRIX'' then ''ULTRIX''
     else if df m ''__XENIX__'' \<or> df m ''_XENIX'' \<or> df m ''XENIX'' then ''Xenix''
     else if df m ''__WATCOMC__'' then
       (if df m ''__LINUX__'' then ''Linux''
       else if df m ''__DOS__'' then ''DOS''
       else if df m ''__OS2__'' then ''OS2''
       else if df m ''__WINDOWS__'' then ''Windows3x''
       else if df m ''__VXWORKS__'' then ''VxWorks''
       else [])
     else if df m ''__INTEGRITY'' then
       (if df m ''INT_178B'' then ''Integrity178''
       else ''Integrity'')
     else if df m ''_ADI_COMPILER'' then ''ADSP''
     else [])"

definition architecture_id :: "macros \<Rightarrow> string" where
  "architecture_id m =
    (if df m ''_WIN32'' \<and> df m ''_MSC_VER'' then
       (if df m ''_M_IA64'' then ''IA64''
       else if df m ''_M_ARM64EC'' then ''ARM64EC''
       else if df m ''_M_X64'' \<or> df m ''_M_AMD64'' then ''x64''
       else if df m ''_M_IX86'' then ''X86''
       else if df m ''_M_ARM64'' then ''ARM64''
       else if df m ''_M_ARM'' then
         (if pp m (Mac ''_M_ARM'') = 4 then ''ARMV4I''
         else if pp m (Mac ''_M_ARM'') = 5 then ''ARMV5I''
         else ''ARMV'' @ stringify m ''_M_ARM'')
       else if df m ''_M_MIPS'' then ''MIPS''
       else if df m ''_M_SH'' then ''SHx''
       else [])
     else if df m ''__WATCOMC__'' then
       (if df m ''_M_I86'' then ''I86''
       else if df m ''_M_IX86'' then ''X86''
       else [])
     else if df m ''__IAR_SYSTEMS_ICC__'' \<or> df m ''__IAR_SYSTEMS_ICC'' then
       (if df m ''__ICCARM__'' then ''ARM''
       else if df m ''__ICCRX__'' then ''RX''
       else if df m ''__ICCRH850__'' then ''RH850''
       else if df m ''__ICCRL78__'' then ''RL78''
       else if df m ''__ICCRISCV__'' then ''RISCV''
       else if df m ''__ICCAVR__'' then ''AVR''
       else if df m ''__ICC430__'' then ''MSP430''
       else if df m ''__ICCV850__'' then ''V850''
       else if df m ''__ICC8051__'' then ''8051''
       else if df m ''__ICCSTM8__'' then ''STM8''
       else [])
     else if df m ''__ghs__'' then
       (if df m ''__PPC64__'' then ''PPC64''
       else if df m ''__ppc__'' then ''PPC''
       else if df m ''__ARM__'' then ''ARM''
       else if df m ''__x86_64__'' then ''x64''
       else if df m ''__i386__'' then ''X86''
       else [])
     else if df m ''__clang__'' \<and> df m ''__ti__'' then
       (if df m ''__ARM_ARCH'' then ''Arm''
       else [])
     else if df m ''__TI_COMPILER_VERSION__'' then
       (if df m ''__TI_ARM__'' then ''ARM''
       else if df m ''__MSP430__'' then ''MSP430''
       else if df m ''__TMS320C28XX__'' then ''TMS320C28x''
       else if df m ''__TMS320C6X__'' \<or> df m ''_TMS320C6X'' then ''TMS320C6x''
       else [])
     else if df m ''__ADSPSHARC__'' then ''SHARC''
     else if df m ''__ADSPBLACKFIN__'' then ''Blackfin''
     else if df m ''__TASKING__'' then
       (if df m ''__CTC__'' \<or> df m ''__CPTC__'' then ''TriCore''
       else if df m ''__CMCS__'' then ''MCS''
       else if df m ''__CARM__'' then ''ARM''
       else if df m ''__CARC__'' then ''ARC''
       else if df m ''__C51__'' then ''8051''
       else if df m ''__CPCP__'' then ''PCP''
       else [])
     else [])"

section \<open>The strings\<close>

text \<open>
  \<open>None\<close>: the file does not compile. A string that the file declares only under a condition is
  \<open>Some None\<close> when the condition does not hold.
\<close>

definition both :: "'a option \<Rightarrow> 'b option \<Rightarrow> ('a \<times> 'b) option" where
  "both a b = (case (a, b) of (Some x, Some y) \<Rightarrow> Some (x, y) | _ \<Rightarrow> None)"

definition text_macro :: "macros \<Rightarrow> string \<Rightarrow> string option" where
  "text_macro m x = (case m x of Some (StrM s) \<Rightarrow> Some s | _ \<Rightarrow> None)"

text \<open>The components of a version that are present: each only when the one before it is.\<close>

definition components :: "literal option list \<Rightarrow> literal list" where
  "components ls = map the (takeWhile (\<lambda>l. l \<noteq> None) ls)"

definition version_parts :: "idents \<Rightarrow> literal list" where
  "version_parts r = components [major r, minor r, patch r, tweak r]"

definition simulate_parts :: "idents \<Rightarrow> literal list" where
  "simulate_parts r = components [sim_major r, sim_minor r, sim_patch r]"

fun dotted :: "macros \<Rightarrow> literal list \<Rightarrow> string option" where
  "dotted m [] = Some []"
| "dotted m [l] = spell m l"
| "dotted m (l # ls) = map_option (\<lambda>(a, b). a @ ''.'' @ b) (both (spell m l) (dotted m ls))"

definition bracketed :: "string \<Rightarrow> string \<Rightarrow> string" where
  "bracketed what s = ''INFO:'' @ what @ ''['' @ s @ '']''"

text \<open>An absent string, or one put between brackets when what it spells compiles.\<close>

definition optional :: "bool \<Rightarrow> string \<Rightarrow> string option \<Rightarrow> string option option" where
  "optional present what s =
     (if present then (case s of None \<Rightarrow> None | Some t \<Rightarrow> Some (Some (bracketed what t))) else Some None)"

definition info_compiler :: "idents \<Rightarrow> string" where
  "info_compiler r = bracketed ''compiler'' (cid r)"

definition info_simulate :: "idents \<Rightarrow> string option option" where
  "info_simulate r = optional (sim_id r \<noteq> None) ''simulate'' (sim_id r)"

definition info_version :: "macros \<Rightarrow> idents \<Rightarrow> string option option" where
  "info_version m r =
     (case ver_str r of
        Some x \<Rightarrow> optional True ''compiler_version'' (text_macro m x)
      | None \<Rightarrow> optional (major r \<noteq> None) ''compiler_version'' (dotted m (version_parts r)))"

definition info_version_internal :: "macros \<Rightarrow> idents \<Rightarrow> string option option" where
  "info_version_internal m r =
     (case internal r of
        Some l \<Rightarrow> optional True ''compiler_version_internal'' (spell m l)
      | None \<Rightarrow>
         (case internal_str r of
            Some x \<Rightarrow> optional True ''compiler_version_internal'' (text_macro m x)
          | None \<Rightarrow> Some None))"

definition info_simulate_version :: "macros \<Rightarrow> idents \<Rightarrow> string option option" where
  "info_simulate_version m r =
     optional (sim_major r \<noteq> None) ''simulate_version'' (dotted m (simulate_parts r))"

definition info_platform :: "macros \<Rightarrow> string" where
  "info_platform m = bracketed ''platform'' (platform_id m)"

definition info_arch :: "macros \<Rightarrow> string" where
  "info_arch m = bracketed ''arch'' (architecture_id m)"

definition info_cray :: "macros \<Rightarrow> string option option" where
  "info_cray m =
     optional (df m ''__CRAYXT_COMPUTE_LINUX_TARGET'') ''compiler_wrapper'' (Some ''CrayPrgEnv'')"

definition info_qnxnto :: "macros \<Rightarrow> string option option" where
  "info_qnxnto m = optional (df m ''__QNXNTO__'') ''qnxnto'' (Some [])"

definition info_language_extensions_default :: "macros \<Rightarrow> string" where
  "info_language_extensions_default m = bracketed ''extensions_default''
     (if (df m ''__clang__'' \<or> df m ''__GNUC__'' \<or> df m ''__xlC__'' \<or> df m ''__TI_COMPILER_VERSION__'')
         \<and> \<not> df m ''__STRICT_ANSI__'' then ''ON'' else ''OFF'')"

section \<open>The language standard\<close>

text \<open>\<open>C_STD\<close> is a macro only when \<open>__STDC_VERSION__\<close> is one; otherwise it stands for 0 in the \<open>#if\<close>.\<close>

definition c_version :: "macros \<Rightarrow> string" where
  "c_version m =
     (let c_std = pp m (Mac ''__STDC_VERSION__'') in
      if \<not> df m ''__STDC__'' \<and> \<not> df m ''__clang__'' then
        (if df m ''_MSC_VER'' \<or> df m ''__ibmxl__'' \<or> df m ''__IBMC__'' then ''90'' else [])
      else if c_std > 201710 then ''23''
      else if c_std > 201112 then ''17''
      else if c_std > 199901 then ''11''
      else if c_std \<ge> 199901 then ''99''
      else ''90'')"

definition cxx_std :: "macros \<Rightarrow> int" where
  "cxx_std m =
     (let cpp = pp m (Mac ''__cplusplus''); lang = pp m (Mac ''_MSVC_LANG'') in
      if df m ''__INTEL_COMPILER'' \<and> df m ''_MSVC_LANG'' then
        (if lang > 201703 then lang
         else if lang = 201703 \<and> df m ''__cpp_aggregate_paren_init'' then 202002
         else if lang > 201402 \<and> cpp > 201703 then 202002
         else if lang > 201402 then 201703
         else if df m ''__INTEL_CXX11_MODE__'' \<and> df m ''__cpp_aggregate_nsdmi'' then 201402
         else if df m ''__INTEL_CXX11_MODE__'' then 201103
         else 199711)
      else if df m ''_MSC_VER'' \<and> df m ''_MSVC_LANG'' then (if lang > cpp then lang else cpp)
      else if df m ''__NVCOMPILER'' then
        (if cpp = 201703 \<and> df m ''__cpp_aggregate_paren_init'' then 202002 else cpp)
      else if df m ''__INTEL_COMPILER'' \<or> df m ''__PGI'' then
        (if cpp = 201103 \<and> df m ''__cpp_namespace_attributes'' then 201703
         else if cpp = 201103 \<and> df m ''__cpp_aggregate_nsdmi'' then 201402
         else cpp)
      else if (df m ''__IBMCPP__'' \<or> df m ''__ibmxl__'') \<and> df m ''__linux__'' then
        (if cpp = 201103 \<and> df m ''__cpp_aggregate_nsdmi'' then 201402 else cpp)
      else if cpp = 1 \<and> df m ''__GXX_EXPERIMENTAL_CXX0X__'' then 201103
      else cpp)"

definition cxx_version :: "macros \<Rightarrow> string" where
  "cxx_version m =
     (let s = cxx_std m in
      if s > 202302 then ''26''
      else if s > 202002 then ''23''
      else if s > 201703 then ''20''
      else if s > 201402 then ''17''
      else if s > 201103 then ''14''
      else if s \<ge> 201103 then ''11''
      else ''98'')"

section \<open>The program\<close>

text \<open>The character at an index of a string, its terminating 0 included; \<open>None\<close> beyond that.\<close>

definition char_at :: "string \<Rightarrow> nat \<Rightarrow> int option" where
  "char_at s k = (if k < length s then Some (int (of_char (s ! k)))
     else if k = length s then Some 0 else None)"

fun require_sum :: "string list \<Rightarrow> nat \<Rightarrow> int option" where
  "require_sum [] k = Some 0"
| "require_sum (s # ss) k = map_option (\<lambda>(a, b). a + b) (both (char_at s k) (require_sum ss k))"

datatype outcome = Wrong_language | Not_compiled | Void_main | Returns int | Out_of_bounds

definition listed :: "string option \<Rightarrow> string list" where
  "listed s = (case s of None \<Rightarrow> [] | Some t \<Rightarrow> [t])"

text \<open>
  The strings \<open>main\<close> reads, in its order. The internal version is read only when it is spelled from a
  number.
\<close>

definition strings_read :: "macros \<Rightarrow> idents \<Rightarrow> string \<Rightarrow> string list option" where
  "strings_read m r std =
     (case (info_version m r, info_version_internal m r, info_simulate r, info_simulate_version m r,
            info_cray m) of
        (Some v, Some i, Some s, Some sv, Some c) \<Rightarrow>
          Some ([info_compiler r, info_platform m, info_arch m]
            @ (if major r = None then [] else listed v)
            @ (if internal r = None then [] else listed i)
            @ listed s @ listed sv @ listed c
            @ [bracketed ''standard_default'' std, info_language_extensions_default m])
      | _ \<Rightarrow> None)"

text \<open>
  All strings the file declares, in its order: besides those \<open>main\<close> reads, \<open>qnxnto\<close>, and the versions that
  come from a macro with a string.
\<close>

definition strings_held :: "macros \<Rightarrow> idents \<Rightarrow> string \<Rightarrow> string list option" where
  "strings_held m r std =
     (case (info_simulate r, info_qnxnto m, info_cray m, info_version m r, info_version_internal m r,
            info_simulate_version m r) of
        (Some s, Some q, Some c, Some v, Some i, Some sv) \<Rightarrow>
          Some (info_compiler r # listed s @ listed q @ listed c @ listed v @ listed i @ listed sv
            @ [info_platform m, info_arch m, bracketed ''standard_default'' std, info_language_extensions_default m])
      | _ \<Rightarrow> None)"

definition returned :: "string list option \<Rightarrow> nat \<Rightarrow> outcome" where
  "returned ss argc =
     (case ss of None \<Rightarrow> Not_compiled
      | Some ts \<Rightarrow> (case require_sum ts argc of None \<Rightarrow> Out_of_bounds | Some n \<Rightarrow> Returns n))"

definition c_main :: "macros \<Rightarrow> nat \<Rightarrow> outcome" where
  "c_main m argc =
     (if df m ''__cplusplus'' then Wrong_language
      else if df m ''__18CXX'' then
        (if strings_read m (first_branch c_compilers m) (c_version m) = None then Not_compiled else Void_main)
      else returned (strings_read m (first_branch c_compilers m) (c_version m)) argc)"

section \<open>The C++ probe\<close>

text \<open>
  The strings of CMakeCXXCompilerId.cpp, from its own text, with its own macros \<open>DEC\<close> and \<open>HEX\<close>.
\<close>

definition cxx_DEC_chars :: "int \<Rightarrow> string" where
  "cxx_DEC_chars n =
     [digit_char ((n sdiv 10000000) smod 10), digit_char ((n sdiv 1000000) smod 10),
      digit_char ((n sdiv 100000) smod 10), digit_char ((n sdiv 10000) smod 10),
      digit_char ((n sdiv 1000) smod 10), digit_char ((n sdiv 100) smod 10),
      digit_char ((n sdiv 10) smod 10), digit_char (n smod 10)]"

definition cxx_HEX_chars :: "int \<Rightarrow> string" where
  "cxx_HEX_chars n =
     [digit_char (drop_bit 28 n AND 15), digit_char (drop_bit 24 n AND 15),
      digit_char (drop_bit 20 n AND 15), digit_char (drop_bit 16 n AND 15),
      digit_char (drop_bit 12 n AND 15), digit_char (drop_bit 8 n AND 15),
      digit_char (drop_bit 4 n AND 15), digit_char (n AND 15)]"

fun cxx_spell :: "macros \<Rightarrow> literal \<Rightarrow> string option" where
  "cxx_spell m (DEC e) = (if compiles m e then Some (cxx_DEC_chars (pp m e)) else None)"
| "cxx_spell m (HEX e) = (if compiles m e then Some (cxx_HEX_chars (pp m e)) else None)"

fun cxx_dotted :: "macros \<Rightarrow> literal list \<Rightarrow> string option" where
  "cxx_dotted m [] = Some []"
| "cxx_dotted m [l] = cxx_spell m l"
| "cxx_dotted m (l # ls) = map_option (\<lambda>(a, b). a @ ''.'' @ b) (both (cxx_spell m l) (cxx_dotted m ls))"

definition cxx_version_parts :: "idents \<Rightarrow> literal list" where
  "cxx_version_parts r = components [major r, minor r, patch r, tweak r]"

definition cxx_simulate_parts :: "idents \<Rightarrow> literal list" where
  "cxx_simulate_parts r = components [sim_major r, sim_minor r, sim_patch r]"

definition cxx_info_compiler :: "idents \<Rightarrow> string" where
  "cxx_info_compiler r = bracketed ''compiler'' (cid r)"

definition cxx_info_simulate :: "idents \<Rightarrow> string option option" where
  "cxx_info_simulate r = optional (sim_id r \<noteq> None) ''simulate'' (sim_id r)"

definition cxx_info_qnxnto :: "macros \<Rightarrow> string option option" where
  "cxx_info_qnxnto m = optional (df m ''__QNXNTO__'') ''qnxnto'' (Some [])"

definition cxx_info_cray :: "macros \<Rightarrow> string option option" where
  "cxx_info_cray m =
     optional (df m ''__CRAYXT_COMPUTE_LINUX_TARGET'') ''compiler_wrapper'' (Some ''CrayPrgEnv'')"

definition cxx_info_version :: "macros \<Rightarrow> idents \<Rightarrow> string option option" where
  "cxx_info_version m r =
     (case ver_str r of
        Some x \<Rightarrow> optional True ''compiler_version'' (text_macro m x)
      | None \<Rightarrow> optional (major r \<noteq> None) ''compiler_version'' (cxx_dotted m (cxx_version_parts r)))"

definition cxx_info_version_internal :: "macros \<Rightarrow> idents \<Rightarrow> string option option" where
  "cxx_info_version_internal m r =
     (case internal r of
        Some l \<Rightarrow> optional True ''compiler_version_internal'' (cxx_spell m l)
      | None \<Rightarrow>
         (case internal_str r of
            Some x \<Rightarrow> optional True ''compiler_version_internal'' (text_macro m x)
          | None \<Rightarrow> Some None))"

definition cxx_info_simulate_version :: "macros \<Rightarrow> idents \<Rightarrow> string option option" where
  "cxx_info_simulate_version m r =
     optional (sim_major r \<noteq> None) ''simulate_version'' (cxx_dotted m (cxx_simulate_parts r))"

definition cxx_info_platform :: "macros \<Rightarrow> string" where
  "cxx_info_platform m = bracketed ''platform'' (cxx_platform_id m)"

definition cxx_info_arch :: "macros \<Rightarrow> string" where
  "cxx_info_arch m = bracketed ''arch'' (cxx_architecture_id m)"

definition cxx_extensions_default :: "macros \<Rightarrow> string" where
  "cxx_extensions_default m = bracketed ''extensions_default''
     (if (df m ''__clang__'' \<or> df m ''__GNUC__'' \<or> df m ''__xlC__'' \<or> df m ''__TI_COMPILER_VERSION__'')
         \<and> \<not> df m ''__STRICT_ANSI__'' then ''ON'' else ''OFF'')"

definition cxx_strings_read :: "macros \<Rightarrow> idents \<Rightarrow> string \<Rightarrow> string list option" where
  "cxx_strings_read m r std =
     (case (cxx_info_version m r, cxx_info_version_internal m r, cxx_info_simulate r, cxx_info_simulate_version m r,
            cxx_info_cray m) of
        (Some v, Some i, Some s, Some sv, Some c) \<Rightarrow>
          Some ([cxx_info_compiler r, cxx_info_platform m, cxx_info_arch m]
            @ (if major r = None then [] else listed v)
            @ (if internal r = None then [] else listed i)
            @ listed s @ listed sv @ listed c
            @ [bracketed ''standard_default'' std, cxx_extensions_default m])
      | _ \<Rightarrow> None)"

text \<open>All strings the file declares, in its order.\<close>

definition cxx_strings_held :: "macros \<Rightarrow> idents \<Rightarrow> string \<Rightarrow> string list option" where
  "cxx_strings_held m r std =
     (case (cxx_info_simulate r, cxx_info_qnxnto m, cxx_info_cray m, cxx_info_version m r,
            cxx_info_version_internal m r, cxx_info_simulate_version m r) of
        (Some s, Some q, Some c, Some v, Some i, Some sv) \<Rightarrow>
          Some (cxx_info_compiler r # listed s @ listed q @ listed c @ listed v @ listed i @ listed sv
            @ [cxx_info_platform m, cxx_info_arch m, bracketed ''standard_default'' std, cxx_extensions_default m])
      | _ \<Rightarrow> None)"

definition cxx_main :: "macros \<Rightarrow> nat \<Rightarrow> outcome" where
  "cxx_main m argc =
     (if \<not> df m ''__cplusplus'' then Wrong_language
      else returned (cxx_strings_read m (first_branch cxx_compilers m) (cxx_version m)) argc)"

end
