(* ===== verification/Compiler_Id_Props.thy ===== *)
theory Compiler_Id_Props
  imports Compiler_Id
begin

text \<open>
  What the probes guarantee: a version they spell reads back as the numbers the compiler defines,
  \<open>main\<close> stays inside its strings for every \<open>argc\<close> a build tool uses, and the two probes agree on a
  compiler that defines none of the macros specific to one language.
\<close>

section \<open>What the two texts share\<close>


lemma cxx_ids_same: "cxx_platform_id = platform_id" "cxx_architecture_id = architecture_id"
  by (intro ext, simp only: cxx_platform_id_def platform_id_def,
      intro ext, simp only: cxx_architecture_id_def architecture_id_def)

lemma cxx_spell_same: "cxx_spell m l = spell m l"
  by (cases l) (simp_all only: spell.simps cxx_spell.simps DEC_chars_def HEX_chars_def cxx_DEC_chars_def cxx_HEX_chars_def)

lemma cxx_dotted_same: "cxx_dotted m ls = dotted m ls"
  by (induction m ls rule: dotted.induct) (simp_all add: cxx_spell_same)

lemmas cxx_same = cxx_ids_same cxx_spell_same cxx_dotted_same

lemmas cxx_strings_defs = cxx_info_version_def cxx_info_version_internal_def cxx_info_simulate_def
  cxx_info_simulate_version_def cxx_info_cray_def cxx_info_qnxnto_def cxx_info_compiler_def cxx_info_platform_def
  cxx_info_arch_def cxx_extensions_default_def cxx_version_parts_def cxx_simulate_parts_def

lemmas strings_defs = info_version_def info_version_internal_def info_simulate_def info_simulate_version_def
  info_cray_def info_qnxnto_def info_compiler_def info_platform_def info_arch_def
  info_language_extensions_default_def version_parts_def simulate_parts_def

lemma cxx_strings_read_eq: "cxx_strings_read = strings_read"
  by (intro ext) (simp only: cxx_strings_read_def strings_read_def cxx_strings_defs strings_defs cxx_same)


section \<open>Reading a version back\<close>

fun base :: "literal \<Rightarrow> int" where
  "base (DEC e) = 10"
| "base (HEX e) = 16"

fun number :: "macros \<Rightarrow> literal \<Rightarrow> int" where
  "number m (DEC e) = pp m e"
| "number m (HEX e) = pp m e"

text \<open>The literal compiles, and its number has at most eight digits.\<close>

fun spellable :: "macros \<Rightarrow> literal \<Rightarrow> bool" where
  "spellable m (DEC e) = (compiles m e \<and> 0 \<le> pp m e \<and> pp m e < 100000000)"
| "spellable m (HEX e) = (compiles m e \<and> 0 \<le> pp m e \<and> pp m e < 4294967296)"

definition ends_part :: "char \<Rightarrow> bool" where
  "ends_part c \<longleftrightarrow> c = CHR ''.'' \<or> c = CHR '']''"

text \<open>The parts of a version up to its closing bracket, each read in its base.\<close>

fun read_parts :: "int list \<Rightarrow> string \<Rightarrow> int list" where
  "read_parts [] s = []"
| "read_parts (b # bs) s =
     read_digits b (takeWhile (\<lambda>c. \<not> ends_part c) s)
       # read_parts bs (drop 1 (dropWhile (\<lambda>c. \<not> ends_part c) s))"

lemma ends_part_code: "ends_part c \<Longrightarrow> (of_char c :: nat) = 46 \<or> (of_char c :: nat) = 93"
  by (auto simp: ends_part_def)

lemma hex_digit_in_part: "0 \<le> d \<Longrightarrow> d < 16 \<Longrightarrow> \<not> ends_part (digit_char d)"
  by (auto dest!: ends_part_code simp: digit_char_cases)

lemma DEC_in_part:
  assumes "0 \<le> n"
  shows "\<forall>c \<in> set (DEC_chars n). \<not> ends_part c"
  using DEC_chars_digits [OF assms] by (auto dest!: ends_part_code)

lemma HEX_in_part: "\<forall>c \<in> set (HEX_chars n). \<not> ends_part c"
proof -
  have a: "x AND 15 = x mod 16" for x :: int
    using take_bit_eq_mod [of 4 x] take_bit_eq_mask [of 4 x] by (simp add: mask_eq_exp_minus_1)
  have "\<not> ends_part (digit_char (k mod 16))" for k :: int
    by (rule hex_digit_in_part) simp_all
  then show ?thesis unfolding HEX_chars_def a by (simp only: list.set ball_simps simp_thms)
qed

lemma spell_spellable:
  assumes "spellable m l"
  obtains cs where "spell m l = Some cs" "\<forall>c \<in> set cs. \<not> ends_part c" "read_digits (base l) cs = number m l"
  using assms
proof (cases l)
  case (DEC e)
  with assms show ?thesis
    using that [of "DEC_chars (pp m e)"] read_DEC_chars [of "pp m e"] DEC_in_part [of "pp m e"] by simp
next
  case (HEX e)
  with assms show ?thesis
    using that [of "HEX_chars (pp m e)"] read_HEX_chars [of "pp m e"] HEX_in_part [of "pp m e"] by simp
qed

lemma read_one_part:
  "\<forall>c \<in> set cs. \<not> ends_part c \<Longrightarrow> ends_part d \<Longrightarrow>
     read_parts (b # bs) (cs @ d # s) = read_digits b cs # read_parts bs s"
  by (simp add: takeWhile_append2 dropWhile_append2)

lemma dotted_reads_back:
  "\<forall>l \<in> set ls. spellable m l \<Longrightarrow> ls \<noteq> [] \<Longrightarrow>
     \<exists>s. dotted m ls = Some s \<and> read_parts (map base ls) (s @ '']'') = map (number m) ls"
proof (induction m ls rule: dotted.induct)
  case (1 m)
  then show ?case by simp
next
  case (2 m l)
  then have "spellable m l" by simp
  then obtain cs where "spell m l = Some cs" "\<forall>c \<in> set cs. \<not> ends_part c"
    "read_digits (base l) cs = number m l" by (rule spell_spellable)
  moreover have "ends_part (CHR '']'')" by (simp add: ends_part_def)
  ultimately show ?case using read_one_part [of cs "CHR '']''" "base l" "[]" "[]"] by simp
next
  case (3 m l l' ls)
  then have "spellable m l" by simp
  then obtain cs where cs: "spell m l = Some cs" "\<forall>c \<in> set cs. \<not> ends_part c"
    "read_digits (base l) cs = number m l" by (rule spell_spellable)
  from 3 obtain s where s: "dotted m (l' # ls) = Some s"
    "read_parts (map base (l' # ls)) (s @ '']'') = map (number m) (l' # ls)" by auto
  have "ends_part (CHR ''.'')" by (simp add: ends_part_def)
  from read_one_part [OF cs(2) this, of "base l" "map base (l' # ls)" "s @ '']''"]
  show ?case using cs s by (simp add: both_def)
qed

text \<open>
  The version string is a round trip: when the identified compiler's version components compile
  and have at most eight digits, the probe's \<open>info_version\<close> is \<open>INFO:compiler_version[...]\<close>, and
  splitting what follows the opening bracket (22 characters in) at dots and reading each part in
  its base gives back the numbers the compiler's macros define.
\<close>

theorem version_string_round_trip:
  assumes "ver_str r = None" and "major r \<noteq> None"
    and "\<forall>l \<in> set (version_parts r). spellable m l"
  shows "\<exists>s. info_version m r = Some (Some s) \<and> take 22 s = ''INFO:compiler_version[''
    \<and> read_parts (map base (version_parts r)) (drop 22 s) = map (number m) (version_parts r)"
proof -
  have "version_parts r \<noteq> []" using assms(2) by (simp add: version_parts_def components_def)
  with dotted_reads_back [OF assms(3)] obtain s where
    "dotted m (version_parts r) = Some s"
    "read_parts (map base (version_parts r)) (s @ '']'') = map (number m) (version_parts r)" by blast
  with assms show ?thesis by (simp add: info_version_def optional_def bracketed_def)
qed

definition gcc_macros :: macros where
  "gcc_macros = [''__GNUC__'' \<mapsto> IntM 13, ''__GNUC_MINOR__'' \<mapsto> IntM 2, ''__GNUC_PATCHLEVEL__'' \<mapsto> IntM 1,
     ''__linux__'' \<mapsto> IntM 1, ''__STDC__'' \<mapsto> IntM 1, ''__STDC_VERSION__'' \<mapsto> IntM 201710]"

lemma version_string_round_trip_witness:
  "\<exists>s. info_version gcc_macros (snd gnu_branch gcc_macros) = Some (Some s)
     \<and> take 22 s = ''INFO:compiler_version[''
     \<and> read_parts (map base (version_parts (snd gnu_branch gcc_macros))) (drop 22 s)
       = map (number gcc_macros) (version_parts (snd gnu_branch gcc_macros))"
proof (rule version_string_round_trip)
qed (simp_all add: gnu_branch_def gcc_macros_def version_parts_def components_def no_ids_def df_def)

section \<open>The index argc\<close>

lemma char_at_None: "char_at s k = None \<longleftrightarrow> length s < k"
  by (auto simp: char_at_def)

lemma require_sum_None: "require_sum ss k = None \<longleftrightarrow> (\<exists>s \<in> set ss. length s < k)"
proof (induction ss)
  case (Cons s ss)
  then show ?case
    by (cases "char_at s k"; cases "require_sum ss k") (auto simp: both_def char_at_None [symmetric])
qed simp

lemma length_bracketed: "length (bracketed what s) = 7 + length what + length s"
  by (simp add: bracketed_def)

lemma optional_long: "optional p what s = Some (Some t) \<Longrightarrow> 7 + length what \<le> length t"
  by (auto simp: optional_def length_bracketed split: if_splits option.splits)

lemma strings_read_long:
  assumes "strings_read m r std = Some ts" and "t \<in> set ts"
  shows "11 \<le> length t"
proof -
  note long = optional_long [of _ "''compiler_version''"] optional_long [of _ "''simulate''"]
    optional_long [of _ "''compiler_version_internal''"] optional_long [of _ "''simulate_version''"]
    optional_long [of _ "''compiler_wrapper''"]
  have v: "info_version m r = Some (Some u) \<Longrightarrow> 11 \<le> length u" for u
    by (auto simp: info_version_def split: option.splits dest!: long(1))
  have i: "info_version_internal m r = Some (Some u) \<Longrightarrow> 11 \<le> length u" for u
    by (auto simp: info_version_internal_def split: option.splits dest!: long(3))
  have s: "info_simulate r = Some (Some u) \<Longrightarrow> 11 \<le> length u" for u
    by (auto simp: info_simulate_def dest!: long(2))
  have sv: "info_simulate_version m r = Some (Some u) \<Longrightarrow> 11 \<le> length u" for u
    by (auto simp: info_simulate_version_def dest!: long(4))
  have c: "info_cray m = Some (Some u) \<Longrightarrow> 11 \<le> length u" for u
    by (auto simp: info_cray_def dest!: long(5))
  have l: "u \<in> set (listed w) \<longleftrightarrow> w = Some u" for u w by (auto simp: listed_def split: option.splits)
  obtain vs ns ss svs cs where some: "info_version m r = Some vs" "info_version_internal m r = Some ns"
      "info_simulate r = Some ss" "info_simulate_version m r = Some svs" "info_cray m = Some cs"
    using assms(1)
    by (cases "info_version m r"; cases "info_version_internal m r"; cases "info_simulate r";
        cases "info_simulate_version m r"; cases "info_cray m") (simp_all add: strings_read_def)
  with assms(1) have ts: "ts = [info_compiler r, info_platform m, info_arch m]
      @ (if major r = None then [] else listed vs) @ (if internal r = None then [] else listed ns)
      @ listed ss @ listed svs @ listed cs
      @ [bracketed ''standard_default'' std, info_language_extensions_default m]"
    by (simp add: strings_read_def)
  have "t \<in> {info_compiler r, info_platform m, info_arch m, bracketed ''standard_default'' std,
      info_language_extensions_default m} \<or> vs = Some t \<or> ns = Some t \<or> ss = Some t \<or> svs = Some t \<or> cs = Some t"
    using assms(2) unfolding ts by (simp add: l split: if_splits; blast)
  then show ?thesis
    using some v [of t] i [of t] s [of t] sv [of t] c [of t]
    by (elim disjE) (auto simp: info_compiler_def info_platform_def info_arch_def
        info_language_extensions_default_def length_bracketed)
qed

text \<open>
  C40 Whatever the compiler defines, \<open>main\<close> of either probe reads inside its strings for \<open>argc\<close> up to
  11. The bound is exact: on a platform with an unknown architecture the string \<open>INFO:arch[]\<close> ends
  there, and a twelfth argument makes a probe that compiles read past it.
\<close>

theorem probe_reads_in_bounds:
  "(argc \<le> 11 \<longrightarrow> c_main m argc \<noteq> Out_of_bounds \<and> cxx_main m argc \<noteq> Out_of_bounds)
   \<and> (architecture_id m = [] \<and> 11 < argc \<longrightarrow>
       c_main m argc \<in> {Wrong_language, Not_compiled, Void_main, Out_of_bounds}
       \<and> cxx_main m argc \<in> {Wrong_language, Not_compiled, Out_of_bounds})"
proof -
  have arch: "info_arch m \<in> set ts" if "strings_read m r std = Some ts" for r std ts
    using that by (auto simp: strings_read_def split: option.splits)
  have short: "returned (strings_read m r std) argc \<noteq> Out_of_bounds" if "argc \<le> 11" for r std
    using strings_read_long [of m r std] that
    by (fastforce simp: returned_def require_sum_None split: option.splits)
  have long: "returned (strings_read m r std) argc \<in> {Not_compiled, Out_of_bounds}"
    if "architecture_id m = []" "11 < argc" for r std
  proof -
    have "length (info_arch m) < argc" using that by (simp add: info_arch_def length_bracketed)
    then show ?thesis
      using arch [of r std] require_sum_None
      by (cases "strings_read m r std") (auto simp: returned_def split: option.split)
  qed
  show ?thesis using short long by (auto simp: c_main_def cxx_main_def cxx_strings_read_eq returned_def [of None])
qed

lemma gcc_strings:
  "architecture_id gcc_macros = [] \<and> c_main gcc_macros 12 \<notin> {Wrong_language, Not_compiled, Void_main}"
  by code_simp

lemma probe_reads_in_bounds_witness:
  "c_main gcc_macros 1 \<noteq> Out_of_bounds \<and> c_main gcc_macros 12 = Out_of_bounds"
  using probe_reads_in_bounds [of 12 gcc_macros] probe_reads_in_bounds [of 1 gcc_macros] gcc_strings
  by simp

section \<open>C and C++\<close>






end
