(* ===== verification/Spec2Isabelle.thy ===== *)
theory Spec2Isabelle
  imports Prelude Message Fifo_Spec Locked_Ring Token_Queue Shm_Queue_Types Sem_Queue_Props Cond_Queue_Props
    Index_Main Index_Tools Student_Faults Student_Start File_Dialogue Child_Signals_Props Env_Children_Props Dir_Walk_Props
    Compiler_Id_Props
begin

text \<open>
  A verification library for the eight laboratory programs on operating systems and systems programming
  (\<open>src/Lab1\<close> to \<open>src/Lab8\<close>), each a small C program around one facility of the system: directories,
  processes and environments, signals, shared memory with semaphores, threads, memory-mapped files, record
  locks, sockets. The programs share no code but two: the queues of Lab5 have the message of Lab4.

  \<^bold>\<open>How the programs are modelled.\<close> A program of one thread is a function of its input and of what the
  operating system answers. A program of several threads or processes is an executable step function: a
  state, an action (who moves, and what the scheduler or the system decides) and the next state, or \<open>None\<close>
  where the action is not possible, such as a call that blocks. A step is what lies between two points at
  which another thread can be noticed: a statement on shared data, a system call, a call of \<open>strtok\<close>.
  Properties of such programs speak of every \<open>reachable\<close> state (\<open>Prelude\<close>), that is of every interleaving,
  and are invariants, proved once for each machine through the locale \<open>invariant_machine\<close>. Integers keep
  their width where the code depends on it (the counters and the checksum of the messages, the fields of
  an index record, the arguments of sort_index). Undefined behaviour is an outcome of its own (\<open>Overrun\<close>,
  \<open>Undefined\<close>, \<open>M_fault\<close>, \<open>crashed\<close>), never an arbitrary value.

  \<^bold>\<open>Shared theories.\<close> \<open>Prelude\<close>: runs, reachable states, machines with an invariant, counting threads at
  a program point, ring buffers. \<open>Text\<close>: decimal numbers, C strings, \<open>snprintf\<close>, \<open>fgets\<close>, directories.
  \<open>Blocks\<close>: an array as blocks of equal length. \<open>Fifo_Spec\<close>: the abstract bounded queue and the contract
  under which a machine refines it. \<open>Locked_Ring\<close> and \<open>Token_Queue\<close>: the protocols of a ring under a mutex,
  alone and with two counting semaphores, as locales.

  \<^bold>\<open>Lab1\<close> (dirwalk.c, function.c): \<open>Dir_Walk\<close>, \<open>scan\<close> with the descriptors that are left to its recursive calls
  and \<open>main\<close> with \<open>getopt\<close>; \<open>Dir_Walk_Props\<close>, which lines are printed, that \<open>-s\<close> permutes them, how many
  descriptors a tree needs, and how often \<open>scan\<close> prints a path of 1023 characters that it enters again and again.

  \<^bold>\<open>Lab2\<close> (parent.c, child.c): \<open>Env_Children\<close>, the environment chosen by \<open>env.txt\<close>, the loop of the parent
  on buffered input, the child in its two modes, with \<open>malloc\<close>, \<open>fork\<close> and \<open>execve\<close> that may fail; \<open>Env_Children_Props\<close>, that the modes agree, when the array
  of ten pointers overruns, and how a failed \<open>execve\<close> doubles the parent.

  \<^bold>\<open>Lab3\<close> (parent.c): \<open>Child_Signals\<close>, a parent, up to 100 children, and the signals between them, which
  are pending at most once, from the installation of the handlers on; \<open>Child_Signals_Props\<close>, the numbers each child reports, that the parent keeps
  account of its children, and the two ways in which a child comes to wait for ever.

  \<^bold>\<open>Lab4\<close> (parent.c): \<open>Message\<close>, the message and its checksum; \<open>Shm_Queue\<close>, producer and consumer processes
  over a ring in shared memory, with the System V semaphores, signals, \<open>fork\<close> and \<open>waitpid\<close>, every statement
  a step; \<open>Shm_Queue_Correct\<close>, the invariants (an interpretation of \<open>Token_Queue\<close>) and the refinement of the
  bounded queue; \<open>Shm_Queue_Props\<close> and \<open>Shm_Queue_Types\<close>, mutual exclusion, integrity, well-formedness, and
  what a killed process does to the tokens.

  \<^bold>\<open>Lab5\<close> (parent1.c, parent2.c): \<open>Sem_Queue\<close> with POSIX semaphores, \<open>Cond_Queue\<close> with condition variables,
  spurious wakeups included, both with cancellation and with a queue size that commands change; the
  invariants and refinements in \<open>Sem_Queue_Correct\<close> and \<open>Cond_Queue_Correct\<close>, the properties in
  \<open>Sem_Queue_Props\<close> and \<open>Cond_Queue_Props\<close>.

  \<^bold>\<open>Lab6\<close> (sort_index.c, gen.c, view.c): \<open>Index_Record\<close>, records, time marks as doubles and \<open>compare_index\<close>;
  \<open>Index_Sort\<close>, the threads that claim and sort blocks and merge runs between barriers, and the sequential
  function they compute; \<open>Index_Sort_Correct\<close> and \<open>Index_Sort_Props\<close>, refinement, termination and when the
  result is sorted; \<open>Index_Merge\<close>, the bytes of the file and \<open>merge_parts\<close>; \<open>Index_Main\<close>, the checks on the
  arguments and the whole program; \<open>Index_Tools\<close>, the generator and the viewer. \<open>qsort\<close> is a parameter that
  permutes and sorts.

  \<^bold>\<open>Lab7\<close> (main.c): \<open>Student_File\<close>, any number of processes that edit one file of records under \<open>fcntl\<close>
  locks, one system call a step; \<open>Student_Props\<close>, the integrity of the file and the lost update;
  \<open>Student_Faults\<close>, the same processes when any call on the file may fail; \<open>Student_Start\<close>, processes started
  before the file is there.

  \<^bold>\<open>Lab8\<close> (server.c, client.c): \<open>File_Server\<close>, one session of the server as a function of its reads, the
  client, and both \<open>main\<close> functions; \<open>File_Server_Props\<close>, where \<open>CD\<close> leads, listings, replies;
  \<open>File_Server_Threads\<close>, the threads of all clients with the position that \<open>strtok\<close> shares between them;
  \<open>File_Server_Isolation\<close>, when each client is served as if alone, and when not; \<open>File_Dialogue\<close>, client and
  server together, over a connection that neither splits nor joins the lines of the client.

  \<^bold>\<open>The compiler probes\<close> (\<open>CompilerIdC/CMakeCCompilerId.c\<close>, \<open>CompilerIdCXX/CMakeCXXCompilerId.cpp\<close> in the build
  directories): \<open>Preproc\<close>, the preprocessor they use; \<open>Compiler_Branches\<close> (the chain of the C
  probe), \<open>Compiler_Branches_Cxx\<close> (the chains of the C++ probe, from its own text) and \<open>Compiler_Id\<close>, their
  strings and \<open>main\<close>; \<open>Compiler_Id_Props\<close>. The eight C copies are one text, and so are the five C++ copies;
  the model is of each text once.

  \<^bold>\<open>Bounds and fuel.\<close> \<open>scan\<close> takes the number of descriptors the process may still open, which is no
  fuel but what bounds its recursion in the code: a call keeps its directory open while it calls itself, and
  \<open>opendir\<close> fails when there is none left. One more than the rank of a tree is enough for all of it
  (\<open>scan_bounded_by_descriptors\<close>). The other loops are recursions with a measure, or machines for which
  the number of steps is bounded by a theorem (\<open>part_threads_terminate\<close>, \<open>sem_main_reaches_prompt\<close>). The
  number of threads, processes and clients is not bounded by the model, only by the arrays of the code.

  \<^bold>\<open>Not modelled.\<close> Failures of \<open>malloc\<close>, \<open>realloc\<close> and \<open>strdup\<close> that the code does not test,
  and of reads and writes on open files in Lab6; the size of the stack; the durations of sleeps and time-outs, which are events that
  may come at any moment; buffering of standard output. \<open>src/Lab1/main.c.save\<close> is an editor's copy of an older
  draft that does not compile and that no build file names. The remaining files under
  \<open>cmake-build-debug\<close> are build logs, cache entries and object code.
\<close>

end
